theory Spec2Isabelle
  imports Complex_Main "HOL-Library.Multiset" "HOL-Library.Char_ord" "HOL-Library.List_Lexorder"
begin

section \<open>JavaScript numbers\<close>

text \<open>
  The numbers of the program are IEEE-754 doubles (binary64). A \<open>number\<close> is a finite
  value, given by the real it denotes, one of the two infinities, or \<open>NaN\<close>. The finite
  doubles are the reals \<open>m * 2 ^ k\<close> with \<open>\<bar>m\<bar> < 2 ^ 53\<close>, \<open>- 1074 \<le> k\<close> and absolute value
  below \<open>2 ^ 1024\<close>; they are the reals that \<open>round_double\<close> returns unchanged. The type
  has more finite values than the doubles, so a statement about all of its values holds
  of all doubles. The two zeros of IEEE-754 are one value here: they are equal for
  \<open>===\<close> and for \<open>||\<close>, and differ only as divisors, and the program divides by the
  literal \<open>100\<close> alone.
\<close>

definition pow2 :: "int \<Rightarrow> real" where
  "pow2 k = 2 powi k"

text \<open>
  The largest \<open>e\<close> from \<open>lo\<close> up to \<open>hi - 1\<close> with \<open>2 ^ e \<le> x\<close>, or \<open>lo\<close> when there is none,
  found by bisection.
\<close>

function bsearch :: "int \<Rightarrow> int \<Rightarrow> real \<Rightarrow> int" where
  "bsearch lo hi x =
     (if hi \<le> lo + 1 then lo
      else (let mid = (lo + hi) div 2
            in if pow2 mid \<le> x then bsearch mid hi x else bsearch lo mid x))"
  by pat_completeness auto
termination
  by (relation "measure (\<lambda>(lo, hi, x). nat (hi - lo))") auto

declare bsearch.simps [simp del]

text \<open>
  The exponent of the binade of a positive real, kept between \<open>- 1022\<close>, the exponent of
  the subnormal numbers, and \<open>1023\<close>, the largest there is.
\<close>

definition exponent :: "real \<Rightarrow> int" where
  "exponent x = bsearch (- 1022) 1024 x"

text \<open>Rounding to the nearest integer, a tie going to the even one.\<close>

definition round_even :: "real \<Rightarrow> int" where
  "round_even y =
     (let f = \<lfloor>y\<rfloor>; d = y - of_int f
      in if d < 1 / 2 then f else if 1 / 2 < d then f + 1 else if even f then f else f + 1)"

datatype number = Num real | PosInfinity | NegInfinity | NaN

text \<open>
  Rounding a real to the nearest double, ties to even: in its binade the doubles are the
  multiples of \<open>2 ^ (e - 52)\<close>; a result of magnitude \<open>2 ^ 1024\<close> is an overflow.
\<close>

definition round_double :: "real \<Rightarrow> number" where
  "round_double x =
     (if x = 0 then Num 0
      else (let q = pow2 (exponent \<bar>x\<bar> - 52);
                r = of_int (round_even (x / q)) * q
            in if pow2 1024 \<le> r then PosInfinity
               else if r \<le> - pow2 1024 then NegInfinity
               else Num r))"

definition is_double :: "number \<Rightarrow> bool" where
  "is_double a = (case a of Num x \<Rightarrow> round_double x = Num x | _ \<Rightarrow> True)"

text \<open>
  The operators \<open>+\<close>, \<open>-\<close>, \<open>*\<close> and \<open>/\<close>: the exact result of two finite operands is rounded;
  the other cases are those of IEEE-754. Where the sign of a zero is asked for, which is
  in a division by zero only, it is that of \<open>+0\<close>.
\<close>

definition is_positive :: "number \<Rightarrow> bool" where
  "is_positive a = (case a of Num x \<Rightarrow> 0 \<le> x | PosInfinity \<Rightarrow> True | _ \<Rightarrow> False)"

definition signed_infinity :: "bool \<Rightarrow> number" where
  "signed_infinity pos = (if pos then PosInfinity else NegInfinity)"

definition fneg :: "number \<Rightarrow> number" where
  "fneg a = (case a of Num x \<Rightarrow> Num (- x) | PosInfinity \<Rightarrow> NegInfinity
             | NegInfinity \<Rightarrow> PosInfinity | NaN \<Rightarrow> NaN)"

fun fadd :: "number \<Rightarrow> number \<Rightarrow> number" where
  "fadd (Num x) (Num y) = round_double (x + y)"
| "fadd NaN b = NaN"
| "fadd a NaN = NaN"
| "fadd PosInfinity NegInfinity = NaN"
| "fadd NegInfinity PosInfinity = NaN"
| "fadd PosInfinity b = PosInfinity"
| "fadd a PosInfinity = PosInfinity"
| "fadd NegInfinity b = NegInfinity"
| "fadd a NegInfinity = NegInfinity"

definition fsub :: "number \<Rightarrow> number \<Rightarrow> number" where
  "fsub a b = fadd a (fneg b)"

fun fmul :: "number \<Rightarrow> number \<Rightarrow> number" where
  "fmul (Num x) (Num y) = round_double (x * y)"
| "fmul NaN b = NaN"
| "fmul a NaN = NaN"
| "fmul a b =
     (if a = Num 0 \<or> b = Num 0 then NaN else signed_infinity (is_positive a = is_positive b))"

fun fdiv :: "number \<Rightarrow> number \<Rightarrow> number" where
  "fdiv (Num x) (Num y) =
     (if y \<noteq> 0 then round_double (x / y) else if x = 0 then NaN else signed_infinity (0 < x))"
| "fdiv NaN b = NaN"
| "fdiv a NaN = NaN"
| "fdiv (Num x) b = Num 0"
| "fdiv a (Num y) = signed_infinity (is_positive a = (0 \<le> y))"
| "fdiv a b = NaN"

text \<open>\<open>a <= b\<close>: false as soon as one side is \<open>NaN\<close>.\<close>

fun fle :: "number \<Rightarrow> number \<Rightarrow> bool" where
  "fle (Num x) (Num y) = (x \<le> y)"
| "fle NaN b = False"
| "fle a NaN = False"
| "fle NegInfinity b = True"
| "fle a PosInfinity = True"
| "fle a b = False"

text \<open>\<open>a || 0\<close>: the falsy numbers are zero and \<open>NaN\<close>.\<close>

definition or_0 :: "number \<Rightarrow> number" where
  "or_0 a = (if a = Num 0 \<or> a = NaN then Num 0 else a)"

subsection \<open>Measures of accuracy\<close>

text \<open>
  The unit roundoff of the doubles, and the reals whose rounding neither overflows nor
  underflows: zero, and the magnitudes from \<open>2 ^ - 1000\<close> to \<open>2 ^ 1000\<close>.
\<close>

definition unit_roundoff :: real where
  "unit_roundoff = 1 / 2 ^ 53"

definition in_range :: "real \<Rightarrow> bool" where
  "in_range x = (x = 0 \<or> (pow2 (- 1000) \<le> \<bar>x\<bar> \<and> \<bar>x\<bar> \<le> pow2 1000))"

text \<open>The whole numbers among the numbers, and the integer a whole number is.\<close>

definition whole :: "number \<Rightarrow> bool" where
  "whole a = (case a of Num x \<Rightarrow> x = of_int \<lfloor>x\<rfloor> | _ \<Rightarrow> False)"

definition whole_part :: "number \<Rightarrow> int" where
  "whole_part a = (case a of Num x \<Rightarrow> \<lfloor>x\<rfloor> | _ \<Rightarrow> 0)"

section \<open>Invoice calculator (utils/calculations.ts)\<close>

text \<open>
  \<open>InvoiceItem\<close> is the interface of types/index.ts; its optional fields are options
  (\<open>None\<close> for a property that is absent). The field \<open>id\<close> is written \<open>ident\<close>.
\<close>

record InvoiceItem =
  ident :: string
  name :: string
  description :: "string option"
  quantity :: number
  price :: number
  discount :: "number option"

text \<open>\<open>item.discount || 0\<close>: an absent discount counts as 0, and so do 0 and \<open>NaN\<close>.\<close>

definition discount_or_0 :: "number option \<Rightarrow> number" where
  "discount_or_0 d = (case d of None \<Rightarrow> Num 0 | Some v \<Rightarrow> or_0 v)"

definition calculateItemTotal :: "InvoiceItem \<Rightarrow> number" where
  "calculateItemTotal item =
     (let subtotal = fmul (quantity item) (price item);
          discountAmount = fmul (fdiv (discount_or_0 (discount item)) (Num 100)) subtotal
      in fsub subtotal discountAmount)"

text \<open>\<open>items.reduce((sum, item) => sum + calculateItemTotal(item), 0)\<close> is a left fold.\<close>

definition calculateInvoiceSubtotal :: "InvoiceItem list \<Rightarrow> number" where
  "calculateInvoiceSubtotal items =
     foldl (\<lambda>sum item. fadd sum (calculateItemTotal item)) (Num 0) items"

definition calculateTaxAmount :: "number \<Rightarrow> number \<Rightarrow> number" where
  "calculateTaxAmount subtotal taxRate = fdiv (fmul subtotal taxRate) (Num 100)"

record InvoiceTotal =
  discountAmount :: number
  taxAmount :: number
  total :: number

definition calculateInvoiceTotal :: "number \<Rightarrow> number \<Rightarrow> number \<Rightarrow> InvoiceTotal" where
  "calculateInvoiceTotal subtotal discount' taxRate =
     (let discountAmount' = fmul (fdiv discount' (Num 100)) subtotal;
          discountedSubtotal = fsub subtotal discountAmount';
          taxAmount' = calculateTaxAmount discountedSubtotal taxRate;
          total' = fadd discountedSubtotal taxAmount'
      in \<lparr>discountAmount = discountAmount', taxAmount = taxAmount', total = total'\<rparr>)"

section \<open>Invoice record manager (hooks/useInvoices.ts)\<close>

subsection \<open>Strings\<close>

text \<open>
  \<open>Number.prototype.toString\<close> on a non-negative integer (a count, a year, an array
  index, a clock reading) gives its decimal digits.
\<close>

definition digit_char :: "nat \<Rightarrow> char" where
  "digit_char d = ''0123456789'' ! d"

fun toString :: "nat \<Rightarrow> string" where
  "toString n = (if n < 10 then [digit_char n] else toString (n div 10) @ [digit_char (n mod 10)])"

declare toString.simps [simp del]

text \<open>
  \<open>String.prototype.padStart(targetLength, padString)\<close>: a string that is long enough
  (or an empty pad string) is returned as it is; otherwise the pad string is repeated
  and cut to fill up the missing length.
\<close>

definition padStart :: "string \<Rightarrow> nat \<Rightarrow> string \<Rightarrow> string" where
  "padStart s targetLength padString =
     (if targetLength \<le> length s \<or> padString = [] then s
      else take (targetLength - length s)
             (concat (replicate (targetLength - length s) padString)) @ s)"




subsection \<open>Data model (types/database.ts and the schema)\<close>

datatype status = Draft | Sent | Paid | Overdue

fun status_str :: "status \<Rightarrow> string" where
  "status_str Draft = ''draft''"
| "status_str Sent = ''sent''"
| "status_str Paid = ''paid''"
| "status_str Overdue = ''overdue''"

text \<open>
  The records follow the \<open>Row\<close> types of the three tables; a column is prefixed where its
  name is taken already (\<open>id\<close>, \<open>name\<close>, \<open>discount\<close>, \<open>total\<close>, \<open>notes\<close>, ...). A nullable column is
  an option. The columns that the \<open>Insert\<close> type lets a caller omit and that the store fills
  with a default (\<open>status\<close>, \<open>discount\<close>, \<open>tax_rate\<close>, \<open>tax_amount\<close>, \<open>currency\<close>) are options
  too: for the demonstration users \<open>createInvoice\<close> copies the \<open>Insert\<close>-shaped object into
  the cached invoice as it is, so the cached invoice lacks what the caller left out.
\<close>

record clients_row =
  cl_id :: string
  cl_user_id :: string
  cl_name :: string
  cl_email :: string
  cl_company :: "string option"
  cl_address :: "string option"
  cl_phone :: "string option"
  cl_tax_id :: "string option"
  cl_created_at :: string
  cl_updated_at :: string

record invoice_items_row =
  it_id :: string
  invoice_id :: string
  it_name :: string
  it_description :: "string option"
  it_quantity :: number
  it_price :: number
  it_discount :: "number option"
  it_created_at :: string

record invoices_row =
  inv_id :: string
  user_id :: string
  client_id :: string
  invoice_number :: string
  status :: "status option"
  subtotal :: number
  inv_discount :: "number option"
  tax_rate :: "number option"
  tax_amount :: "number option"
  inv_total :: number
  currency :: "string option"
  issue_date :: string
  due_date :: string
  inv_notes :: "string option"
  terms :: "string option"
  payment_link :: "string option"
  created_at :: string
  updated_at :: string

text \<open>
  \<open>type Invoice = Row & { client; invoice_items }\<close>: a row of \<open>invoices\<close> with its client
  (null when the join finds none) and its items attached.
\<close>

record Invoice = invoices_row +
  client :: "clients_row option"
  invoice_items :: "invoice_items_row list"

text \<open>
  \<open>Omit<InvoiceInsert, 'user_id' | 'client_id' | 'invoice_number'>\<close>, the invoice fields
  handed to \<open>createInvoice\<close>, and \<open>Omit<InvoiceItemInsert, 'invoice_id'>\<close>, one item handed
  to it. \<open>None\<close> is an omitted (or null) property.
\<close>

record InvoiceData =
  d_id :: "string option"
  d_status :: "status option"
  d_subtotal :: number
  d_discount :: "number option"
  d_tax_rate :: "number option"
  d_tax_amount :: "number option"
  d_total :: number
  d_currency :: "string option"
  d_issue_date :: string
  d_due_date :: string
  d_notes :: "string option"
  d_terms :: "string option"
  d_payment_link :: "string option"
  d_created_at :: "string option"
  d_updated_at :: "string option"

record ItemData =
  i_id :: "string option"
  i_name :: string
  i_description :: "string option"
  i_quantity :: number
  i_price :: number
  i_discount :: "number option"
  i_created_at :: "string option"

text \<open>
  \<open>Omit<InvoiceUpdate, 'id' | 'user_id'>\<close>, the patch of \<open>updateInvoice\<close>: \<open>None\<close> is a
  property the patch does not have; for a nullable column \<open>Some None\<close> sets it to null.
\<close>

record InvoiceUpdate =
  u_client_id :: "string option"
  u_invoice_number :: "string option"
  u_status :: "status option"
  u_subtotal :: "number option"
  u_discount :: "number option"
  u_tax_rate :: "number option"
  u_tax_amount :: "number option"
  u_total :: "number option"
  u_currency :: "string option"
  u_issue_date :: "string option"
  u_due_date :: "string option"
  u_notes :: "string option option"
  u_terms :: "string option option"
  u_payment_link :: "string option option"
  u_created_at :: "string option"
  u_updated_at :: "string option"

definition no_update :: InvoiceUpdate where
  "no_update = \<lparr>u_client_id = None, u_invoice_number = None, u_status = None,
     u_subtotal = None, u_discount = None, u_tax_rate = None, u_tax_amount = None,
     u_total = None, u_currency = None, u_issue_date = None, u_due_date = None,
     u_notes = None, u_terms = None, u_payment_link = None, u_created_at = None,
     u_updated_at = None\<rparr>"

text \<open>The remote store: the three tables the hook reads and writes.\<close>

record database =
  invoices_tbl :: "invoices_row list"
  invoice_items_tbl :: "invoice_items_row list"
  clients_tbl :: "clients_row list"

text \<open>
  The state: the logged-in user of \<open>useAuth\<close> (its id; \<open>None\<close> when nobody is logged in),
  the hook's own \<open>invoices\<close> and \<open>loading\<close>, and the remote store.
\<close>

record state =
  user :: "string option"
  invoices :: "Invoice list"
  loading :: bool
  db :: database

text \<open>
  What a call takes from outside the program: the successive readings of the clock
  (milliseconds) with the two \<open>Date\<close> methods applied to them, the page's origin, and
  for the remote store the answer to each request of the call in turn (\<open>None\<close>: the
  request is carried out; \<open>Some msg\<close>: the store returns an error), its own clock and
  the identifiers it generates.
\<close>

record env =
  now :: "nat \<Rightarrow> nat"
  toISOString :: "nat \<Rightarrow> string"
  getFullYear :: "nat \<Rightarrow> nat"
  origin :: string
  reply :: "nat \<Rightarrow> string option"
  db_now :: string
  gen_random_uuid :: "nat \<Rightarrow> string"

text \<open>
  What an operation throws: \<open>Error('No user logged in')\<close>, or the error the store
  returned, passed on as it is.
\<close>

datatype error = NoUser | StoreError string

subsection \<open>The demonstration data\<close>

text \<open>
  \<open>mockInvoices\<close>, the list kept for the two demonstration users. The literal has no
  \<open>discount\<close>, \<open>currency\<close> and \<open>terms\<close>. Its client and its item are written against other
  column sets than the \<open>Row\<close> types: the client has no \<open>company\<close> and \<open>tax_id\<close>; the item
  has \<open>rate\<close> and \<open>amount\<close> and no \<open>name\<close>, \<open>price\<close> and \<open>discount\<close>. The model keeps the
  columns of the \<open>Row\<close> types, takes \<open>rate\<close> for the price and the empty string for the
  name that is not there.
\<close>

definition mockInvoices :: "Invoice list" where
  "mockInvoices =
     [\<lparr>inv_id = ''mock-inv-1'', user_id = ''admin@invoicepro.com'', client_id = ''mock-1'',
       invoice_number = ''INV-2024-0001'', status = Some Sent, subtotal = Num 2500,
       inv_discount = None, tax_rate = Some (Num (17 / 2)), tax_amount = Some (Num (425 / 2)),
       inv_total = Num (5425 / 2), currency = None, issue_date = ''2024-01-15'',
       due_date = ''2024-02-15'', inv_notes = Some ''Thank you for your business!'',
       terms = None, payment_link = None, created_at = ''2024-01-15T10:00:00Z'',
       updated_at = ''2024-01-15T10:00:00Z'',
       client = Some \<lparr>cl_id = ''mock-1'', cl_user_id = ''admin@invoicepro.com'',
         cl_name = ''Acme Corporation'', cl_email = ''contact@acme.com'', cl_company = None,
         cl_address = Some ''123 Business St, Suite 100'', cl_phone = Some ''+1 (555) 123-4567'',
         cl_tax_id = None, cl_created_at = ''2024-01-15T10:00:00Z'',
         cl_updated_at = ''2024-01-15T10:00:00Z''\<rparr>,
       invoice_items =
         [\<lparr>it_id = ''mock-item-1'', invoice_id = ''mock-inv-1'', it_name = [],
           it_description = Some ''Web Development Services'', it_quantity = Num 50,
           it_price = Num 50,
           it_discount = None, it_created_at = ''2024-01-15T10:00:00Z''\<rparr>]\<rparr>]"

definition isMockUser :: "state \<Rightarrow> bool" where
  "isMockUser st =
     (case user st of None \<Rightarrow> False
      | Some uid \<Rightarrow> uid = ''admin@invoicepro.com'' \<or> uid = ''demo@invoicepro.com'')"

subsection \<open>The remote store\<close>

text \<open>
  The requests the hook sends, with the effect the schema of the store gives them.
  Whether the store carries a request out is the store's own decision (constraints,
  policies, the network) and comes from \<open>reply\<close>; these functions say what a request
  that is carried out does. Every request is narrowed to the rows of the logged-in
  user: \<open>.eq('user_id', user?.id)\<close>, which no row meets when nobody is logged in.
\<close>

definition own :: "string option \<Rightarrow> 'a invoices_row_scheme \<Rightarrow> bool" where
  "own u r = (u = Some (user_id r))"

text \<open>\<open>select('*', { count: 'exact', head: true })\<close>: the number of the user's invoices.\<close>

definition count_invoices :: "string option \<Rightarrow> database \<Rightarrow> nat" where
  "count_invoices u d = length (filter (own u) (invoices_tbl d))"

definition patched :: "'a option \<Rightarrow> 'a \<Rightarrow> 'a" where
  "patched p old = (case p of None \<Rightarrow> old | Some v \<Rightarrow> v)"

definition patched_opt :: "'a option \<Rightarrow> 'a option \<Rightarrow> 'a option" where
  "patched_opt p old = (case p of None \<Rightarrow> old | Some v \<Rightarrow> Some v)"

text \<open>Overwriting a row with the properties a patch has: \<open>{ ...invoice, ...invoiceData }\<close>.\<close>

definition apply_update :: "InvoiceUpdate \<Rightarrow> 'a invoices_row_scheme \<Rightarrow> 'a invoices_row_scheme" where
  "apply_update p r =
     r\<lparr>client_id := patched (u_client_id p) (client_id r),
       invoice_number := patched (u_invoice_number p) (invoice_number r),
       status := patched_opt (u_status p) (status r),
       subtotal := patched (u_subtotal p) (subtotal r),
       inv_discount := patched_opt (u_discount p) (inv_discount r),
       tax_rate := patched_opt (u_tax_rate p) (tax_rate r),
       tax_amount := patched_opt (u_tax_amount p) (tax_amount r),
       inv_total := patched (u_total p) (inv_total r),
       currency := patched_opt (u_currency p) (currency r),
       issue_date := patched (u_issue_date p) (issue_date r),
       due_date := patched (u_due_date p) (due_date r),
       inv_notes := patched (u_notes p) (inv_notes r),
       terms := patched (u_terms p) (terms r),
       payment_link := patched (u_payment_link p) (payment_link r),
       created_at := patched (u_created_at p) (created_at r),
       updated_at := patched (u_updated_at p) (updated_at r)\<rparr>"

text \<open>
  \<open>update(invoiceData).eq('id', id).eq('user_id', user?.id)\<close>; the trigger
  \<open>update_invoices_updated_at\<close> then stamps each updated row with the store's \<open>now()\<close>.
\<close>

definition update_invoices :: "string \<Rightarrow> string option \<Rightarrow> InvoiceUpdate \<Rightarrow> string \<Rightarrow> database \<Rightarrow> database" where
  "update_invoices id' u p t d =
     d\<lparr>invoices_tbl :=
         map (\<lambda>r. if inv_id r = id' \<and> own u r then (apply_update p r)\<lparr>updated_at := t\<rparr> else r)
           (invoices_tbl d)\<rparr>"

text \<open>
  \<open>delete().eq('id', id).eq('user_id', user?.id)\<close>. The items reference their invoice
  \<open>ON DELETE CASCADE\<close>: when an invoice row goes, the item rows that reference it go too.
\<close>

definition delete_invoices :: "string \<Rightarrow> string option \<Rightarrow> database \<Rightarrow> database" where
  "delete_invoices id' u d =
     (let deleted = filter (\<lambda>r. inv_id r = id' \<and> own u r) (invoices_tbl d)
      in d\<lparr>invoices_tbl := filter (\<lambda>r. \<not> (inv_id r = id' \<and> own u r)) (invoices_tbl d),
           invoice_items_tbl :=
             filter (\<lambda>it. invoice_id it \<notin> inv_id ` set deleted) (invoice_items_tbl d)\<rparr>)"

text \<open>
  \<open>select('*, client:clients(*), invoice_items(*)').eq('user_id', user.id)
  .order('created_at', { ascending: false })\<close>: the user's invoices, newest first, each
  with its client (as far as the user may read it) and its items.
\<close>

definition select_invoices :: "string \<Rightarrow> database \<Rightarrow> Invoice list" where
  "select_invoices uid d =
     map (\<lambda>r. invoices_row.extend r
            (Invoice.fields
               (find (\<lambda>c. cl_id c = client_id r \<and> cl_user_id c = uid) (clients_tbl d))
               (filter (\<lambda>it. invoice_id it = inv_id r) (invoice_items_tbl d))))
       (rev (sort_key created_at (filter (own (Some uid)) (invoices_tbl d))))"

text \<open>
  \<open>insert({...}).select().single()\<close> on \<open>invoices\<close>: the new row, with the defaults of the
  schema for what the caller left out.
\<close>

definition new_invoices_row :: "env \<Rightarrow> string \<Rightarrow> string \<Rightarrow> string \<Rightarrow> InvoiceData \<Rightarrow> invoices_row" where
  "new_invoices_row e uid clientId invoiceNumber invoiceData =
     \<lparr>inv_id = patched (d_id invoiceData) (gen_random_uuid e 0), user_id = uid,
      client_id = clientId, invoice_number = invoiceNumber,
      status = Some (patched (d_status invoiceData) Draft),
      subtotal = d_subtotal invoiceData,
      inv_discount = Some (patched (d_discount invoiceData) (Num 0)),
      tax_rate = Some (patched (d_tax_rate invoiceData) (Num 0)),
      tax_amount = Some (patched (d_tax_amount invoiceData) (Num 0)),
      inv_total = d_total invoiceData,
      currency = Some (patched (d_currency invoiceData) ''USD''),
      issue_date = d_issue_date invoiceData, due_date = d_due_date invoiceData,
      inv_notes = d_notes invoiceData, terms = d_terms invoiceData,
      payment_link = d_payment_link invoiceData,
      created_at = patched (d_created_at invoiceData) (db_now e),
      updated_at = patched (d_updated_at invoiceData) (db_now e)\<rparr>"

definition new_invoice_items_rows :: "env \<Rightarrow> string \<Rightarrow> ItemData list \<Rightarrow> invoice_items_row list" where
  "new_invoice_items_rows e invoiceId items =
     map (\<lambda>(index, item).
            \<lparr>it_id = patched (i_id item) (gen_random_uuid e (Suc index)), invoice_id = invoiceId,
             it_name = i_name item, it_description = i_description item,
             it_quantity = i_quantity item, it_price = i_price item,
             it_discount = Some (patched (i_discount item) (Num 0)),
             it_created_at = patched (i_created_at item) (db_now e)\<rparr>)
       (enumerate 0 items)"

subsection \<open>The operations of the hook\<close>

text \<open>
  An operation takes the state and gives its outcome together with the state it leaves:
  \<open>Inl\<close> is an error thrown to the caller. The outcome and the state are separate
  because \<open>createInvoice\<close> can throw after it has written.
\<close>

text \<open>
  \<open>fetchInvoices\<close>, with \<open>k\<close> the place of its request among the requests of the call.
  An error on the way is caught and logged: the list stays as it was.
\<close>

definition fetchInvoices :: "env \<Rightarrow> nat \<Rightarrow> state \<Rightarrow> state" where
  "fetchInvoices e k st =
     (if isMockUser st then
        st\<lparr>invoices := filter (\<lambda>invoice. Some (user_id invoice) = user st) mockInvoices,
            loading := False\<rparr>
      else (case user st of
              None \<Rightarrow> st\<lparr>loading := False\<rparr>
            | Some uid \<Rightarrow>
                (case reply e k of
                   Some msg \<Rightarrow> st\<lparr>loading := False\<rparr>
                 | None \<Rightarrow> st\<lparr>invoices := select_invoices uid (db st), loading := False\<rparr>)))"

definition invoice_number_of :: "env \<Rightarrow> nat \<Rightarrow> string" where
  "invoice_number_of e invoiceCount =
     ''INV-'' @ toString (getFullYear e (now e 0)) @ ''-'' @ padStart (toString invoiceCount) 4 ''0''"

definition generateInvoiceNumber :: "env \<Rightarrow> state \<Rightarrow> string" where
  "generateInvoiceNumber e st =
     (if isMockUser st then
        (let invoiceCount = length (invoices st) + 1 in invoice_number_of e invoiceCount)
      else
        (let count = (case reply e 0 of
                        None \<Rightarrow> Some (count_invoices (user st) (db st))
                      | Some msg \<Rightarrow> None);
             invoiceCount = (case count of None \<Rightarrow> 0 | Some c \<Rightarrow> c) + 1
         in invoice_number_of e invoiceCount))"

text \<open>
  The invoice \<open>createInvoice\<close> builds for a demonstration user. The clock is read anew
  for each \<open>Date.now()\<close> and \<open>new Date()\<close>, in the order of the object literal: reading 0
  is the one of \<open>generateInvoiceNumber\<close>, readings 1 to 3 make the id and the two stamps
  of the invoice, and item \<open>index\<close> takes four more (its id, its \<open>invoice_id\<close>, and two
  stamps, of which the \<open>Row\<close> type has one).
\<close>

definition mock_invoice_items :: "env \<Rightarrow> ItemData list \<Rightarrow> invoice_items_row list" where
  "mock_invoice_items e items =
     map (\<lambda>(index, item).
            \<lparr>it_id = ''mock-item-'' @ toString (now e (4 + 4 * index)) @ ''-'' @ toString index,
             invoice_id = ''mock-inv-'' @ toString (now e (5 + 4 * index)),
             it_name = i_name item, it_description = i_description item,
             it_quantity = i_quantity item, it_price = i_price item,
             it_discount = i_discount item,
             it_created_at = toISOString e (now e (6 + 4 * index))\<rparr>)
       (enumerate 0 items)"

definition mock_invoice :: "env \<Rightarrow> string \<Rightarrow> string \<Rightarrow> string \<Rightarrow> ItemData list \<Rightarrow> InvoiceData \<Rightarrow> Invoice" where
  "mock_invoice e uid clientId invoiceNumber items invoiceData =
     \<lparr>inv_id = ''mock-inv-'' @ toString (now e 1), user_id = uid, client_id = clientId,
      invoice_number = invoiceNumber, status = d_status invoiceData,
      subtotal = d_subtotal invoiceData, inv_discount = d_discount invoiceData,
      tax_rate = d_tax_rate invoiceData, tax_amount = d_tax_amount invoiceData,
      inv_total = d_total invoiceData, currency = d_currency invoiceData,
      issue_date = d_issue_date invoiceData, due_date = d_due_date invoiceData,
      inv_notes = d_notes invoiceData, terms = d_terms invoiceData,
      payment_link = d_payment_link invoiceData,
      created_at = toISOString e (now e 2), updated_at = toISOString e (now e 3),
      client = client (mockInvoices ! 0),
      invoice_items = mock_invoice_items e items\<rparr>"

text \<open>
  \<open>createInvoice\<close>. For a user of the store the requests are: 0 the count of
  \<open>generateInvoiceNumber\<close>, 1 the insert of the invoice, 2 the insert of the items, 3 the
  fetch. The value returned there is looked up in the \<open>invoices\<close> the call started with.
\<close>

definition createInvoice :: "env \<Rightarrow> string \<Rightarrow> ItemData list \<Rightarrow> InvoiceData \<Rightarrow> state \<Rightarrow> (error + Invoice option) \<times> state" where
  "createInvoice e clientId items invoiceData st =
     (case user st of
        None \<Rightarrow> (Inl NoUser, st)
      | Some uid \<Rightarrow>
          (let invoiceNumber = generateInvoiceNumber e st in
           if isMockUser st then
             (let newInvoice = mock_invoice e uid clientId invoiceNumber items invoiceData
              in (Inr (Some newInvoice), st\<lparr>invoices := newInvoice # invoices st\<rparr>))
           else
             (case reply e 1 of
                Some invoiceError \<Rightarrow> (Inl (StoreError invoiceError), st)
              | None \<Rightarrow>
                  (let invoice = new_invoices_row e uid clientId invoiceNumber invoiceData;
                       st1 = st\<lparr>db := (db st)\<lparr>invoices_tbl := invoices_tbl (db st) @ [invoice]\<rparr>\<rparr>
                   in case reply e 2 of
                        Some itemsError \<Rightarrow> (Inl (StoreError itemsError), st1)
                      | None \<Rightarrow>
                          (let st2 = st1\<lparr>db := (db st1)\<lparr>invoice_items_tbl :=
                                       invoice_items_tbl (db st1) @
                                       new_invoice_items_rows e (inv_id invoice) items\<rparr>\<rparr>
                           in (Inr (find (\<lambda>inv. inv_id inv = inv_id invoice) (invoices st)),
                               fetchInvoices e 3 st2))))))"

text \<open>
  \<open>updateInvoice\<close>. For a demonstration user the list is mapped; each invoice with the
  id is overwritten and stamped with a reading of the clock of its own (\<open>k\<close> counts the
  readings so far).
\<close>

fun update_mock :: "env \<Rightarrow> nat \<Rightarrow> string \<Rightarrow> InvoiceUpdate \<Rightarrow> Invoice list \<Rightarrow> Invoice list" where
  "update_mock e k id' invoiceData [] = []"
| "update_mock e k id' invoiceData (invoice # prev) =
     (if inv_id invoice = id'
      then (apply_update invoiceData invoice)\<lparr>updated_at := toISOString e (now e k)\<rparr> #
           update_mock e (Suc k) id' invoiceData prev
      else invoice # update_mock e k id' invoiceData prev)"

definition updateInvoice :: "env \<Rightarrow> string \<Rightarrow> InvoiceUpdate \<Rightarrow> state \<Rightarrow> (error + unit) \<times> state" where
  "updateInvoice e id' invoiceData st =
     (if isMockUser st then
        (Inr (), st\<lparr>invoices := update_mock e 0 id' invoiceData (invoices st)\<rparr>)
      else
        (case reply e 0 of
           Some msg \<Rightarrow> (Inl (StoreError msg), st)
         | None \<Rightarrow>
             (Inr (), fetchInvoices e 1
                        (st\<lparr>db := update_invoices id' (user st) invoiceData (db_now e) (db st)\<rparr>))))"

definition deleteInvoice :: "env \<Rightarrow> string \<Rightarrow> state \<Rightarrow> (error + unit) \<times> state" where
  "deleteInvoice e id' st =
     (if isMockUser st then
        (Inr (), st\<lparr>invoices := filter (\<lambda>invoice. inv_id invoice \<noteq> id') (invoices st)\<rparr>)
      else
        (case reply e 0 of
           Some msg \<Rightarrow> (Inl (StoreError msg), st)
         | None \<Rightarrow>
             (Inr (), st\<lparr>db := delete_invoices id' (user st) (db st),
                         invoices := filter (\<lambda>invoice. inv_id invoice \<noteq> id') (invoices st)\<rparr>)))"

definition getInvoice :: "string \<Rightarrow> state \<Rightarrow> Invoice option" where
  "getInvoice id' st = find (\<lambda>invoice. inv_id invoice = id') (invoices st)"

text \<open>\<open>invoice.status === status\<close> compares the stored status with the string given.\<close>

definition getInvoicesByStatus :: "string \<Rightarrow> state \<Rightarrow> Invoice list" where
  "getInvoicesByStatus s st =
     filter (\<lambda>invoice. case status invoice of None \<Rightarrow> False | Some v \<Rightarrow> status_str v = s)
       (invoices st)"

definition markAsPaid :: "env \<Rightarrow> string \<Rightarrow> state \<Rightarrow> (error + unit) \<times> state" where
  "markAsPaid e id' st = updateInvoice e id' (no_update\<lparr>u_status := Some Paid\<rparr>) st"

definition sendInvoice :: "env \<Rightarrow> string \<Rightarrow> state \<Rightarrow> (error + unit) \<times> state" where
  "sendInvoice e id' st =
     (let paymentLink = origin e @ ''/invoice/'' @ id'
      in updateInvoice e id'
           (no_update\<lparr>u_status := Some Sent, u_payment_link := Some (Some paymentLink)\<rparr>) st)"

subsection \<open>Sequences of status operations\<close>

datatype operation =
  MarkAsPaid string
| SendInvoice string
| UpdateInvoice string InvoiceUpdate

fun perform :: "env \<Rightarrow> operation \<Rightarrow> state \<Rightarrow> (error + unit) \<times> state" where
  "perform e (MarkAsPaid id') st = markAsPaid e id' st"
| "perform e (SendInvoice id') st = sendInvoice e id' st"
| "perform e (UpdateInvoice id' invoiceData) st = updateInvoice e id' invoiceData st"

text \<open>
  A sequence of calls, each in its own environment. A call that throws leaves its
  state behind like any other, and the next call goes on from there.
\<close>

fun run :: "(env \<times> operation) list \<Rightarrow> state \<Rightarrow> state" where
  "run [] st = st"
| "run ((e, op) # rest) st = run rest (snd (perform e op st))"

fun sets_draft :: "operation \<Rightarrow> bool" where
  "sets_draft (UpdateInvoice id' invoiceData) = (u_status invoiceData = Some Draft)"
| "sets_draft (MarkAsPaid id') = False"
| "sets_draft (SendInvoice id') = False"

text \<open>
  How an invoice stands after some calls, against how it stood before: it is the same
  invoice, and it has not gone from another status to draft.
\<close>

definition not_back_to_draft :: "'a invoices_row_scheme \<Rightarrow> 'a invoices_row_scheme \<Rightarrow> bool" where
  "not_back_to_draft a b =
     (inv_id b = inv_id a \<and> (status a \<noteq> Some Draft \<longrightarrow> status b \<noteq> Some Draft))"

text \<open>The last segment of a path: what follows its last slash.\<close>

definition final_segment :: "string \<Rightarrow> string" where
  "final_segment url = rev (takeWhile (\<lambda>c. c \<noteq> CHR ''/'') (rev url))"

text \<open>
  How an invoice stands after \<open>sendInvoice\<close>, against how it stood before: its status is
  sent, its payment link is the link given, its stamp \<open>updated_at\<close> is whatever it now is,
  and nothing else has changed.
\<close>

definition sent_from :: "string \<Rightarrow> 'a invoices_row_scheme \<Rightarrow> 'a invoices_row_scheme \<Rightarrow> bool" where
  "sent_from link a b =
     (b = a\<lparr>status := Some Sent, payment_link := Some link, updated_at := updated_at b\<rparr>)"

text \<open>
  Every invoice with the id that the state holds for its user is paid: in the list for
  a demonstration user, among the user's rows of the store otherwise.
\<close>

definition paid_in :: "string \<Rightarrow> state \<Rightarrow> bool" where
  "paid_in id' st =
     (if isMockUser st
      then list_all (\<lambda>invoice. inv_id invoice = id' \<longrightarrow> status invoice = Some Paid) (invoices st)
      else list_all (\<lambda>r. inv_id r = id' \<and> own (user st) r \<longrightarrow> status r = Some Paid)
             (invoices_tbl (db st)))"

text \<open>
  A list of invoices after a call, against the list before it: the invoices that the
  call hits have at most another stamp \<open>updated_at\<close>, the others are as they were.
\<close>

definition restamped :: "'a invoices_row_scheme \<Rightarrow> 'a invoices_row_scheme \<Rightarrow> bool" where
  "restamped a b = (b = a\<lparr>updated_at := updated_at b\<rparr>)"

definition only_restamped ::
  "('a invoices_row_scheme \<Rightarrow> bool) \<Rightarrow> 'a invoices_row_scheme list \<Rightarrow> 'a invoices_row_scheme list \<Rightarrow> bool" where
  "only_restamped hit xs ys = list_all2 (\<lambda>a b. if hit a then restamped a b else b = a) xs ys"

text \<open>
  The items attached to the invoices of the list reference the invoice they are
  attached to, as the join of a fetch delivers them.
\<close>

definition items_attached :: "state \<Rightarrow> bool" where
  "items_attached st =
     list_all (\<lambda>invoice. list_all (\<lambda>it. invoice_id it = inv_id invoice) (invoice_items invoice))
       (invoices st)"

text \<open>The id is one of an invoice the state holds for its user.\<close>

definition holds_invoice :: "string \<Rightarrow> state \<Rightarrow> bool" where
  "holds_invoice id' st =
     (if isMockUser st then list_ex (\<lambda>invoice. inv_id invoice = id') (invoices st)
      else list_ex (\<lambda>r. inv_id r = id' \<and> own (user st) r) (invoices_tbl (db st)))"

section \<open>The invoice form (pages/CreateInvoice.tsx)\<close>

record FormItem =
  f_name :: string
  f_description :: string
  f_quantity :: number
  f_price :: number
  f_discount :: number

record InvoiceFormData =
  f_client_id :: string
  f_issue_date :: string
  f_due_date :: string
  f_items :: "FormItem list"
  f_invoice_discount :: number
  f_tax_rate :: number
  f_notes :: string
  f_terms :: string

text \<open>
  \<open>invoiceSchema\<close>: a required string is not empty, a number lies in its range (which
  \<open>NaN\<close> never does), and the array of items has at least one element.
\<close>

definition item_schema :: "FormItem \<Rightarrow> bool" where
  "item_schema item =
     (f_name item \<noteq> [] \<and> fle (Num 1) (f_quantity item) \<and> fle (Num 0) (f_price item) \<and>
      fle (Num 0) (f_discount item) \<and> fle (f_discount item) (Num 100))"

definition invoiceSchema :: "InvoiceFormData \<Rightarrow> bool" where
  "invoiceSchema data =
     (f_client_id data \<noteq> [] \<and> f_issue_date data \<noteq> [] \<and> f_due_date data \<noteq> [] \<and>
      list_all item_schema (f_items data) \<and> 1 \<le> length (f_items data) \<and>
      fle (Num 0) (f_invoice_discount data) \<and> fle (f_invoice_discount data) (Num 100) \<and>
      fle (Num 0) (f_tax_rate data) \<and> fle (f_tax_rate data) (Num 100))"

text \<open>
  \<open>calculations\<close>, the memo of the page: the subtotal is folded over the form's items
  with the formula written out there, each number read with \<open>|| 0\<close>; the rest comes from
  \<open>calculateInvoiceTotal\<close>.
\<close>

definition form_subtotal :: "FormItem list \<Rightarrow> number" where
  "form_subtotal items =
     foldl (\<lambda>sum item.
              (let itemTotal = fmul (or_0 (f_quantity item)) (or_0 (f_price item));
                   itemDiscount = fmul (fdiv (or_0 (f_discount item)) (Num 100)) itemTotal
               in fadd sum (fsub itemTotal itemDiscount))) (Num 0) items"

definition calculations :: "InvoiceFormData \<Rightarrow> number \<times> InvoiceTotal" where
  "calculations data =
     (let subtotal' = form_subtotal (f_items data)
      in (subtotal',
          calculateInvoiceTotal subtotal' (or_0 (f_invoice_discount data)) (or_0 (f_tax_rate data))))"

definition form_item_data :: "FormItem \<Rightarrow> ItemData" where
  "form_item_data item =
     \<lparr>i_id = None, i_name = f_name item, i_description = Some (f_description item),
      i_quantity = f_quantity item, i_price = f_price item, i_discount = Some (f_discount item),
      i_created_at = None\<rparr>"

text \<open>
  \<open>onSubmit\<close> builds the invoice fields from the form and the memo and calls
  \<open>createInvoice\<close>; an error is caught and shown, so what is left is the state.
\<close>

definition onSubmit :: "env \<Rightarrow> InvoiceFormData \<Rightarrow> status \<Rightarrow> state \<Rightarrow> state" where
  "onSubmit e data status' st =
     (let invoiceData =
            \<lparr>d_id = None, d_status = Some status', d_subtotal = fst (calculations data),
             d_discount = Some (discountAmount (snd (calculations data))),
             d_tax_rate = Some (f_tax_rate data),
             d_tax_amount = Some (taxAmount (snd (calculations data))),
             d_total = total (snd (calculations data)), d_currency = Some ''USD'',
             d_issue_date = f_issue_date data, d_due_date = f_due_date data,
             d_notes = Some (f_notes data), d_terms = Some (f_terms data),
             d_payment_link = None, d_created_at = None, d_updated_at = None\<rparr>
      in snd (createInvoice e (f_client_id data) (map form_item_data (f_items data)) invoiceData st))"

text \<open>\<open>handleSubmit\<close> of the form library calls the handler when the schema holds.\<close>

definition handleSubmit :: "env \<Rightarrow> InvoiceFormData \<Rightarrow> status \<Rightarrow> state \<Rightarrow> state" where
  "handleSubmit e data status' st = (if invoiceSchema data then onSubmit e data status' st else st)"

section \<open>Sample data\<close>

text \<open>Two environments that differ in the time, and states to run the operations on.\<close>

definition env1 :: env where
  "env1 = \<lparr>now = (\<lambda>k. 1000 + k), toISOString = (\<lambda>t. ''T+'' @ toString t),
     getFullYear = (\<lambda>t. 2026), origin = ''https://invoicepro.app'', reply = (\<lambda>k. None),
     db_now = ''2026-11-03T10:00:00Z'', gen_random_uuid = (\<lambda>k. ''uuid-'' @ toString k)\<rparr>"

definition env2 :: env where
  "env2 = env1\<lparr>now := (\<lambda>k. 2000 + k), db_now := ''2026-11-03T10:00:05Z''\<rparr>"

definition empty_db :: database where
  "empty_db = \<lparr>invoices_tbl = [], invoice_items_tbl = [], clients_tbl = []\<rparr>"

definition demo_state :: state where
  "demo_state = \<lparr>user = Some ''admin@invoicepro.com'', invoices = mockInvoices, loading = False,
     db = empty_db\<rparr>"

definition sample_data :: InvoiceData where
  "sample_data = \<lparr>d_id = None, d_status = Some Draft, d_subtotal = Num 180,
     d_discount = Some (Num 30), d_tax_rate = Some (Num 10), d_tax_amount = Some (Num 15),
     d_total = Num 165,
     d_currency = Some ''USD'', d_issue_date = ''2026-11-03'', d_due_date = ''2026-12-03'',
     d_notes = None, d_terms = None, d_payment_link = None, d_created_at = None,
     d_updated_at = None\<rparr>"

definition sample_item :: ItemData where
  "sample_item = \<lparr>i_id = None, i_name = ''Design'', i_description = None,
     i_quantity = Num 2, i_price = Num 100, i_discount = Some (Num 10), i_created_at = None\<rparr>"

text \<open>
  A user of the store with one paid invoice there, its two items, and the list as a
  fetch has left it.
\<close>

definition store_row :: invoices_row where
  "store_row = \<lparr>inv_id = ''inv-a'', user_id = ''u-1'', client_id = ''c-1'',
     invoice_number = ''INV-2026-0001'', status = Some Paid, subtotal = Num 180,
     inv_discount = Some (Num 30), tax_rate = Some (Num 10), tax_amount = Some (Num 15),
     inv_total = Num 165, currency = Some ''USD'', issue_date = ''2026-10-01'',
     due_date = ''2026-10-31'', inv_notes = None, terms = None, payment_link = None,
     created_at = ''2026-10-01T09:00:00Z'', updated_at = ''2026-10-01T09:00:00Z''\<rparr>"

definition store_items :: "invoice_items_row list" where
  "store_items =
     [\<lparr>it_id = ''it-1'', invoice_id = ''inv-a'', it_name = ''Design'', it_description = None,
       it_quantity = Num 2, it_price = Num 100, it_discount = Some (Num 10),
       it_created_at = ''2026-10-01T09:00:00Z''\<rparr>,
      \<lparr>it_id = ''it-2'', invoice_id = ''inv-b'', it_name = ''Hosting'', it_description = None,
       it_quantity = Num 1, it_price = Num 20, it_discount = Some (Num 0),
       it_created_at = ''2026-10-02T09:00:00Z''\<rparr>]"

definition store_db :: database where
  "store_db = \<lparr>invoices_tbl = [store_row, store_row\<lparr>inv_id := ''inv-b'', status := Some Draft\<rparr>],
     invoice_items_tbl = store_items, clients_tbl = []\<rparr>"

definition store_state :: state where
  "store_state = \<lparr>user = Some ''u-1'', invoices = select_invoices ''u-1'' store_db,
     loading = False, db = store_db\<rparr>"








text \<open>A form filled in but for its items.\<close>

definition empty_form :: InvoiceFormData where
  "empty_form = \<lparr>f_client_id = ''mock-1'', f_issue_date = ''2026-11-03'',
     f_due_date = ''2026-12-03'', f_items = [], f_invoice_discount = Num 0,
     f_tax_rate = Num 10,
     f_notes = [], f_terms = ''Payment is due within 30 days of invoice date.''\<rparr>"

text \<open>
  Items for the calculator. The prices 0.1, 0.2 and 0.3 are the doubles that these
  literals denote; \<open>bulk\<close> has the price \<open>2 ^ 1023\<close>, about 8.99e307.
\<close>

definition tenth :: InvoiceItem where
  "tenth = \<lparr>ident = ''1'', name = ''Pen'', description = None, quantity = Num 1,
     price = Num (3602879701896397 / 36028797018963968), discount = None\<rparr>"

definition fifth :: InvoiceItem where
  "fifth = \<lparr>ident = ''4'', name = ''Pencil'', description = None, quantity = Num 1,
     price = Num (3602879701896397 / 18014398509481984), discount = None\<rparr>"

definition three_tenths :: InvoiceItem where
  "three_tenths = \<lparr>ident = ''5'', name = ''Ruler'', description = None, quantity = Num 1,
     price = Num (5404319552844595 / 18014398509481984), discount = None\<rparr>"

definition gadget :: InvoiceItem where
  "gadget = \<lparr>ident = ''2'', name = ''Gadget'', description = None, quantity = Num 2,
     price = Num 100, discount = Some (Num 10)\<rparr>"

definition gizmo :: InvoiceItem where
  "gizmo = \<lparr>ident = ''6'', name = ''Gizmo'', description = None, quantity = Num 1,
     price = Num 20, discount = None\<rparr>"

definition bulk :: InvoiceItem where
  "bulk = \<lparr>ident = ''3'', name = ''Bulk'', description = None, quantity = Num 2,
     price = Num (2 ^ 1023), discount = Some (Num 10)\<rparr>"

section \<open>Properties of the numbers\<close>

subsection \<open>Powers of two\<close>

lemma pow2_pos: "0 < pow2 k"
  by (simp add: pow2_def)

lemma pow2_add: "pow2 (a + b) = pow2 a * pow2 b"
  by (simp add: pow2_def power_int_add)

lemma pow2_mono: "a \<le> b \<Longrightarrow> pow2 a \<le> pow2 b"
  by (simp add: pow2_def power_int_increasing)

lemma pow2_less: "a < b \<Longrightarrow> pow2 a < pow2 b"
  by (simp add: pow2_def power_int_strict_increasing)

lemma pow2_less_cancel: "pow2 a < pow2 b \<Longrightarrow> a < b"
  using pow2_mono [of b a] by (cases "a < b") auto

lemma pow2_nonneg_int: "0 \<le> k \<Longrightarrow> pow2 k = of_int (2 ^ nat k)"
  by (simp add: pow2_def power_int_nonneg_exp)

lemma pow2_0: "pow2 0 = 1"
  by (simp add: pow2_def)

lemma pow2_53: "pow2 53 = 2 ^ 53"
  by (simp add: pow2_def)

lemma pow2_abs: "\<bar>pow2 k\<bar> = pow2 k"
  using pow2_pos [of k] by simp

lemma pow2_succ: "pow2 (e + 1) = 2 ^ 53 * pow2 (e - 52)"
proof -
  have "e + 1 = 53 + (e - 52)" by simp
  then have "pow2 (e + 1) = pow2 (53 + (e - 52))" by (rule arg_cong)
  also have "\<dots> = pow2 53 * pow2 (e - 52)" by (rule pow2_add)
  finally show ?thesis by (simp only: pow2_53)
qed

subsection \<open>The exponent\<close>

lemma bsearch_range: "lo < hi \<Longrightarrow> lo \<le> bsearch lo hi x \<and> bsearch lo hi x < hi"
proof (induction lo hi x rule: bsearch.induct)
  case (1 lo hi x)
  show ?case
  proof (cases "hi \<le> lo + 1")
    case True
    with 1(3) show ?thesis by (simp add: bsearch.simps [of lo hi])
  next
    case False
    let ?mid = "(lo + hi) div 2"
    from False have m: "lo < ?mid" "?mid < hi" by auto
    show ?thesis
    proof (cases "pow2 ?mid \<le> x")
      case True
      with 1(1) [OF False refl True] m False show ?thesis
        by (simp add: bsearch.simps [of lo hi] Let_def)
    next
      case no: False
      with 1(2) [OF False refl no] m False show ?thesis
        by (simp add: bsearch.simps [of lo hi] Let_def)
    qed
  qed
qed

lemma bsearch_lower: "lo < hi \<Longrightarrow> bsearch lo hi x = lo \<or> pow2 (bsearch lo hi x) \<le> x"
proof (induction lo hi x rule: bsearch.induct)
  case (1 lo hi x)
  show ?case
  proof (cases "hi \<le> lo + 1")
    case True
    then show ?thesis by (simp add: bsearch.simps [of lo hi])
  next
    case False
    let ?mid = "(lo + hi) div 2"
    from False have m: "lo < ?mid" "?mid < hi" by auto
    show ?thesis
    proof (cases "pow2 ?mid \<le> x")
      case True
      with 1(1) [OF False refl True] m False show ?thesis
        by (auto simp: bsearch.simps [of lo hi] Let_def)
    next
      case no: False
      with 1(2) [OF False refl no] m False show ?thesis
        by (simp add: bsearch.simps [of lo hi] Let_def)
    qed
  qed
qed

lemma bsearch_upper: "lo < hi \<Longrightarrow> bsearch lo hi x + 1 = hi \<or> x < pow2 (bsearch lo hi x + 1)"
proof (induction lo hi x rule: bsearch.induct)
  case (1 lo hi x)
  show ?case
  proof (cases "hi \<le> lo + 1")
    case True
    with 1(3) show ?thesis by (simp add: bsearch.simps [of lo hi])
  next
    case False
    let ?mid = "(lo + hi) div 2"
    from False have m: "lo < ?mid" "?mid < hi" by auto
    show ?thesis
    proof (cases "pow2 ?mid \<le> x")
      case True
      with 1(1) [OF False refl True] m False show ?thesis
        by (simp add: bsearch.simps [of lo hi] Let_def)
    next
      case no: False
      with 1(2) [OF False refl no] m False show ?thesis
        by (auto simp: bsearch.simps [of lo hi] Let_def)
    qed
  qed
qed

lemma exponent_range: "- 1022 \<le> exponent x" "exponent x \<le> 1023"
  using bsearch_range [of "- 1022" 1024 x] by (simp_all add: exponent_def)

lemma exponent_lower: "exponent x = - 1022 \<or> pow2 (exponent x) \<le> x"
  using bsearch_lower [of "- 1022" 1024 x] by (simp add: exponent_def)

lemma exponent_upper: "exponent x = 1023 \<or> x < pow2 (exponent x + 1)"
  using bsearch_upper [of "- 1022" 1024 x] by (simp add: exponent_def)

lemma exponent_mono:
  assumes "x \<le> y"
  shows "exponent x \<le> exponent y"
proof (rule ccontr)
  assume "\<not> exponent x \<le> exponent y"
  then have lt: "exponent y < exponent x" by simp
  with exponent_range(1) [of y] exponent_lower [of x] have "pow2 (exponent x) \<le> x" by auto
  moreover from lt exponent_range(2) [of x] exponent_upper [of y]
  have "y < pow2 (exponent y + 1)" by auto
  moreover from lt have "pow2 (exponent y + 1) \<le> pow2 (exponent x)" by (simp add: pow2_mono)
  ultimately show False using assms by simp
qed

subsection \<open>Rounding to an integer, ties to even\<close>

lemma round_even_cases: "round_even y = \<lfloor>y\<rfloor> \<or> round_even y = \<lfloor>y\<rfloor> + 1"
  by (simp add: round_even_def Let_def)

lemma round_even_error: "\<bar>of_int (round_even y) - y\<bar> \<le> 1 / 2"
proof -
  have "of_int \<lfloor>y\<rfloor> \<le> y" "y < of_int \<lfloor>y\<rfloor> + 1" by linarith+
  then show ?thesis
    by (auto simp: round_even_def Let_def abs_le_iff)
qed

lemma round_even_of_int: "round_even (of_int n) = n"
  by (simp add: round_even_def)

lemma round_even_le: "y \<le> of_int n \<Longrightarrow> round_even y \<le> n"
proof -
  assume le: "y \<le> of_int n"
  show ?thesis
  proof (cases "y = of_int n")
    case True
    then show ?thesis by (simp add: round_even_of_int)
  next
    case False
    with le have "y < of_int n" by simp
    then have "\<lfloor>y\<rfloor> < n" by (simp add: floor_less_iff)
    with round_even_cases [of y] show ?thesis by auto
  qed
qed

lemma round_even_ge: "of_int n \<le> y \<Longrightarrow> n \<le> round_even y"
proof -
  assume "of_int n \<le> y"
  then have "n \<le> \<lfloor>y\<rfloor>" by (simp add: le_floor_iff)
  with round_even_cases [of y] show ?thesis by auto
qed

subsection \<open>Rounding to a double\<close>

lemma round_double_0: "round_double 0 = Num 0"
  by (simp add: round_double_def)

lemma round_double_cases:
  assumes "x \<noteq> 0"
  obtains (pos) "round_double x = PosInfinity"
      "pow2 1024 \<le> of_int (round_even (x / pow2 (exponent \<bar>x\<bar> - 52))) * pow2 (exponent \<bar>x\<bar> - 52)"
    | (neg) "round_double x = NegInfinity"
      "of_int (round_even (x / pow2 (exponent \<bar>x\<bar> - 52))) * pow2 (exponent \<bar>x\<bar> - 52) \<le> - pow2 1024"
    | (num) "round_double x =
        Num (of_int (round_even (x / pow2 (exponent \<bar>x\<bar> - 52))) * pow2 (exponent \<bar>x\<bar> - 52))"
      "\<bar>of_int (round_even (x / pow2 (exponent \<bar>x\<bar> - 52))) * pow2 (exponent \<bar>x\<bar> - 52)\<bar> < pow2 1024"
proof -
  let ?r = "of_int (round_even (x / pow2 (exponent \<bar>x\<bar> - 52))) * pow2 (exponent \<bar>x\<bar> - 52)"
  consider "pow2 1024 \<le> ?r" | "\<not> pow2 1024 \<le> ?r" "?r \<le> - pow2 1024"
    | "\<not> pow2 1024 \<le> ?r" "\<not> ?r \<le> - pow2 1024" by blast
  then show thesis
  proof cases
    case 1
    with assms have "round_double x = PosInfinity" by (simp add: round_double_def Let_def)
    from this 1 show thesis by (rule pos)
  next
    case 2
    with assms have "round_double x = NegInfinity" by (simp add: round_double_def Let_def)
    from this 2(2) show thesis by (rule neg)
  next
    case 3
    with assms have "round_double x = Num ?r" by (simp add: round_double_def Let_def)
    moreover from 3 have "\<bar>?r\<bar> < pow2 1024" by (simp add: abs_less_iff)
    ultimately show thesis by (rule num)
  qed
qed

lemma round_double_exact:
  assumes k: "- 1074 \<le> k" and m: "\<bar>m\<bar> < 2 ^ 53"
    and fin: "\<bar>of_int m * pow2 k\<bar> < pow2 1024"
  shows "round_double (of_int m * pow2 k) = Num (of_int m * pow2 k)"
proof (cases "m = 0")
  case True
  then show ?thesis by (simp add: round_double_0)
next
  case False
  define x :: real where "x = of_int m * pow2 k"
  define e where "e = exponent \<bar>x\<bar>"
  from False pow2_pos [of k] have x0: "x \<noteq> 0" by (simp add: x_def)
  have absx: "\<bar>x\<bar> = of_int \<bar>m\<bar> * pow2 k"
    by (simp add: x_def abs_mult pow2_abs)
  from m have "(of_int \<bar>m\<bar> :: real) < 2 ^ 53"
    by (metis of_int_less_numeral_power_cancel_iff)
  then have "\<bar>x\<bar> < 2 ^ 53 * pow2 k"
    unfolding absx using pow2_pos [of k] by (simp only: mult_strict_right_mono)
  also have "\<dots> = pow2 (53 + k)"
    by (simp only: pow2_add pow2_53)
  finally have lt: "\<bar>x\<bar> < pow2 (53 + k)" .
  have ek: "e - 52 \<le> k"
  proof (cases "e = - 1022")
    case True
    with k show ?thesis by simp
  next
    case False
    with exponent_lower [of "\<bar>x\<bar>"] have "pow2 e \<le> \<bar>x\<bar>" by (simp add: e_def)
    with lt have "pow2 e < pow2 (53 + k)" by simp
    then have "e < 53 + k" by (rule pow2_less_cancel)
    then show ?thesis by simp
  qed
  define j where "j = k - (e - 52)"
  from ek have j: "0 \<le> j" by (simp add: j_def)
  have "pow2 k = pow2 (j + (e - 52))" by (simp add: j_def)
  then have kj: "pow2 k = pow2 j * pow2 (e - 52)" by (simp only: pow2_add)
  have q: "x / pow2 (e - 52) = of_int (m * 2 ^ nat j)"
    using pow2_pos [of "e - 52"] by (simp add: x_def kj pow2_nonneg_int [OF j])
  then have r: "round_even (x / pow2 (e - 52)) = m * 2 ^ nat j"
    by (simp only: round_even_of_int)
  have rx: "of_int (m * 2 ^ nat j) * pow2 (e - 52) = x"
    using pow2_pos [of "e - 52"] by (simp add: x_def kj pow2_nonneg_int [OF j])
  from x0 have "round_double x = Num x"
  proof (cases rule: round_double_cases)
    case pos
    with fin show ?thesis
      unfolding e_def [symmetric] r rx by (simp add: x_def abs_less_iff)
  next
    case neg
    with fin show ?thesis
      unfolding e_def [symmetric] r rx by (simp add: x_def abs_less_iff)
  next
    case num
    then show ?thesis
      unfolding e_def [symmetric] r rx by simp
  qed
  then show ?thesis by (simp only: x_def)
qed

lemma round_double_of_int:
  assumes "\<bar>n\<bar> \<le> 2 ^ 53"
  shows "round_double (of_int n) = Num (of_int n)"
proof (cases "\<bar>n\<bar> = 2 ^ 53")
  case True
  then consider "n = 2 ^ 53" | "n = - (2 ^ 53)" by (auto simp: abs_if split: if_splits)
  then show ?thesis
  proof cases
    case 1
    have "round_double (of_int 1 * pow2 53) = Num (of_int 1 * pow2 53)"
      by (rule round_double_exact) (simp_all add: pow2_less pow2_abs)
    with 1 show ?thesis by (simp add: pow2_53)
  next
    case 2
    have "round_double (of_int (- 1) * pow2 53) = Num (of_int (- 1) * pow2 53)"
      by (rule round_double_exact) (simp_all add: pow2_less pow2_abs)
    with 2 show ?thesis by (simp add: pow2_53)
  qed
next
  case False
  with assms have lt: "\<bar>n\<bar> < 2 ^ 53" by simp
  then have "(of_int \<bar>n\<bar> :: real) < 2 ^ 53"
    by (metis of_int_less_numeral_power_cancel_iff)
  also have "(2 ^ 53 :: real) = pow2 53" by (simp add: pow2_53)
  also have "\<dots> < pow2 1024" by (simp add: pow2_less)
  finally have "\<bar>of_int n * pow2 0\<bar> < pow2 1024" by (simp add: pow2_0)
  with round_double_exact [of 0 n] lt show ?thesis by (simp add: pow2_0)
qed

lemma round_even_bound:
  assumes "\<bar>y\<bar> \<le> of_int b"
  shows "\<bar>round_even y\<bar> \<le> b"
proof -
  from assms have "y \<le> of_int b" "of_int (- b) \<le> y" by (simp_all add: abs_le_iff)
  then have "round_even y \<le> b" "- b \<le> round_even y"
    by (blast intro: round_even_le round_even_ge)+
  then show ?thesis by simp
qed

lemma round_double_idem:
  assumes "round_double x = Num y"
  shows "round_double y = Num y"
proof (cases "x = 0")
  case True
  with assms show ?thesis by (simp add: round_double_0)
next
  case False
  let ?e = "exponent \<bar>x\<bar>"
  let ?q = "pow2 (?e - 52)"
  let ?n = "round_even (x / ?q)"
  from False assms have y: "y = of_int ?n * ?q"
    by (cases rule: round_double_cases) simp_all
  from False assms have fin: "\<bar>of_int ?n * ?q\<bar> < pow2 1024"
    by (cases rule: round_double_cases) simp_all
  have k: "- 1074 \<le> ?e - 52" using exponent_range(1) [of "\<bar>x\<bar>"] by simp
  have n: "\<bar>?n\<bar> \<le> 2 ^ 53"
  proof (cases "?e = 1023")
    case True
    from fin have "of_int \<bar>?n\<bar> * ?q < pow2 1024"
      using pow2_pos [of "?e - 52"] by (simp add: abs_mult)
    also have "pow2 1024 = 2 ^ 53 * ?q"
      using pow2_succ [of ?e] by (simp only: True) simp
    finally have "(of_int \<bar>?n\<bar> :: real) < 2 ^ 53"
      using pow2_pos [of "?e - 52"] by simp
    then have "\<bar>?n\<bar> < 2 ^ 53"
      by (metis of_int_less_numeral_power_cancel_iff)
    then show ?thesis by simp
  next
    case no: False
    with exponent_upper [of "\<bar>x\<bar>"] have "\<bar>x\<bar> < pow2 (?e + 1)" by simp
    also have "\<dots> = 2 ^ 53 * ?q"
      by (rule pow2_succ)
    finally have "\<bar>x / ?q\<bar> \<le> of_int (2 ^ 53)"
      using pow2_pos [of "?e - 52"] by (simp add: abs_divide divide_le_eq)
    then show ?thesis by (rule round_even_bound)
  qed
  show ?thesis
  proof (cases "\<bar>?n\<bar> = 2 ^ 53")
    case True
    then consider "?n = 2 ^ 53" | "?n = - (2 ^ 53)" by (auto simp: abs_if split: if_splits)
    then show ?thesis
    proof cases
      case 1
      then have yy: "y = of_int 1 * pow2 (?e + 1)"
        unfolding y by (simp add: pow2_succ)
      from fin y have "\<bar>y\<bar> < pow2 1024" by simp
      with round_double_exact [of "?e + 1" 1] k show ?thesis by (simp add: yy)
    next
      case 2
      then have yy: "y = of_int (- 1) * pow2 (?e + 1)"
        unfolding y by (simp add: pow2_succ)
      from fin y have "\<bar>y\<bar> < pow2 1024" by simp
      with round_double_exact [of "?e + 1" "- 1"] k show ?thesis by (simp add: yy)
    qed
  next
    case False
    with n have "\<bar>?n\<bar> < 2 ^ 53" by simp
    from round_double_exact [OF k this fin] show ?thesis by (simp add: y)
  qed
qed

lemma round_double_nonneg:
  assumes "0 \<le> x"
  shows "round_double x \<noteq> NegInfinity" and "round_double x = Num y \<Longrightarrow> 0 \<le> y"
proof -
  let ?q = "pow2 (exponent \<bar>x\<bar> - 52)"
  from assms have "of_int 0 \<le> x / ?q" using pow2_pos [of "exponent \<bar>x\<bar> - 52"] by simp
  then have n: "0 \<le> round_even (x / ?q)" by (rule round_even_ge)
  then have r: "0 \<le> of_int (round_even (x / ?q)) * ?q"
    using pow2_pos [of "exponent \<bar>x\<bar> - 52"] by simp
  show "round_double x \<noteq> NegInfinity"
  proof (cases "x = 0")
    case True
    then show ?thesis by (simp add: round_double_0)
  next
    case False
    then show ?thesis
      using r pow2_pos [of 1024] by (cases rule: round_double_cases) simp_all
  qed
  show "0 \<le> y" if "round_double x = Num y"
  proof (cases "x = 0")
    case True
    with that show ?thesis by (simp add: round_double_0)
  next
    case False
    then show ?thesis
      using r that by (cases rule: round_double_cases) simp_all
  qed
qed

lemma round_double_below:
  assumes x: "0 \<le> x" and le: "x \<le> y" and y: "round_double y = Num y"
  shows "\<exists>z. round_double x = Num z \<and> 0 \<le> z \<and> z \<le> y"
proof (cases "x = 0")
  case True
  with x le show ?thesis by (simp add: round_double_0)
next
  case False
  with x le have xpos: "0 < x" and ypos: "0 < y" by simp_all
  let ?ex = "exponent \<bar>x\<bar>" and ?ey = "exponent \<bar>y\<bar>"
  let ?qx = "pow2 (?ex - 52)" and ?qy = "pow2 (?ey - 52)"
  let ?z = "of_int (round_even (x / ?qx)) * ?qx"
  from ypos have y0: "y \<noteq> 0" by simp
  from y0 y have yr: "y = of_int (round_even (y / ?qy)) * ?qy"
    by (cases rule: round_double_cases) simp_all
  from y0 y have yfin: "\<bar>y\<bar> < pow2 1024"
    by (cases rule: round_double_cases) simp_all
  from x le have "\<bar>x\<bar> \<le> \<bar>y\<bar>" by simp
  then have mono: "?ex \<le> ?ey" by (rule exponent_mono)
  have zy: "?z \<le> y"
  proof (cases "?ex = ?ey")
    case True
    from yr have "y / ?qy = of_int (round_even (y / ?qy))"
      using pow2_pos [of "?ey - 52"] by (simp add: field_simps)
    moreover from le have "x / ?qx \<le> y / ?qy"
      using pow2_pos [of "?ey - 52"] by (simp add: True divide_right_mono)
    ultimately have "x / ?qx \<le> of_int (round_even (y / ?qy))" by simp
    then have "round_even (x / ?qx) \<le> round_even (y / ?qy)" by (rule round_even_le)
    then have "?z \<le> of_int (round_even (y / ?qy)) * ?qx"
      using pow2_pos [of "?ex - 52"] by (simp add: mult_right_mono)
    with yr True show ?thesis by simp
  next
    case False
    with mono have lt: "?ex < ?ey" by simp
    with exponent_range(1) [of "\<bar>x\<bar>"] exponent_lower [of "\<bar>y\<bar>"] ypos
    have ylow: "pow2 ?ey \<le> y" by auto
    from lt exponent_range(2) [of "\<bar>y\<bar>"] exponent_upper [of "\<bar>x\<bar>"] xpos
    have "x < pow2 (?ex + 1)" by auto
    also have "\<dots> = 2 ^ 53 * ?qx"
      by (rule pow2_succ)
    finally have "x / ?qx \<le> of_int (2 ^ 53)"
      using pow2_pos [of "?ex - 52"] by (simp add: divide_le_eq)
    then have "round_even (x / ?qx) \<le> 2 ^ 53" by (rule round_even_le)
    then have "(of_int (round_even (x / ?qx)) :: real) \<le> 2 ^ 53"
      by (metis of_int_le_numeral_power_cancel_iff)
    then have "?z \<le> 2 ^ 53 * ?qx"
      using pow2_pos [of "?ex - 52"] by (simp add: mult_right_mono)
    also have "\<dots> = pow2 (?ex + 1)"
      by (rule pow2_succ [symmetric])
    also from lt have "\<dots> \<le> pow2 ?ey" by (simp add: pow2_mono)
    finally show ?thesis using ylow by simp
  qed
  from xpos have "of_int 0 \<le> x / ?qx" using pow2_pos [of "?ex - 52"] by simp
  then have "0 \<le> round_even (x / ?qx)" by (rule round_even_ge)
  then have z0: "0 \<le> ?z" using pow2_pos [of "?ex - 52"] by simp
  from zy yfin ypos have zfin: "?z < pow2 1024" by simp
  from False have "round_double x = Num ?z"
    using z0 zfin pow2_pos [of 1024] by (cases rule: round_double_cases) simp_all
  with z0 zy show ?thesis by simp
qed

lemma round_double_error:
  assumes low: "pow2 (- 1022) \<le> \<bar>x\<bar>" and y: "round_double x = Num y"
  shows "\<bar>y - x\<bar> \<le> \<bar>x\<bar> / 2 ^ 53"
proof -
  let ?e = "exponent \<bar>x\<bar>"
  let ?q = "pow2 (?e - 52)"
  let ?n = "round_even (x / ?q)"
  from low pow2_pos [of "- 1022"] have x0: "x \<noteq> 0" by auto
  from x0 y have yr: "y = of_int ?n * ?q"
    by (cases rule: round_double_cases) simp_all
  have q: "0 < ?q" by (rule pow2_pos)
  have "y - x = (of_int ?n - x / ?q) * ?q"
    using q by (simp add: yr field_simps)
  then have "\<bar>y - x\<bar> = \<bar>of_int ?n - x / ?q\<bar> * ?q"
    using q by (simp add: abs_mult)
  also have "\<dots> \<le> 1 / 2 * ?q"
    using round_even_error [of "x / ?q"] q by (simp add: mult_right_mono)
  also have "\<dots> = pow2 ?e / 2 ^ 53"
  proof -
    have "2 * pow2 ?e = pow2 (?e + 1)" by (simp add: pow2_add) (simp add: pow2_def)
    also have "\<dots> = 2 ^ 53 * ?q" by (rule pow2_succ)
    finally show ?thesis by simp
  qed
  also have "\<dots> \<le> \<bar>x\<bar> / 2 ^ 53"
  proof -
    from exponent_lower [of "\<bar>x\<bar>"] low have "pow2 ?e \<le> \<bar>x\<bar>" by auto
    then show ?thesis by (simp add: divide_right_mono)
  qed
  finally show ?thesis .
qed

text \<open>
  The definitions that evaluate the rounding of a given number, and the doubles that the
  literals 0.1, 0.2, 0.3, 0.07 and 0.09 denote.
\<close>

lemmas float_eval = round_double_def exponent_def bsearch.simps pow2_def Let_def round_even_def

lemma decimal_literals:
  "round_double (1 / 10) = Num (3602879701896397 / 36028797018963968)"
  "round_double (2 / 10) = Num (3602879701896397 / 18014398509481984)"
  "round_double (3 / 10) = Num (5404319552844595 / 18014398509481984)"
  "round_double (7 / 100) = Num (1261007895663739 / 18014398509481984)"
  "round_double (9 / 100) = Num (3242591731706757 / 36028797018963968)"
  by (simp_all add: float_eval)

subsection \<open>More on rounding\<close>

lemma round_even_minus: "round_even (- y) = - round_even y"
proof (cases "y = of_int \<lfloor>y\<rfloor>")
  case True
  then obtain n where "y = of_int n" ..
  then have "- y = of_int (- n)" by simp
  then show ?thesis unfolding \<open>y = of_int n\<close> by (simp only: round_even_of_int)
next
  case False
  then have fl: "\<lfloor>- y\<rfloor> = - \<lfloor>y\<rfloor> - 1"
    by (metis ceiling_altdef ceiling_def add_diff_cancel_right' minus_diff_eq uminus_add_conv_diff diff_minus_eq_add minus_minus)
  have d: "of_int \<lfloor>y\<rfloor> < y" "y < of_int \<lfloor>y\<rfloor> + 1"
    using False by linarith+
  show ?thesis
    using d by (auto simp: round_even_def Let_def fl)
qed

lemma round_double_minus: "round_double (- x) = fneg (round_double x)"
  using pow2_pos [of 1024]
  by (auto simp: round_double_def Let_def fneg_def round_even_minus)

lemma round_double_grid:
  assumes "round_double x = Num y"
  shows "\<exists>n::int. y = of_int n * pow2 (- 1074)"
proof (cases "x = 0")
  case True
  with assms have "y = of_int 0 * pow2 (- 1074)" by (simp add: round_double_0)
  then show ?thesis ..
next
  case False
  define e where "e = exponent \<bar>x\<bar>"
  define n where "n = round_even (x / pow2 (e - 52))"
  from False assms have y: "y = of_int n * pow2 (e - 52)"
    unfolding n_def e_def by (cases rule: round_double_cases) simp_all
  have e: "- 1022 \<le> e" unfolding e_def by (rule exponent_range)
  define j where "j = e + 1022"
  from e have j: "0 \<le> j" by (simp add: j_def)
  have "pow2 (e - 52) = pow2 (j + (- 1074))" by (simp add: j_def)
  also have "\<dots> = of_int (2 ^ nat j) * pow2 (- 1074)"
    by (simp only: pow2_add pow2_nonneg_int [OF j])
  finally have "y = of_int (n * 2 ^ nat j) * pow2 (- 1074)"
    by (simp add: y)
  then show ?thesis ..
qed

lemma round_double_abs_error:
  assumes y: "round_double x = Num y"
  shows "\<bar>y - x\<bar> \<le> \<bar>x\<bar> / 2 ^ 53 + pow2 (- 1075)"
proof (cases "pow2 (- 1022) \<le> \<bar>x\<bar>")
  case True
  from round_double_error [OF True y] pow2_pos [of "- 1075"] show ?thesis by simp
next
  case False
  show ?thesis
  proof (cases "x = 0")
    case True
    with y pow2_pos [of "- 1075"] show ?thesis by (simp add: round_double_0)
  next
    case x0: False
    define e where "e = exponent \<bar>x\<bar>"
    have e: "e = - 1022"
    proof (rule ccontr)
      assume ne: "e \<noteq> - 1022"
      with exponent_lower [of "\<bar>x\<bar>"] have "pow2 e \<le> \<bar>x\<bar>" by (simp add: e_def)
      moreover from ne exponent_range(1) [of "\<bar>x\<bar>"] have "pow2 (- 1022) \<le> pow2 e"
        by (simp add: e_def pow2_mono)
      ultimately show False using False by simp
    qed
    define q where "q = pow2 (- 1074)"
    have q: "0 < q" unfolding q_def by (rule pow2_pos)
    from x0 y have yr: "y = of_int (round_even (x / q)) * q"
      by (cases rule: round_double_cases) (simp_all add: e [unfolded e_def] q_def)
    have "y - x = (of_int (round_even (x / q)) - x / q) * q"
      using q by (simp add: yr field_simps)
    then have "\<bar>y - x\<bar> = \<bar>of_int (round_even (x / q)) - x / q\<bar> * q"
      using q by (simp add: abs_mult)
    also have "\<dots> \<le> 1 / 2 * q"
      using round_even_error [of "x / q"] q by (simp add: mult_right_mono)
    also have "\<dots> = pow2 (- 1075)"
    proof -
      have "pow2 (- 1074) = pow2 (1 + (- 1075))" by simp
      also have "\<dots> = 2 * pow2 (- 1075)" by (simp only: pow2_add) (simp add: pow2_def)
      finally show ?thesis by (simp add: q_def)
    qed
    finally show ?thesis by simp
  qed
qed

lemma round_double_sum_error:
  assumes a: "round_double a = Num a" and b: "round_double b = Num b"
    and c: "round_double (a + b) = Num c"
  shows "\<bar>c - (a + b)\<bar> \<le> \<bar>a + b\<bar> / 2 ^ 53"
proof (cases "pow2 (- 1022) \<le> \<bar>a + b\<bar>")
  case True
  then show ?thesis using c by (rule round_double_error)
next
  case False
  from round_double_grid [OF a] obtain na :: int where na: "a = of_int na * pow2 (- 1074)" ..
  from round_double_grid [OF b] obtain nb :: int where nb: "b = of_int nb * pow2 (- 1074)" ..
  have s: "a + b = of_int (na + nb) * pow2 (- 1074)"
    by (simp add: na nb algebra_simps)
  have "pow2 (- 1022) = pow2 (52 + (- 1074))" by simp
  also have "\<dots> = 2 ^ 52 * pow2 (- 1074)" by (simp only: pow2_add) (simp add: pow2_def)
  finally have p: "pow2 (- 1022) = 2 ^ 52 * pow2 (- 1074)" .
  from False have "\<bar>of_int (na + nb) * pow2 (- 1074)\<bar> < 2 ^ 52 * pow2 (- 1074)"
    by (simp only: s p not_le)
  then have "\<bar>of_int (na + nb) :: real\<bar> < 2 ^ 52"
    using pow2_pos [of "- 1074"] by (simp add: abs_mult pow2_abs)
  then have "(of_int \<bar>na + nb\<bar> :: real) < 2 ^ 52" by simp
  then have "\<bar>na + nb\<bar> < 2 ^ 52"
    by (metis of_int_less_numeral_power_cancel_iff)
  then have m: "\<bar>na + nb\<bar> < 2 ^ 53" by simp
  have "\<bar>a + b\<bar> < pow2 (- 1022)" using False by simp
  also have "\<dots> < pow2 1024" by (simp add: pow2_less)
  finally have "\<bar>of_int (na + nb) * pow2 (- 1074)\<bar> < pow2 1024" by (simp only: s)
  with round_double_exact [of "- 1074" "na + nb"] m
  have "round_double (a + b) = Num (a + b)" by (simp add: s)
  with c show ?thesis by simp
qed

lemma round_double_pow2:
  assumes "- 1074 \<le> k" "k < 1024"
  shows "round_double (pow2 k) = Num (pow2 k)"
proof -
  from assms(2) have "\<bar>of_int 1 * pow2 k\<bar> < pow2 1024"
    by (simp add: pow2_abs pow2_less)
  with round_double_exact [of k 1] assms(1) show ?thesis by simp
qed

lemma round_double_bounded:
  assumes x: "\<bar>x\<bar> \<le> y" and y: "round_double y = Num y"
  shows "\<exists>z. round_double x = Num z \<and> \<bar>z\<bar> \<le> y"
proof (cases "0 \<le> x")
  case True
  with x round_double_below [of x y] y obtain z where "round_double x = Num z" "0 \<le> z" "z \<le> y"
    by auto
  then show ?thesis by auto
next
  case False
  then have "0 \<le> - x" by simp
  moreover from x False have "- x \<le> y" by simp
  ultimately obtain z where z: "round_double (- x) = Num z" "0 \<le> z" "z \<le> y"
    using round_double_below [of "- x" y] y by auto
  from z(1) have "round_double x = Num (- z)"
    by (cases "round_double x") (simp_all add: round_double_minus fneg_def)
  with z show ?thesis by simp
qed

subsection \<open>Rounding in range\<close>

lemma round_double_normal:
  assumes lo: "pow2 (- 1022) \<le> \<bar>x\<bar>" and hi: "\<bar>x\<bar> \<le> pow2 k" and k: "- 1074 \<le> k" "k < 1024"
  shows "\<exists>y. round_double x = Num y \<and> \<bar>y - x\<bar> \<le> \<bar>x\<bar> / 2 ^ 53 \<and> \<bar>y\<bar> \<le> pow2 k"
proof -
  from round_double_bounded [OF hi round_double_pow2 [OF k]]
  obtain y where y: "round_double x = Num y" "\<bar>y\<bar> \<le> pow2 k" by auto
  from round_double_error [OF lo y(1)] y show ?thesis by auto
qed

lemma rel_bounds:
  fixes x y u :: real
  assumes "\<bar>y - x\<bar> \<le> \<bar>x\<bar> * u"
  shows "\<bar>y\<bar> \<le> \<bar>x\<bar> * (1 + u)" and "\<bar>x\<bar> * (1 - u) \<le> \<bar>y\<bar>"
proof -
  have "\<bar>y\<bar> \<le> \<bar>x\<bar> + \<bar>y - x\<bar>" "\<bar>x\<bar> \<le> \<bar>y\<bar> + \<bar>y - x\<bar>" by linarith+
  with assms show "\<bar>y\<bar> \<le> \<bar>x\<bar> * (1 + u)" and "\<bar>x\<bar> * (1 - u) \<le> \<bar>y\<bar>"
    by (simp_all add: algebra_simps)
qed

lemma pow2_low: "pow2 (- 1000) = 4194304 * pow2 (- 1022)"
proof -
  have "pow2 (- 1000) = pow2 (22 + (- 1022))" by simp
  also have "\<dots> = pow2 22 * pow2 (- 1022)" by (rule pow2_add)
  also have "pow2 22 = 4194304" by (simp add: pow2_def)
  finally show ?thesis .
qed

lemma pow2_high: "pow2 1001 = 2 * pow2 1000"
proof -
  have "pow2 1001 = pow2 (1 + 1000)" by simp
  also have "\<dots> = pow2 1 * pow2 1000" by (rule pow2_add)
  also have "pow2 1 = 2" by (simp add: pow2_def)
  finally show ?thesis .
qed

lemma unit_roundoff_bounds: "0 \<le> unit_roundoff" "unit_roundoff \<le> 1 / 2"
  by (simp_all add: unit_roundoff_def)

lemma round_double_normal_u:
  assumes "pow2 (- 1022) \<le> \<bar>x\<bar>" "\<bar>x\<bar> \<le> pow2 k" "- 1074 \<le> k" "k < 1024"
  shows "\<exists>y. round_double x = Num y \<and> \<bar>y - x\<bar> \<le> \<bar>x\<bar> * unit_roundoff \<and> \<bar>y\<bar> \<le> pow2 k"
  using round_double_normal [OF assms] by (simp add: unit_roundoff_def)

text \<open>The rounded quotient by 100 of a real in range, then the rounded product.\<close>

lemma round_div_100:
  assumes lo: "100 * pow2 (- 1022) \<le> \<bar>x\<bar>" and hi: "\<bar>x\<bar> \<le> pow2 1001"
  shows "\<exists>y. round_double (x / 100) = Num y \<and>
    \<bar>y - x / 100\<bar> \<le> \<bar>x / 100\<bar> * unit_roundoff \<and> \<bar>y\<bar> \<le> pow2 1000"
proof (rule round_double_normal_u)
  from lo show "pow2 (- 1022) \<le> \<bar>x / 100\<bar>" by simp
  from hi pow2_pos [of 1000] show "\<bar>x / 100\<bar> \<le> pow2 1000"
    by (simp add: pow2_high)
qed simp_all

lemma round_mult_in_range:
  assumes y: "\<bar>y - x\<bar> \<le> \<bar>x\<bar> * unit_roundoff"
    and lo: "2 * pow2 (- 1022) \<le> \<bar>x * s\<bar>" and hi: "\<bar>x * s\<bar> \<le> pow2 1000"
  shows "\<exists>z. round_double (y * s) = Num z \<and> \<bar>z - y * s\<bar> \<le> \<bar>y * s\<bar> * unit_roundoff \<and>
    \<bar>z\<bar> \<le> pow2 1001 \<and> \<bar>y * s - x * s\<bar> \<le> \<bar>x * s\<bar> * unit_roundoff \<and>
    \<bar>y * s\<bar> \<le> \<bar>x * s\<bar> * (1 + unit_roundoff) \<and> \<bar>x * s\<bar> / 2 \<le> \<bar>y * s\<bar>"
proof -
  note u = unit_roundoff_bounds
  have "\<bar>y * s - x * s\<bar> = \<bar>y - x\<bar> * \<bar>s\<bar>"
    by (simp add: abs_mult flip: left_diff_distrib)
  also from y have "\<dots> \<le> \<bar>x\<bar> * unit_roundoff * \<bar>s\<bar>" by (simp add: mult_right_mono)
  finally have e: "\<bar>y * s - x * s\<bar> \<le> \<bar>x * s\<bar> * unit_roundoff" by (simp add: abs_mult ac_simps)
  note b = rel_bounds [OF e]
  have "\<bar>x * s\<bar> * (1 / 2) \<le> \<bar>x * s\<bar> * (1 - unit_roundoff)"
    using u by (intro mult_left_mono) simp_all
  with b(2) have low: "\<bar>x * s\<bar> / 2 \<le> \<bar>y * s\<bar>" by simp
  have "\<bar>x * s\<bar> * (1 + unit_roundoff) \<le> \<bar>x * s\<bar> * 2"
    using u by (intro mult_left_mono) simp_all
  with b(1) hi have high: "\<bar>y * s\<bar> \<le> pow2 1001" by (simp add: pow2_high)
  from low lo have "pow2 (- 1022) \<le> \<bar>y * s\<bar>" by simp
  from round_double_normal_u [OF this high] e b(1) low show ?thesis by auto
qed

lemma in_range_cases:
  assumes "in_range x"
  obtains (zero) "x = 0" | (range) "x \<noteq> 0" "pow2 (- 1000) \<le> \<bar>x\<bar>" "\<bar>x\<bar> \<le> pow2 1000"
  using assms by (auto simp: in_range_def)

section \<open>Properties of the calculator\<close>

subsection \<open>The invoice total\<close>

lemma discount_accuracy:
  assumes d: "in_range d" and sd: "in_range (s * d)"
  shows "\<exists>a. fmul (fdiv (Num d) (Num 100)) (Num s) = Num a \<and>
    \<bar>a - s * d / 100\<bar> \<le> ((1 + unit_roundoff) ^ 2 - 1) * \<bar>s * d / 100\<bar>"
  using d
proof (cases rule: in_range_cases)
  case zero
  then show ?thesis by (simp add: round_double_0)
next
  case range
  have P: "0 < pow2 (- 1022)" by (rule pow2_pos)
  from range(2) P have "100 * pow2 (- 1022) \<le> \<bar>d\<bar>" by (simp add: pow2_low)
  moreover from range(3) pow2_pos [of 1000] have "\<bar>d\<bar> \<le> pow2 1001" by (simp add: pow2_high)
  ultimately obtain y where y: "round_double (d / 100) = Num y"
    "\<bar>y - d / 100\<bar> \<le> \<bar>d / 100\<bar> * unit_roundoff"
    using round_div_100 [of d] by auto
  from sd show ?thesis
  proof (cases rule: in_range_cases)
    case zero
    with range(1) have "s = 0" by simp
    with y(1) show ?thesis by (simp add: round_double_0)
  next
    case sd: range
    define X where "X = \<bar>d / 100 * s\<bar>"
    have X: "X = \<bar>s * d\<bar> / 100" by (simp add: X_def abs_mult)
    from sd(2) P have lo: "2 * pow2 (- 1022) \<le> \<bar>d / 100 * s\<bar>"
      unfolding X_def [symmetric] X by (simp add: pow2_low)
    from sd(3) pow2_pos [of 1000] have hi: "\<bar>d / 100 * s\<bar> \<le> pow2 1000"
      unfolding X_def [symmetric] X by simp
    from round_mult_in_range [OF y(2) lo hi]
    obtain a where a: "round_double (y * s) = Num a" "\<bar>a - y * s\<bar> \<le> \<bar>y * s\<bar> * unit_roundoff"
      "\<bar>y * s - d / 100 * s\<bar> \<le> X * unit_roundoff" "\<bar>y * s\<bar> \<le> X * (1 + unit_roundoff)"
      unfolding X_def by blast
    have "\<bar>a - d / 100 * s\<bar> \<le> \<bar>a - y * s\<bar> + \<bar>y * s - d / 100 * s\<bar>" by linarith
    also have "\<dots> \<le> \<bar>y * s\<bar> * unit_roundoff + X * unit_roundoff"
      using a(2,3) by linarith
    also have "\<dots> \<le> X * (1 + unit_roundoff) * unit_roundoff + X * unit_roundoff"
      using a(4) unit_roundoff_bounds(1) by (simp add: mult_right_mono)
    also have "\<dots> = ((1 + unit_roundoff) ^ 2 - 1) * X"
      by (simp add: power2_eq_square algebra_simps)
    finally have "\<bar>a - s * d / 100\<bar> \<le> ((1 + unit_roundoff) ^ 2 - 1) * \<bar>s * d / 100\<bar>"
      by (simp add: X ac_simps)
    with y(1) a(1) show ?thesis by simp
  qed
qed

lemma triangle_100:
  fixes b v p q :: real
  shows "\<bar>b - q / 100\<bar> \<le> \<bar>b - v / 100\<bar> + \<bar>v - p\<bar> / 100 + \<bar>p - q\<bar> / 100"
proof -
  have 1: "\<bar>v - p\<bar> / 100 = \<bar>v / 100 - p / 100\<bar>" by (simp flip: diff_divide_distrib)
  have 2: "\<bar>p - q\<bar> / 100 = \<bar>p / 100 - q / 100\<bar>" by (simp flip: diff_divide_distrib)
  show ?thesis unfolding 1 2 by linarith
qed

lemma tax_accuracy:
  assumes x: "in_range (s - a)" and xt: "in_range ((s - a) * t)"
  shows "\<exists>w b. fsub (Num s) (Num a) = Num w \<and> round_double w = Num w \<and>
    \<bar>w - (s - a)\<bar> \<le> \<bar>s - a\<bar> * unit_roundoff \<and> \<bar>w\<bar> \<le> pow2 1000 \<and>
    fdiv (fmul (Num w) (Num t)) (Num 100) = Num b \<and> round_double b = Num b \<and>
    \<bar>b\<bar> \<le> pow2 1000 \<and>
    \<bar>b - (s - a) * t / 100\<bar> \<le> ((1 + unit_roundoff) ^ 3 - 1) * \<bar>(s - a) * t / 100\<bar>"
  using x
proof (cases rule: in_range_cases)
  case zero
  then have "fsub (Num s) (Num a) = Num 0"
    by (simp add: fsub_def fneg_def round_double_0)
  with zero pow2_pos [of 1000] show ?thesis by (simp add: round_double_0 less_imp_le)
next
  case range
  have P: "0 < pow2 (- 1022)" by (rule pow2_pos)
  note u = unit_roundoff_bounds
  from range(2) P have "pow2 (- 1022) \<le> \<bar>s - a\<bar>" by (simp add: pow2_low)
  from round_double_normal_u [OF this range(3)]
  obtain w where w: "round_double (s - a) = Num w" "\<bar>w - (s - a)\<bar> \<le> \<bar>s - a\<bar> * unit_roundoff"
    "\<bar>w\<bar> \<le> pow2 1000" by auto
  have sub: "fsub (Num s) (Num a) = Num w" using w(1) by (simp add: fsub_def fneg_def)
  have ww: "round_double w = Num w" using w(1) by (rule round_double_idem)
  from xt show ?thesis
  proof (cases rule: in_range_cases)
    case zero
    with range(1) have "t = 0" by simp
    with sub ww w pow2_pos [of 1000] show ?thesis
      by (simp add: round_double_0 less_imp_le)
  next
    case xt: range
    define X where "X = \<bar>(s - a) * t\<bar>"
    from xt(2) P have lo: "2 * pow2 (- 1022) \<le> \<bar>(s - a) * t\<bar>" by (simp add: pow2_low)
    from round_mult_in_range [OF w(2) lo xt(3)]
    obtain v where v: "round_double (w * t) = Num v" "\<bar>v - w * t\<bar> \<le> \<bar>w * t\<bar> * unit_roundoff"
      "\<bar>v\<bar> \<le> pow2 1001" "\<bar>w * t - (s - a) * t\<bar> \<le> X * unit_roundoff"
      "\<bar>w * t\<bar> \<le> X * (1 + unit_roundoff)" "X / 2 \<le> \<bar>w * t\<bar>"
      unfolding X_def by blast
    note bv = rel_bounds [OF v(2)]
    have "\<bar>w * t\<bar> * (1 / 2) \<le> \<bar>w * t\<bar> * (1 - unit_roundoff)"
      using u by (intro mult_left_mono) simp_all
    with bv(2) v(6) have "X / 4 \<le> \<bar>v\<bar>" by simp
    moreover from xt(2) P have "400 * pow2 (- 1022) \<le> X" by (simp add: X_def pow2_low)
    ultimately have "100 * pow2 (- 1022) \<le> \<bar>v\<bar>" by simp
    from round_div_100 [OF this v(3)]
    obtain b where b: "round_double (v / 100) = Num b"
      "\<bar>b - v / 100\<bar> \<le> \<bar>v / 100\<bar> * unit_roundoff" "\<bar>b\<bar> \<le> pow2 1000" by auto
    have bb: "round_double b = Num b" using b(1) by (rule round_double_idem)
    have v1: "\<bar>v\<bar> \<le> X * (1 + unit_roundoff) * (1 + unit_roundoff)"
    proof -
      from v(5) u have "\<bar>w * t\<bar> * (1 + unit_roundoff) \<le> X * (1 + unit_roundoff) * (1 + unit_roundoff)"
        by (intro mult_right_mono) simp_all
      with bv(1) show ?thesis by simp
    qed
    have "\<bar>b - (s - a) * t / 100\<bar> \<le>
      \<bar>b - v / 100\<bar> + \<bar>v - w * t\<bar> / 100 + \<bar>w * t - (s - a) * t\<bar> / 100"
      by (rule triangle_100)
    also have "\<dots> \<le> \<bar>v\<bar> * unit_roundoff / 100 + \<bar>w * t\<bar> * unit_roundoff / 100 +
      X * unit_roundoff / 100"
      using b(2) v(2) v(4) by simp
    also have "\<dots> \<le> X * (1 + unit_roundoff) * (1 + unit_roundoff) * unit_roundoff / 100 +
      X * (1 + unit_roundoff) * unit_roundoff / 100 + X * unit_roundoff / 100"
    proof -
      from v1 u have "\<bar>v\<bar> * unit_roundoff \<le>
        X * (1 + unit_roundoff) * (1 + unit_roundoff) * unit_roundoff"
        by (intro mult_right_mono) simp_all
      moreover from v(5) u have "\<bar>w * t\<bar> * unit_roundoff \<le> X * (1 + unit_roundoff) * unit_roundoff"
        by (intro mult_right_mono) simp_all
      ultimately show ?thesis by simp
    qed
    also have "\<dots> = ((1 + unit_roundoff) ^ 3 - 1) * (X / 100)"
      by (simp add: power3_eq_cube field_simps)
    finally have "\<bar>b - (s - a) * t / 100\<bar> \<le>
      ((1 + unit_roundoff) ^ 3 - 1) * \<bar>(s - a) * t / 100\<bar>"
      by (simp add: X_def)
    with sub ww w v(1) b(1) bb b(3) show ?thesis by simp
  qed
qed

lemma total_accuracy:
  assumes w: "round_double w = Num w" "\<bar>w - x\<bar> \<le> \<bar>x\<bar> * unit_roundoff" "\<bar>w\<bar> \<le> pow2 1000"
    and b: "round_double b = Num b" "\<bar>b\<bar> \<le> pow2 1000"
  shows "\<exists>c. fadd (Num w) (Num b) = Num c \<and>
    \<bar>c - (x + b)\<bar> \<le> unit_roundoff * \<bar>x + b\<bar> + (unit_roundoff + unit_roundoff ^ 2) * \<bar>x\<bar>"
proof -
  note u = unit_roundoff_bounds
  from w(3) b(2) have "\<bar>w + b\<bar> \<le> pow2 1001" by (simp add: pow2_high)
  from round_double_bounded [OF this round_double_pow2]
  obtain c where c: "round_double (w + b) = Num c" by auto
  from round_double_sum_error [OF w(1) b(1) c]
  have e: "\<bar>c - (w + b)\<bar> \<le> \<bar>w + b\<bar> * unit_roundoff" by (simp add: unit_roundoff_def)
  have "\<bar>w + b\<bar> \<le> \<bar>x + b\<bar> + \<bar>w - x\<bar>" by linarith
  with w(2) have "\<bar>w + b\<bar> \<le> \<bar>x + b\<bar> + \<bar>x\<bar> * unit_roundoff" by linarith
  with u have "\<bar>w + b\<bar> * unit_roundoff \<le> (\<bar>x + b\<bar> + \<bar>x\<bar> * unit_roundoff) * unit_roundoff"
    by (intro mult_right_mono) simp_all
  with e have "\<bar>c - (w + b)\<bar> \<le> (\<bar>x + b\<bar> + \<bar>x\<bar> * unit_roundoff) * unit_roundoff" by linarith
  moreover have "\<bar>c - (x + b)\<bar> \<le> \<bar>c - (w + b)\<bar> + \<bar>w - x\<bar>" by linarith
  ultimately have "\<bar>c - (x + b)\<bar> \<le>
    (\<bar>x + b\<bar> + \<bar>x\<bar> * unit_roundoff) * unit_roundoff + \<bar>x\<bar> * unit_roundoff"
    using w(2) by linarith
  also have "\<dots> = unit_roundoff * \<bar>x + b\<bar> + (unit_roundoff + unit_roundoff ^ 2) * \<bar>x\<bar>"
    by (simp add: power2_eq_square algebra_simps)
  finally show ?thesis using c by simp
qed

text \<open>
  C1, as it is worded: discountAmount = s * d / 100. For the subtotal 100, the discount
  of 7 percent and no tax the code returns the discount amount 7.000000000000001, the
  double 7881299347898369 / 2 ^ 50, where 100 * 7 / 100 is 7, in exact arithmetic and
  evaluated in doubles alike: the code divides the percentage by 100 first, and 0.07 is
  not a double.
\<close>

theorem calculateInvoiceTotal_counterexample:
  "discountAmount (calculateInvoiceTotal (Num 100) (Num 7) (Num 0)) =
     Num (7881299347898369 / 1125899906842624) \<and>
   (7881299347898369 / 1125899906842624 :: real) \<noteq> 100 * 7 / 100 \<and>
   fdiv (fmul (Num 100) (Num 7)) (Num 100) = Num 7"
  by (simp add: calculateInvoiceTotal_def calculateTaxAmount_def float_eval)

text \<open>
  C1, amended. The three results are computed in doubles, each operation rounding its
  exact result: discountAmount is (d / 100) * s, taxAmount is
  ((s - discountAmount) * t) / 100, taken on the discounted subtotal, and total is
  (s - discountAmount) + taxAmount. They are the values of the claim up to rounding.
  For finite s and d, with d and s * d in range (zero, or of a magnitude from 2 ^ - 1000
  to 2 ^ 1000), discountAmount is finite and differs from s * d / 100 by at most
  ((1 + u) ^ 2 - 1) times its magnitude, u = 2 ^ - 53. For finite s, t and
  discountAmount, with s - discountAmount and (s - discountAmount) * t in range,
  taxAmount and total are finite, taxAmount differs from
  (s - discountAmount) * t / 100 by at most ((1 + u) ^ 3 - 1) times its magnitude, and
  total differs from s - discountAmount + taxAmount by at most
  u * \<bar>s - discountAmount + taxAmount\<bar> + (u + u ^ 2) * \<bar>s - discountAmount\<bar>.
\<close>

theorem calculateInvoiceTotal_correct:
  "discountAmount (calculateInvoiceTotal s d t) = fmul (fdiv d (Num 100)) s \<and>
   taxAmount (calculateInvoiceTotal s d t) =
     fdiv (fmul (fsub s (discountAmount (calculateInvoiceTotal s d t))) t) (Num 100) \<and>
   total (calculateInvoiceTotal s d t) =
     fadd (fsub s (discountAmount (calculateInvoiceTotal s d t)))
       (taxAmount (calculateInvoiceTotal s d t)) \<and>
   (\<forall>s' d'. s = Num s' \<and> d = Num d' \<and> in_range d' \<and> in_range (s' * d') \<longrightarrow>
      (\<exists>a. discountAmount (calculateInvoiceTotal s d t) = Num a \<and>
         \<bar>a - s' * d' / 100\<bar> \<le> ((1 + unit_roundoff) ^ 2 - 1) * \<bar>s' * d' / 100\<bar>)) \<and>
   (\<forall>s' a t'. s = Num s' \<and> t = Num t' \<and> discountAmount (calculateInvoiceTotal s d t) = Num a \<and>
        in_range (s' - a) \<and> in_range ((s' - a) * t') \<longrightarrow>
      (\<exists>b c. taxAmount (calculateInvoiceTotal s d t) = Num b \<and>
         total (calculateInvoiceTotal s d t) = Num c \<and>
         \<bar>b - (s' - a) * t' / 100\<bar> \<le> ((1 + unit_roundoff) ^ 3 - 1) * \<bar>(s' - a) * t' / 100\<bar> \<and>
         \<bar>c - (s' - a + b)\<bar> \<le>
           unit_roundoff * \<bar>s' - a + b\<bar> + (unit_roundoff + unit_roundoff ^ 2) * \<bar>s' - a\<bar>))"
proof -
  let ?r = "calculateInvoiceTotal s d t"
  have da: "discountAmount ?r = fmul (fdiv d (Num 100)) s"
    by (simp add: calculateInvoiceTotal_def Let_def)
  have ta: "taxAmount ?r = fdiv (fmul (fsub s (discountAmount ?r)) t) (Num 100)"
    by (simp add: calculateInvoiceTotal_def calculateTaxAmount_def Let_def)
  have to: "total ?r = fadd (fsub s (discountAmount ?r)) (taxAmount ?r)"
    by (simp add: calculateInvoiceTotal_def calculateTaxAmount_def Let_def)
  have acc_d: "\<exists>a. discountAmount ?r = Num a \<and>
      \<bar>a - s' * d' / 100\<bar> \<le> ((1 + unit_roundoff) ^ 2 - 1) * \<bar>s' * d' / 100\<bar>"
    if "s = Num s'" "d = Num d'" "in_range d'" "in_range (s' * d')" for s' d'
  proof -
    from discount_accuracy [OF that(3,4)] obtain a where
      a: "fmul (fdiv (Num d') (Num 100)) (Num s') = Num a"
        "\<bar>a - s' * d' / 100\<bar> \<le> ((1 + unit_roundoff) ^ 2 - 1) * \<bar>s' * d' / 100\<bar>"
      by blast
    have "discountAmount ?r = Num a" using da that(1,2) a(1) by simp
    with a(2) show ?thesis by blast
  qed
  have acc_t: "\<exists>b c. taxAmount ?r = Num b \<and> total ?r = Num c \<and>
      \<bar>b - (s' - a) * t' / 100\<bar> \<le> ((1 + unit_roundoff) ^ 3 - 1) * \<bar>(s' - a) * t' / 100\<bar> \<and>
      \<bar>c - (s' - a + b)\<bar> \<le>
        unit_roundoff * \<bar>s' - a + b\<bar> + (unit_roundoff + unit_roundoff ^ 2) * \<bar>s' - a\<bar>"
    if h: "s = Num s'" "t = Num t'" "discountAmount ?r = Num a" "in_range (s' - a)"
      "in_range ((s' - a) * t')" for s' a t'
  proof -
    from tax_accuracy [OF h(4,5)] obtain w b where
      w: "fsub (Num s') (Num a) = Num w" "round_double w = Num w"
        "\<bar>w - (s' - a)\<bar> \<le> \<bar>s' - a\<bar> * unit_roundoff" "\<bar>w\<bar> \<le> pow2 1000"
      and b: "fdiv (fmul (Num w) (Num t')) (Num 100) = Num b" "round_double b = Num b"
        "\<bar>b\<bar> \<le> pow2 1000"
        "\<bar>b - (s' - a) * t' / 100\<bar> \<le> ((1 + unit_roundoff) ^ 3 - 1) * \<bar>(s' - a) * t' / 100\<bar>"
      by blast
    from total_accuracy [OF w(2,3,4) b(2,3)] obtain c where
      c: "fadd (Num w) (Num b) = Num c"
        "\<bar>c - (s' - a + b)\<bar> \<le>
          unit_roundoff * \<bar>s' - a + b\<bar> + (unit_roundoff + unit_roundoff ^ 2) * \<bar>s' - a\<bar>"
      by blast
    have "taxAmount ?r = Num b" using ta h(1,2,3) w(1) b(1) by simp
    moreover from this have "total ?r = Num c" using to h(1,3) w(1) c(1) by simp
    ultimately show ?thesis using b(4) c(2) by blast
  qed
  from da ta to acc_d acc_t show ?thesis by blast
qed

theorem calculateInvoiceTotal_correct_witness:
  "in_range 7 \<and> in_range (100 * 7) \<and>
   discountAmount (calculateInvoiceTotal (Num 100) (Num 7) (Num 10)) =
     Num (7881299347898369 / 1125899906842624) \<and>
   in_range (100 - 7881299347898369 / 1125899906842624) \<and>
   in_range ((100 - 7881299347898369 / 1125899906842624) * 10) \<and>
   (\<exists>a. discountAmount (calculateInvoiceTotal (Num 100) (Num 7) (Num 10)) = Num a \<and>
      \<bar>a - 100 * 7 / 100\<bar> \<le> ((1 + unit_roundoff) ^ 2 - 1) * \<bar>100 * 7 / 100\<bar>) \<and>
   (\<exists>b c. taxAmount (calculateInvoiceTotal (Num 100) (Num 7) (Num 10)) = Num b \<and>
      total (calculateInvoiceTotal (Num 100) (Num 7) (Num 10)) = Num c \<and>
      \<bar>b - (100 - 7881299347898369 / 1125899906842624) * 10 / 100\<bar> \<le>
        ((1 + unit_roundoff) ^ 3 - 1) * \<bar>(100 - 7881299347898369 / 1125899906842624) * 10 / 100\<bar> \<and>
      \<bar>c - (100 - 7881299347898369 / 1125899906842624 + b)\<bar> \<le>
        unit_roundoff * \<bar>100 - 7881299347898369 / 1125899906842624 + b\<bar> +
        (unit_roundoff + unit_roundoff ^ 2) * \<bar>100 - 7881299347898369 / 1125899906842624\<bar>)"
proof -
  have r: "in_range 7" "in_range (100 * 7)"
    "in_range (100 - 7881299347898369 / 1125899906842624)"
    "in_range ((100 - 7881299347898369 / 1125899906842624) * 10)"
    by (simp_all add: in_range_def pow2_def)
  have a: "discountAmount (calculateInvoiceTotal (Num 100) (Num 7) (Num 10)) =
      Num (7881299347898369 / 1125899906842624)"
    by (simp add: calculateInvoiceTotal_def calculateTaxAmount_def float_eval)
  from calculateInvoiceTotal_correct [of "Num 100" "Num 7" "Num 10"] r a show ?thesis
    by blast
qed

subsection \<open>The total of an item\<close>

lemma round_double_1: "round_double 1 = Num 1"
  using round_double_of_int [of 1] by simp

lemma pow2_eta: "pow2 (- 1075) \<le> unit_roundoff / 2" "pow2 (- 1075) \<le> pow2 (- 1000) / 4 * unit_roundoff"
proof -
  have "pow2 (- 1075) \<le> pow2 (- 54)" by (rule pow2_mono) simp
  also have "pow2 (- 54) = unit_roundoff / 2" by (simp add: pow2_def unit_roundoff_def)
  finally show "pow2 (- 1075) \<le> unit_roundoff / 2" .
  have "pow2 (- 1075) \<le> pow2 (- 1000 + (- 55))" by (rule pow2_mono) simp
  also have "\<dots> = pow2 (- 1000) * pow2 (- 55)" by (rule pow2_add)
  also have "pow2 (- 55) = unit_roundoff / 4" by (simp add: pow2_def unit_roundoff_def)
  finally show "pow2 (- 1075) \<le> pow2 (- 1000) / 4 * unit_roundoff" by simp
qed

text \<open>
  The line amount from the rounded product \<open>S\<close> of quantity and price and a discount
  percentage \<open>d\<close> from 0 to 100.
\<close>

lemma item_total_bounds:
  assumes S: "round_double S = Num S" "0 \<le> S" and d: "0 \<le> d" "d \<le> 100"
  shows "\<exists>f a r. fdiv (Num d) (Num 100) = Num f \<and> fmul (Num f) (Num S) = Num a \<and>
    fsub (Num S) (Num a) = Num r \<and> round_double r = Num r \<and>
    0 \<le> f \<and> f \<le> 1 \<and> 0 \<le> a \<and> a \<le> S \<and> 0 \<le> r \<and> r \<le> S \<and>
    \<bar>f - d / 100\<bar> \<le> unit_roundoff + pow2 (- 1075) \<and>
    \<bar>a - f * S\<bar> \<le> S * unit_roundoff + pow2 (- 1075) \<and>
    \<bar>r - (S - a)\<bar> \<le> S * unit_roundoff"
proof -
  note u = unit_roundoff_bounds
  from d have "0 \<le> d / 100" "d / 100 \<le> 1" by simp_all
  from round_double_below [OF this round_double_1]
  obtain f where f: "round_double (d / 100) = Num f" "0 \<le> f" "f \<le> 1" by auto
  from round_double_abs_error [OF f(1)] d
  have "\<bar>f - d / 100\<bar> \<le> d / 100 / 2 ^ 53 + pow2 (- 1075)" by simp
  also from d have "d / 100 / 2 ^ 53 \<le> unit_roundoff" by (simp add: unit_roundoff_def)
  finally have ef: "\<bar>f - d / 100\<bar> \<le> unit_roundoff + pow2 (- 1075)" by simp
  from f S(2) have fs: "0 \<le> f * S" "f * S \<le> S"
    by (simp_all add: mult_left_le_one_le)
  from round_double_below [OF this S(1)]
  obtain a where a: "round_double (f * S) = Num a" "0 \<le> a" "a \<le> S" by auto
  from round_double_abs_error [OF a(1)] fs
  have "\<bar>a - f * S\<bar> \<le> f * S / 2 ^ 53 + pow2 (- 1075)" by simp
  also from fs(2) have "f * S / 2 ^ 53 \<le> S * unit_roundoff"
    by (simp add: unit_roundoff_def divide_right_mono)
  finally have ea: "\<bar>a - f * S\<bar> \<le> S * unit_roundoff + pow2 (- 1075)" by simp
  from a have "0 \<le> S - a" "S - a \<le> S" by simp_all
  from round_double_below [OF this S(1)]
  obtain r where r: "round_double (S - a) = Num r" "0 \<le> r" "r \<le> S" by auto
  from round_double_idem [OF a(1)] have "round_double (- a) = Num (- a)"
    by (simp add: round_double_minus fneg_def)
  from round_double_sum_error [OF S(1) this] r(1) a
  have "\<bar>r - (S - a)\<bar> \<le> (S - a) / 2 ^ 53" by simp
  also from a(2) have "(S - a) / 2 ^ 53 \<le> S * unit_roundoff"
    by (simp add: unit_roundoff_def divide_right_mono)
  finally have er: "\<bar>r - (S - a)\<bar> \<le> S * unit_roundoff" .
  from f a r ef ea er round_double_idem [OF r(1)] show ?thesis
    by (simp add: fsub_def fneg_def)
qed

lemma item_total_accuracy:
  assumes S: "round_double S = Num S" "S = 0 \<or> pow2 (- 1000) / 2 \<le> S" "0 \<le> S"
    and d: "0 \<le> d" "d \<le> 100"
  shows "\<exists>f a r. fdiv (Num d) (Num 100) = Num f \<and> fmul (Num f) (Num S) = Num a \<and>
    fsub (Num S) (Num a) = Num r \<and> round_double r = Num r \<and> 0 \<le> r \<and> r \<le> S \<and>
    \<bar>r - S * (1 - d / 100)\<bar> \<le> 4 * unit_roundoff * S"
proof -
  note u = unit_roundoff_bounds
  from item_total_bounds [OF S(1,3) d] obtain f a r where
    v: "fdiv (Num d) (Num 100) = Num f" "fmul (Num f) (Num S) = Num a"
      "fsub (Num S) (Num a) = Num r" "round_double r = Num r" "0 \<le> r" "r \<le> S"
    and e: "\<bar>f - d / 100\<bar> \<le> unit_roundoff + pow2 (- 1075)"
      "\<bar>a - f * S\<bar> \<le> S * unit_roundoff + pow2 (- 1075)"
      "\<bar>r - (S - a)\<bar> \<le> S * unit_roundoff"
    by blast
  show ?thesis
  proof (cases "S = 0")
    case True
    with v show ?thesis by auto
  next
    case False
    with S(2) have low: "pow2 (- 1000) / 2 \<le> S" by simp
    have "\<bar>(f - d / 100) * S\<bar> = \<bar>f - d / 100\<bar> * S" using S(3) by (simp add: abs_mult)
    also from e(1) S(3) have "\<dots> \<le> (unit_roundoff + pow2 (- 1075)) * S"
      by (rule mult_right_mono)
    finally have e1: "\<bar>f * S - d / 100 * S\<bar> \<le> (unit_roundoff + pow2 (- 1075)) * S"
      by (simp add: left_diff_distrib)
    have "pow2 (- 1075) * S \<le> unit_roundoff / 2 * S"
      using pow2_eta(1) S(3) by (rule mult_right_mono)
    moreover have "pow2 (- 1075) \<le> unit_roundoff / 2 * S"
    proof -
      note pow2_eta(2)
      also have "pow2 (- 1000) / 4 * unit_roundoff = pow2 (- 1000) / 2 * (unit_roundoff / 2)"
        by simp
      also from low u have "\<dots> \<le> S * (unit_roundoff / 2)"
        by (intro mult_right_mono) simp_all
      finally show ?thesis by (simp add: ac_simps)
    qed
    moreover have "\<bar>r - S * (1 - d / 100)\<bar> \<le>
      \<bar>r - (S - a)\<bar> + \<bar>a - f * S\<bar> + \<bar>f * S - d / 100 * S\<bar>"
      by (simp add: algebra_simps)
    ultimately have "\<bar>r - S * (1 - d / 100)\<bar> \<le> 4 * unit_roundoff * S"
      using e(2,3) e1 by (simp add: algebra_simps)
    with v show ?thesis by blast
  qed
qed

text \<open>
  C2, as it is worded: the item total is quantity * price * (1 - discount / 100) and is
  at least 0. For the quantity 1, the price 0.1 and the discount of 10 percent the code
  returns 0.09, the double 3242591731706757 / 2 ^ 55; that is not the exact product of
  the price with 0.9, and the formula evaluated in doubles gives 0.09000000000000001.
  For the quantity 2 and the price 2 ^ 1023 the product overflows and the code returns
  NaN, which is not at least 0.
\<close>

theorem calculateItemTotal_counterexample:
  "is_double (price tenth) \<and>
   calculateItemTotal (tenth\<lparr>discount := Some (Num 10)\<rparr>) =
     Num (3242591731706757 / 36028797018963968) \<and>
   (3242591731706757 / 36028797018963968 :: real) \<noteq>
     1 * (3602879701896397 / 36028797018963968) * (1 - 10 / 100) \<and>
   fmul (fmul (Num 1) (price tenth)) (fsub (Num 1) (fdiv (Num 10) (Num 100))) =
     Num (6485183463413515 / 72057594037927936) \<and>
   is_double (price bulk) \<and> calculateItemTotal bulk = NaN \<and> \<not> fle (Num 0) NaN"
  by (simp add: tenth_def bulk_def is_double_def calculateItemTotal_def discount_or_0_def
      or_0_def fsub_def fneg_def signed_infinity_def is_positive_def float_eval)

text \<open>
  C2, amended. For an item with a finite quantity q of at least 1, a finite price p of
  at least 0, a discount that is absent (read as d = 0) or a finite d from 0 to 100, and
  q * p in range (zero, or from 2 ^ - 1000 to 2 ^ 1000), the item total is
  S - (d / 100) * S computed in doubles, S being the rounded product of quantity and
  price. S is finite, and the item total is a finite double r with 0 \<le> r \<le> S, with
  r = S when d = 0 and r = 0 when d = 100, that differs from q * p * (1 - d / 100) by at
  most 6 * u * q * p, u = 2 ^ - 53.
\<close>

theorem calculateItemTotal_correct:
  assumes q: "quantity item = Num q" "1 \<le> q" and p: "price item = Num p" "0 \<le> p"
    and d: "discount item = None \<and> d = 0 \<or> discount item = Some (Num d) \<and> 0 \<le> d \<and> d \<le> 100"
    and qp: "in_range (q * p)"
  shows "calculateItemTotal item =
      fsub (fmul (Num q) (Num p)) (fmul (fdiv (Num d) (Num 100)) (fmul (Num q) (Num p))) \<and>
    (\<exists>S r. fmul (Num q) (Num p) = Num S \<and> calculateItemTotal item = Num r \<and>
       round_double r = Num r \<and> 0 \<le> r \<and> r \<le> S \<and>
       (d = 0 \<longrightarrow> r = S) \<and> (d = 100 \<longrightarrow> r = 0) \<and>
       \<bar>r - q * p * (1 - d / 100)\<bar> \<le> 6 * unit_roundoff * (q * p))"
proof -
  note u = unit_roundoff_bounds
  from d have dv: "discount_or_0 (discount item) = Num d" and d': "0 \<le> d" "d \<le> 100"
    by (auto simp: discount_or_0_def or_0_def)
  have tot: "calculateItemTotal item =
      fsub (fmul (Num q) (Num p)) (fmul (fdiv (Num d) (Num 100)) (fmul (Num q) (Num p)))"
    by (simp only: calculateItemTotal_def Let_def q(1) p(1) dv)
  from q(2) p(2) have qp0: "0 \<le> q * p" by simp
  have "\<exists>S. round_double (q * p) = Num S \<and> round_double S = Num S \<and> 0 \<le> S \<and>
      (S = 0 \<or> pow2 (- 1000) / 2 \<le> S) \<and> \<bar>S - q * p\<bar> \<le> q * p * unit_roundoff"
    using qp
  proof (cases rule: in_range_cases)
    case zero
    have "round_double 0 = Num 0 \<and> round_double 0 = Num 0 \<and> (0::real) \<le> 0 \<and>
      ((0::real) = 0 \<or> pow2 (- 1000) / 2 \<le> 0) \<and> \<bar>0 - 0\<bar> \<le> 0 * unit_roundoff"
      by (simp add: round_double_0)
    then show ?thesis unfolding zero by (rule exI)
  next
    case range
    have P: "0 < pow2 (- 1022)" by (rule pow2_pos)
    from range(2) P have "pow2 (- 1022) \<le> \<bar>q * p\<bar>" by (simp add: pow2_low)
    from round_double_normal_u [OF this range(3)] qp0
    obtain S where S: "round_double (q * p) = Num S" "\<bar>S - q * p\<bar> \<le> q * p * unit_roundoff"
      by auto
    have "\<bar>q * p\<bar> * (1 / 2) \<le> \<bar>q * p\<bar> * (1 - unit_roundoff)"
      using u by (intro mult_left_mono) simp_all
    with rel_bounds(2) [of S "q * p" unit_roundoff] S(2) qp0 range(2)
    have "pow2 (- 1000) / 2 \<le> \<bar>S\<bar>" by simp
    moreover from round_double_nonneg(2) [OF qp0 S(1)] have "0 \<le> S" .
    ultimately show ?thesis using S round_double_idem [OF S(1)] by auto
  qed
  then obtain S where S: "round_double (q * p) = Num S" "round_double S = Num S" "0 \<le> S"
    "S = 0 \<or> pow2 (- 1000) / 2 \<le> S" "\<bar>S - q * p\<bar> \<le> q * p * unit_roundoff" by blast
  from item_total_accuracy [OF S(2,4,3) d'] obtain f a r where
    v: "fdiv (Num d) (Num 100) = Num f" "fmul (Num f) (Num S) = Num a"
      "fsub (Num S) (Num a) = Num r" "0 \<le> r" "r \<le> S"
      "\<bar>r - S * (1 - d / 100)\<bar> \<le> 4 * unit_roundoff * S" "round_double r = Num r"
    by blast
  have mul: "fmul (Num q) (Num p) = Num S" using S(1) by simp
  have res: "calculateItemTotal item = Num r" by (simp only: tot mul v(1,2,3))
  have zero: "r = S" if "d = 0"
  proof -
    from that v(1) have "f = 0" by (simp add: round_double_0)
    with v(2) have "a = 0" by (simp add: round_double_0)
    with v(3) S(2) show ?thesis by (simp add: fsub_def fneg_def)
  qed
  have full: "r = 0" if "d = 100"
  proof -
    from that v(1) have "f = 1" by (simp add: round_double_1)
    with v(2) S(2) have "a = S" by simp
    with v(3) show ?thesis by (simp add: fsub_def fneg_def round_double_0)
  qed
  have acc: "\<bar>r - q * p * (1 - d / 100)\<bar> \<le> 6 * unit_roundoff * (q * p)"
  proof -
    define c where "c = 1 - d / 100"
    from d' have c: "0 \<le> c" "c \<le> 1" by (simp_all add: c_def)
    have "\<bar>S * c - q * p * c\<bar> = \<bar>S - q * p\<bar> * c"
      using c(1) by (simp add: abs_mult flip: left_diff_distrib)
    also have "\<dots> \<le> \<bar>S - q * p\<bar>"
      using c(2) by (simp add: mult_left_le)
    finally have 1: "\<bar>S * c - q * p * c\<bar> \<le> q * p * unit_roundoff" using S(5) by simp
    from rel_bounds(1) [of S "q * p" unit_roundoff] S(3,5) qp0
    have "S \<le> q * p * (1 + unit_roundoff)" by simp
    also have "\<dots> \<le> q * p * (5 / 4)"
      using u qp0 by (intro mult_left_mono) (simp_all add: unit_roundoff_def)
    finally have "4 * unit_roundoff * S \<le> 4 * unit_roundoff * (q * p * (5 / 4))"
      using u by (intro mult_left_mono) simp_all
    also have "\<dots> = 5 * unit_roundoff * (q * p)" by simp
    finally have "4 * unit_roundoff * S \<le> 5 * unit_roundoff * (q * p)" .
    with v(6) have 2: "\<bar>r - S * c\<bar> \<le> 5 * unit_roundoff * (q * p)"
      unfolding c_def by (rule order_trans)
    have "\<bar>r - q * p * c\<bar> \<le> \<bar>r - S * c\<bar> + \<bar>S * c - q * p * c\<bar>" by simp
    also from 2 1 have "\<dots> \<le> 5 * unit_roundoff * (q * p) + q * p * unit_roundoff"
      by (rule add_mono)
    also have "\<dots> = 6 * unit_roundoff * (q * p)" by simp
    finally show ?thesis by (simp only: c_def)
  qed
  from tot mul res v(4,5,7) zero full acc show ?thesis by blast
qed

theorem calculateItemTotal_correct_witness:
  "quantity gadget = Num 2 \<and> (1::real) \<le> 2 \<and> price gadget = Num 100 \<and> (0::real) \<le> 100 \<and>
   discount gadget = Some (Num 10) \<and> (0::real) \<le> 10 \<and> (10::real) \<le> 100 \<and> in_range (2 * 100) \<and>
   calculateItemTotal gadget = Num 180 \<and>
   (\<exists>S r. fmul (Num 2) (Num 100) = Num S \<and> calculateItemTotal gadget = Num r \<and>
      round_double r = Num r \<and> 0 \<le> r \<and> r \<le> S \<and>
      \<bar>r - 2 * 100 * (1 - 10 / 100)\<bar> \<le> 6 * unit_roundoff * (2 * 100))"
proof -
  have h: "quantity gadget = Num 2" "(1::real) \<le> 2" "price gadget = Num 100" "(0::real) \<le> 100"
    "discount gadget = None \<and> (10::real) = 0 \<or>
     discount gadget = Some (Num 10) \<and> (0::real) \<le> 10 \<and> (10::real) \<le> 100"
    "in_range (2 * 100)"
    by (simp_all add: gadget_def in_range_def pow2_def)
  have v: "calculateItemTotal gadget = Num 180"
    by (simp add: gadget_def calculateItemTotal_def discount_or_0_def or_0_def fsub_def fneg_def
        float_eval)
  from calculateItemTotal_correct [OF h] obtain S r where
    "fmul (Num 2) (Num 100) = Num S" "calculateItemTotal gadget = Num r"
    "round_double r = Num r" "0 \<le> r" "r \<le> S"
    "\<bar>r - 2 * 100 * (1 - 10 / 100)\<bar> \<le> 6 * unit_roundoff * (2 * 100)"
    by blast
  then have "\<exists>S r. fmul (Num 2) (Num 100) = Num S \<and> calculateItemTotal gadget = Num r \<and>
      round_double r = Num r \<and> 0 \<le> r \<and> r \<le> S \<and>
      \<bar>r - 2 * 100 * (1 - 10 / 100)\<bar> \<le> 6 * unit_roundoff * (2 * 100)"
    by blast
  with h(1,2,3,4,6) v show ?thesis by (simp add: gadget_def)
qed

subsection \<open>The subtotal of an invoice\<close>

lemma calculateInvoiceSubtotal_foldl:
  "calculateInvoiceSubtotal items = foldl fadd (Num 0) (map calculateItemTotal items)"
  by (simp add: calculateInvoiceSubtotal_def foldl_map)

lemma whole_iff: "whole a \<longleftrightarrow> a = Num (of_int (whole_part a))"
  by (cases a) (simp_all add: whole_def whole_part_def)

lemma foldl_fadd_whole:
  assumes "\<forall>t\<in>set ts. whole t" "\<bar>k\<bar> + (\<Sum>t\<leftarrow>ts. \<bar>whole_part t\<bar>) \<le> 2 ^ 53"
  shows "foldl fadd (Num (of_int k)) ts = Num (of_int (k + (\<Sum>t\<leftarrow>ts. whole_part t)))"
  using assms
proof (induction ts arbitrary: k)
  case Nil
  then show ?case by simp
next
  case (Cons t ts)
  from Cons.prems(1) have t: "t = Num (of_int (whole_part t))" by (simp add: whole_iff [symmetric])
  have "(0::int) \<le> (\<Sum>t\<leftarrow>ts. \<bar>whole_part t\<bar>)" by (rule sum_list_nonneg) auto
  with Cons.prems(2) have "\<bar>k + whole_part t\<bar> \<le> 2 ^ 53" by simp
  then have "round_double (of_int (k + whole_part t)) = Num (of_int (k + whole_part t))"
    by (rule round_double_of_int)
  then have step: "fadd (Num (of_int k)) t = Num (of_int (k + whole_part t))"
    by (subst t) simp
  from Cons.prems(2) have "\<bar>k + whole_part t\<bar> + (\<Sum>t\<leftarrow>ts. \<bar>whole_part t\<bar>) \<le> 2 ^ 53" by simp
  with Cons.IH [of "k + whole_part t"] Cons.prems(1) show ?case
    by (simp add: step add.assoc)
qed

lemma sum_list_map_mset:
  fixes f :: "'a \<Rightarrow> int"
  assumes "mset xs = mset ys"
  shows "(\<Sum>x\<leftarrow>xs. f x) = (\<Sum>x\<leftarrow>ys. f x)"
proof -
  have "(\<Sum>x\<leftarrow>xs. f x) = sum_mset (image_mset f (mset xs))"
    by (simp flip: sum_mset_sum_list)
  also have "\<dots> = sum_mset (image_mset f (mset ys))" by (simp only: assms)
  also have "\<dots> = (\<Sum>x\<leftarrow>ys. f x)" by (simp flip: sum_mset_sum_list)
  finally show ?thesis .
qed

lemma calculateInvoiceSubtotal_whole:
  assumes "\<forall>item\<in>set items. whole (calculateItemTotal item)"
    "(\<Sum>item\<leftarrow>items. \<bar>whole_part (calculateItemTotal item)\<bar>) \<le> 2 ^ 53"
  shows "calculateInvoiceSubtotal items =
    Num (of_int (\<Sum>item\<leftarrow>items. whole_part (calculateItemTotal item)))"
proof -
  from assms foldl_fadd_whole [of "map calculateItemTotal items" 0] show ?thesis
    by (simp add: calculateInvoiceSubtotal_foldl comp_def)
qed

lemma fadd_Num:
  assumes "fadd a b = Num r"
  obtains x y where "a = Num x" "b = Num y" "round_double (x + y) = Num r"
  using assms by (cases a; cases b) simp_all

lemma foldl_fadd_Num:
  assumes "foldl fadd a ts = Num c"
  shows "\<exists>x. a = Num x"
  using assms
proof (induction ts arbitrary: a)
  case Nil
  then show ?case by simp
next
  case (Cons t ts)
  from Cons.prems have "foldl fadd (fadd a t) ts = Num c" by simp
  from Cons.IH [OF this] obtain r where "fadd a t = Num r" ..
  then show ?case by (rule fadd_Num) simp
qed

lemma is_double_calculateItemTotal: "is_double (calculateItemTotal item)"
proof (cases "calculateItemTotal item")
  case (Num r)
  then obtain a b where "fadd a b = Num r"
    by (simp add: calculateItemTotal_def fsub_def Let_def)
  then have "round_double r = Num r"
    by (rule fadd_Num) (rule round_double_idem)
  with Num show ?thesis by (simp add: is_double_def)
qed (simp_all add: is_double_def)

lemma foldl_fadd_error:
  assumes "round_double a = Num a" "\<forall>t\<in>set ts. is_double t" "foldl fadd (Num a) ts = Num c"
  shows "\<exists>xs. ts = map Num xs \<and>
    \<bar>c - (a + sum_list xs)\<bar> \<le>
      ((1 + unit_roundoff) ^ length ts - 1) * (\<bar>a\<bar> + (\<Sum>x\<leftarrow>xs. \<bar>x\<bar>))"
  using assms
proof (induction ts arbitrary: a)
  case Nil
  then show ?case by simp
next
  case (Cons t ts)
  note u = unit_roundoff_bounds
  define n where "n = length ts"
  define U where "U = (1 + unit_roundoff) ^ n"
  have U: "1 \<le> U" unfolding U_def using u by (intro one_le_power) simp
  from Cons.prems(3) have f: "foldl fadd (fadd (Num a) t) ts = Num c" by simp
  from foldl_fadd_Num [OF f] obtain a' where a': "fadd (Num a) t = Num a'" ..
  then obtain y where t: "t = Num y" and r: "round_double (a + y) = Num a'"
    by (rule fadd_Num) simp
  from Cons.prems(2) t have y: "round_double y = Num y" by (simp add: is_double_def)
  from round_double_sum_error [OF Cons.prems(1) y r]
  have e1: "\<bar>a' - (a + y)\<bar> \<le> \<bar>a + y\<bar> * unit_roundoff" by (simp add: unit_roundoff_def)
  from Cons.prems(2) have d: "\<forall>t\<in>set ts. is_double t" by simp
  from f a' have "foldl fadd (Num a') ts = Num c" by simp
  from Cons.IH [OF round_double_idem [OF r] d this] obtain xs where
    xs: "ts = map Num xs"
    and e2: "\<bar>c - (a' + sum_list xs)\<bar> \<le> (U - 1) * (\<bar>a'\<bar> + (\<Sum>x\<leftarrow>xs. \<bar>x\<bar>))"
    unfolding U_def n_def by blast
  define A where "A = (\<Sum>x\<leftarrow>xs. \<bar>x\<bar>)"
  define B where "B = \<bar>a\<bar> + \<bar>y\<bar> + A"
  have A: "0 \<le> A" unfolding A_def by (rule sum_list_nonneg) auto
  have ay: "\<bar>a + y\<bar> \<le> \<bar>a\<bar> + \<bar>y\<bar>" by simp
  from rel_bounds(1) [OF e1] have "\<bar>a'\<bar> \<le> \<bar>a + y\<bar> * (1 + unit_roundoff)" .
  also from ay u have "\<dots> \<le> (\<bar>a\<bar> + \<bar>y\<bar>) * (1 + unit_roundoff)"
    by (intro mult_right_mono) simp_all
  finally have "\<bar>a'\<bar> \<le> (\<bar>a\<bar> + \<bar>y\<bar>) * (1 + unit_roundoff)" .
  moreover from A u have "0 \<le> A * unit_roundoff" by simp
  then have "A \<le> A * (1 + unit_roundoff)" by (simp add: algebra_simps)
  ultimately have "\<bar>a'\<bar> + A \<le> (\<bar>a\<bar> + \<bar>y\<bar>) * (1 + unit_roundoff) + A * (1 + unit_roundoff)"
    by (rule add_mono)
  then have b1: "\<bar>a'\<bar> + A \<le> B * (1 + unit_roundoff)"
    by (simp add: B_def algebra_simps)
  from U have "(U - 1) * (\<bar>a'\<bar> + A) \<le> (U - 1) * (B * (1 + unit_roundoff))"
    using b1 by (intro mult_left_mono) simp_all
  with e2 have e2': "\<bar>c - (a' + sum_list xs)\<bar> \<le> (U - 1) * (B * (1 + unit_roundoff))"
    unfolding A_def by (rule order_trans)
  from ay u have "\<bar>a + y\<bar> * unit_roundoff \<le> (\<bar>a\<bar> + \<bar>y\<bar>) * unit_roundoff"
    by (intro mult_right_mono) simp_all
  also from A u have "\<dots> \<le> B * unit_roundoff"
    unfolding B_def by (intro mult_right_mono) simp_all
  finally have e1': "\<bar>a' - (a + y)\<bar> \<le> B * unit_roundoff" using e1 by simp
  have "\<bar>c - (a + (y + sum_list xs))\<bar> \<le> \<bar>c - (a' + sum_list xs)\<bar> + \<bar>a' - (a + y)\<bar>"
    by simp
  also from e2' e1' have "\<dots> \<le> (U - 1) * (B * (1 + unit_roundoff)) + B * unit_roundoff"
    by (rule add_mono)
  also have "\<dots> = ((1 + unit_roundoff) * U - 1) * B"
    by (simp add: algebra_simps)
  finally have bound: "\<bar>c - (a + sum_list (y # xs))\<bar> \<le>
      ((1 + unit_roundoff) ^ length (t # ts) - 1) * (\<bar>a\<bar> + (\<Sum>x\<leftarrow>y # xs. \<bar>x\<bar>))"
    by (simp add: U_def n_def B_def A_def add.assoc)
  have "t # ts = map Num (y # xs)" by (simp add: t xs)
  with bound show ?case by (intro exI [of _ "y # xs"] conjI)
qed

lemma calculateInvoiceSubtotal_error:
  assumes "calculateInvoiceSubtotal items = Num c"
  shows "\<exists>xs. map calculateItemTotal items = map Num xs \<and>
    \<bar>c - sum_list xs\<bar> \<le> ((1 + unit_roundoff) ^ length items - 1) * (\<Sum>x\<leftarrow>xs. \<bar>x\<bar>)"
proof -
  have "\<forall>t\<in>set (map calculateItemTotal items). is_double t"
    by (simp add: is_double_calculateItemTotal)
  from foldl_fadd_error [OF round_double_0 this] assms show ?thesis
    by (simp add: calculateInvoiceSubtotal_foldl)
qed

text \<open>
  C3, as it is worded: the subtotal is the same for every reordering of the items.
  Three items of quantity 1 with the prices 0.1, 0.2 and 0.3 have these prices as their
  totals; in this order the subtotal is 0.6000000000000001, the double
  1351079888211149 / 2 ^ 51, and in the reverse order it is 0.6, the double
  5404319552844595 / 2 ^ 53.
\<close>

theorem calculateInvoiceSubtotal_counterexample:
  "mset [three_tenths, fifth, tenth] = mset [tenth, fifth, three_tenths] \<and>
   list_all (\<lambda>item. is_double (price item)) [tenth, fifth, three_tenths] \<and>
   map calculateItemTotal [tenth, fifth, three_tenths] =
     [Num (3602879701896397 / 36028797018963968), Num (3602879701896397 / 18014398509481984),
      Num (5404319552844595 / 18014398509481984)] \<and>
   calculateInvoiceSubtotal [tenth, fifth, three_tenths] =
     Num (1351079888211149 / 2251799813685248) \<and>
   calculateInvoiceSubtotal [three_tenths, fifth, tenth] =
     Num (5404319552844595 / 9007199254740992) \<and>
   calculateInvoiceSubtotal [three_tenths, fifth, tenth] \<noteq>
     calculateInvoiceSubtotal [tenth, fifth, three_tenths]"
proof -
  have t: "calculateItemTotal tenth = Num (3602879701896397 / 36028797018963968)"
    "calculateItemTotal fifth = Num (3602879701896397 / 18014398509481984)"
    "calculateItemTotal three_tenths = Num (5404319552844595 / 18014398509481984)"
    by (simp_all add: tenth_def fifth_def three_tenths_def calculateItemTotal_def discount_or_0_def
        fsub_def fneg_def float_eval)
  have d: "list_all (\<lambda>item. is_double (price item)) [tenth, fifth, three_tenths]"
    by (simp add: tenth_def fifth_def three_tenths_def is_double_def float_eval)
  have a: "calculateInvoiceSubtotal [tenth, fifth, three_tenths] =
      Num (1351079888211149 / 2251799813685248)"
    by (simp add: calculateInvoiceSubtotal_def t float_eval)
  have b: "calculateInvoiceSubtotal [three_tenths, fifth, tenth] =
      Num (5404319552844595 / 9007199254740992)"
    by (simp add: calculateInvoiceSubtotal_def t float_eval)
  have m: "mset [three_tenths, fifth, tenth] = mset [tenth, fifth, three_tenths]"
    by (simp add: add.commute)
  from t d a b m show ?thesis by simp
qed

text \<open>
  C3, amended. The subtotal is the sum of the item totals taken from left to right in
  doubles, from 0 on, each addition rounding. When it is finite, so is every item total,
  and it differs from their exact sum by at most ((1 + u) ^ n - 1) times the sum of
  their magnitudes, n the number of items and u = 2 ^ - 53. When every item total is a
  whole number and the magnitudes of the item totals add up to at most 2 ^ 53, no
  addition rounds: the subtotal is the exact sum of the item totals, and it is the same
  for every reordering of the list.
\<close>

theorem calculateInvoiceSubtotal_correct:
  "calculateInvoiceSubtotal items = foldl fadd (Num 0) (map calculateItemTotal items) \<and>
   (\<forall>c. calculateInvoiceSubtotal items = Num c \<longrightarrow>
      (\<exists>xs. map calculateItemTotal items = map Num xs \<and>
         \<bar>c - sum_list xs\<bar> \<le>
           ((1 + unit_roundoff) ^ length items - 1) * (\<Sum>x\<leftarrow>xs. \<bar>x\<bar>))) \<and>
   ((\<forall>item\<in>set items. whole (calculateItemTotal item)) \<and>
    (\<Sum>item\<leftarrow>items. \<bar>whole_part (calculateItemTotal item)\<bar>) \<le> 2 ^ 53 \<longrightarrow>
      calculateInvoiceSubtotal items =
        Num (of_int (\<Sum>item\<leftarrow>items. whole_part (calculateItemTotal item))) \<and>
      (\<forall>items'. mset items' = mset items \<longrightarrow>
         calculateInvoiceSubtotal items' = calculateInvoiceSubtotal items))"
proof (intro conjI impI allI)
  show "calculateInvoiceSubtotal items = foldl fadd (Num 0) (map calculateItemTotal items)"
    by (rule calculateInvoiceSubtotal_foldl)
next
  fix c
  assume "calculateInvoiceSubtotal items = Num c"
  then show "\<exists>xs. map calculateItemTotal items = map Num xs \<and>
      \<bar>c - sum_list xs\<bar> \<le> ((1 + unit_roundoff) ^ length items - 1) * (\<Sum>x\<leftarrow>xs. \<bar>x\<bar>)"
    by (rule calculateInvoiceSubtotal_error)
next
  assume h: "(\<forall>item\<in>set items. whole (calculateItemTotal item)) \<and>
    (\<Sum>item\<leftarrow>items. \<bar>whole_part (calculateItemTotal item)\<bar>) \<le> 2 ^ 53"
  then show "calculateInvoiceSubtotal items =
      Num (of_int (\<Sum>item\<leftarrow>items. whole_part (calculateItemTotal item)))"
    by (simp add: calculateInvoiceSubtotal_whole)
next
  fix items'
  assume h: "(\<forall>item\<in>set items. whole (calculateItemTotal item)) \<and>
    (\<Sum>item\<leftarrow>items. \<bar>whole_part (calculateItemTotal item)\<bar>) \<le> 2 ^ 53"
    and m: "mset items' = mset items"
  from m have s: "set items' = set items" by (rule mset_eq_setD)
  note a = sum_list_map_mset [OF m, of "\<lambda>item. \<bar>whole_part (calculateItemTotal item)\<bar>"]
  note b = sum_list_map_mset [OF m, of "\<lambda>item. whole_part (calculateItemTotal item)"]
  from h have "calculateInvoiceSubtotal items' =
      Num (of_int (\<Sum>item\<leftarrow>items'. whole_part (calculateItemTotal item)))"
    by (intro calculateInvoiceSubtotal_whole) (simp_all add: s a)
  with h show "calculateInvoiceSubtotal items' = calculateInvoiceSubtotal items"
    by (simp add: calculateInvoiceSubtotal_whole b)
qed

theorem calculateInvoiceSubtotal_correct_witness:
  "whole (calculateItemTotal gadget) \<and> whole (calculateItemTotal gizmo) \<and>
   (\<Sum>item\<leftarrow>[gadget, gizmo]. \<bar>whole_part (calculateItemTotal item)\<bar>) \<le> 2 ^ 53 \<and>
   mset [gizmo, gadget] = mset [gadget, gizmo] \<and>
   map calculateItemTotal [gadget, gizmo] = [Num 180, Num 20] \<and>
   calculateInvoiceSubtotal [gadget, gizmo] = Num 200 \<and>
   calculateInvoiceSubtotal [gizmo, gadget] = calculateInvoiceSubtotal [gadget, gizmo] \<and>
   calculateInvoiceSubtotal [tenth, fifth, three_tenths] =
     Num (1351079888211149 / 2251799813685248) \<and>
   (\<exists>xs. map calculateItemTotal [tenth, fifth, three_tenths] = map Num xs \<and>
      \<bar>1351079888211149 / 2251799813685248 - sum_list xs\<bar> \<le>
        ((1 + unit_roundoff) ^ length [tenth, fifth, three_tenths] - 1) * (\<Sum>x\<leftarrow>xs. \<bar>x\<bar>))"
proof -
  have t: "calculateItemTotal gadget = Num 180" "calculateItemTotal gizmo = Num 20"
    by (simp_all add: gadget_def gizmo_def calculateItemTotal_def discount_or_0_def or_0_def
        fsub_def fneg_def float_eval)
  have h: "\<forall>item\<in>set [gadget, gizmo]. whole (calculateItemTotal item)"
    "(\<Sum>item\<leftarrow>[gadget, gizmo]. \<bar>whole_part (calculateItemTotal item)\<bar>) \<le> 2 ^ 53"
    by (simp_all add: t whole_def whole_part_def)
  then have h': "whole (calculateItemTotal gadget)" "whole (calculateItemTotal gizmo)"
    by simp_all
  have m: "mset [gizmo, gadget] = mset [gadget, gizmo]" by (simp add: add.commute)
  from calculateInvoiceSubtotal_correct [of "[gadget, gizmo]"] h m
  have "calculateInvoiceSubtotal [gadget, gizmo] =
      Num (of_int (\<Sum>item\<leftarrow>[gadget, gizmo]. whole_part (calculateItemTotal item)))"
    and "calculateInvoiceSubtotal [gizmo, gadget] = calculateInvoiceSubtotal [gadget, gizmo]"
    by blast+
  then have 1: "calculateInvoiceSubtotal [gadget, gizmo] = Num 200"
    "calculateInvoiceSubtotal [gizmo, gadget] = calculateInvoiceSubtotal [gadget, gizmo]"
    by (simp_all add: t whole_part_def)
  have s: "calculateInvoiceSubtotal [tenth, fifth, three_tenths] =
      Num (1351079888211149 / 2251799813685248)"
    by (simp add: calculateInvoiceSubtotal_def tenth_def fifth_def three_tenths_def
        calculateItemTotal_def discount_or_0_def fsub_def fneg_def float_eval)
  from calculateInvoiceSubtotal_correct [of "[tenth, fifth, three_tenths]"] s
  have 2: "\<exists>xs. map calculateItemTotal [tenth, fifth, three_tenths] = map Num xs \<and>
      \<bar>1351079888211149 / 2251799813685248 - sum_list xs\<bar> \<le>
        ((1 + unit_roundoff) ^ length [tenth, fifth, three_tenths] - 1) * (\<Sum>x\<leftarrow>xs. \<bar>x\<bar>)"
    by blast
  from h' h(2) m t 1 s 2 show ?thesis by simp
qed

section \<open>Properties of the record manager\<close>

subsection \<open>Digit strings\<close>













subsection \<open>Invoice numbers\<close>

lemma reply_env1: "reply env1 k = None"
  by (simp add: env1_def)








subsection \<open>Filtering by status\<close>

lemma status_str_inject: "status_str a = status_str b \<longleftrightarrow> a = b"
  by (cases a; cases b) simp_all

text \<open>
  C9. getInvoicesByStatus gives exactly the invoices of the list whose stored status is
  the one asked for, in the order of the list; for overdue these are the invoices stored
  as overdue, whatever their due dates are. It is a function of the list and writes
  nothing.
\<close>

theorem getInvoicesByStatus_correct:
  "getInvoicesByStatus s st =
     filter (\<lambda>invoice. \<exists>v. status invoice = Some v \<and> status_str v = s) (invoices st) \<and>
   getInvoicesByStatus (status_str v) st = filter (\<lambda>invoice. status invoice = Some v) (invoices st) \<and>
   getInvoicesByStatus ''overdue'' st = filter (\<lambda>invoice. status invoice = Some Overdue) (invoices st) \<and>
   getInvoicesByStatus s (st\<lparr>invoices := map (\<lambda>invoice. invoice\<lparr>due_date := f invoice\<rparr>) (invoices st)\<rparr>) =
     map (\<lambda>invoice. invoice\<lparr>due_date := f invoice\<rparr>) (getInvoicesByStatus s st)"
proof -
  have 1: "getInvoicesByStatus s st =
     filter (\<lambda>invoice. \<exists>v. status invoice = Some v \<and> status_str v = s) (invoices st)" for s
    unfolding getInvoicesByStatus_def
    by (rule filter_cong) (auto split: option.splits)
  have 2: "getInvoicesByStatus (status_str v) st =
       filter (\<lambda>invoice. status invoice = Some v) (invoices st)" for v
    unfolding 1 by (rule filter_cong) (auto simp: status_str_inject)
  have 3: "getInvoicesByStatus s (st\<lparr>invoices := map (\<lambda>invoice. invoice\<lparr>due_date := f invoice\<rparr>) (invoices st)\<rparr>) =
     map (\<lambda>invoice. invoice\<lparr>due_date := f invoice\<rparr>) (getInvoicesByStatus s st)"
    by (simp add: getInvoicesByStatus_def filter_map o_def)
  from 1 [of s] 2 [of v] 2 [of Overdue] 3 show ?thesis by simp
qed

subsection \<open>Updating invoices\<close>

lemma apply_update_status_only:
  "apply_update (no_update\<lparr>u_status := Some s\<rparr>) r = r\<lparr>status := Some s\<rparr>"
  by (simp add: apply_update_def no_update_def patched_def patched_opt_def)

lemma apply_update_send:
  "apply_update (no_update\<lparr>u_status := Some Sent, u_payment_link := Some (Some link)\<rparr>) r =
   r\<lparr>status := Some Sent, payment_link := Some link\<rparr>"
  by (simp add: apply_update_def no_update_def patched_def patched_opt_def)

lemma inv_id_apply_update: "inv_id (apply_update p r) = inv_id r"
  by (simp add: apply_update_def)

lemma user_id_apply_update: "user_id (apply_update p r) = user_id r"
  by (simp add: apply_update_def)

lemma status_apply_update: "status (apply_update p r) = patched_opt (u_status p) (status r)"
  by (simp add: apply_update_def)

lemma update_mock_rel:
  "list_all2 (\<lambda>a b. if inv_id a = id' then \<exists>t. b = (apply_update p a)\<lparr>updated_at := t\<rparr> else b = a)
     xs (update_mock e k id' p xs)"
  by (induction xs arbitrary: k) auto

lemma update_invoices_rel:
  "list_all2 (\<lambda>a b. if inv_id a = id' \<and> own u a then b = (apply_update p a)\<lparr>updated_at := t\<rparr> else b = a)
     (invoices_tbl d) (invoices_tbl (update_invoices id' u p t d))"
  by (simp add: update_invoices_def list_all2_map2 list_all2_same)

lemma fetchInvoices_db: "db (fetchInvoices e k st) = db st"
  by (simp add: fetchInvoices_def split: option.splits)

lemma fetchInvoices_user: "user (fetchInvoices e k st) = user st"
  by (simp add: fetchInvoices_def split: option.splits)

lemma final_segment_append:
  "CHR ''/'' \<notin> set s \<Longrightarrow> final_segment (p @ ''/'' @ s) = s"
proof -
  assume "CHR ''/'' \<notin> set s"
  then have "takeWhile (\<lambda>c. c \<noteq> CHR ''/'') (rev s @ CHR ''/'' # rev p) = rev s"
    by (subst takeWhile_append2) auto
  then show ?thesis by (simp add: final_segment_def)
qed

text \<open>
  C10. sendInvoice looks at no status. When the call is carried out (for a
  demonstration user always, for a user of the store when the update is accepted) it
  raises nothing; every invoice with the id (in the list of a demonstration user, among
  the user's rows of the store otherwise) comes out with status sent and with the
  payment link origin/invoice/id, whatever its status was, and every other invoice is
  as before. The last segment of the link is the id, for an id without a slash.
\<close>

theorem sendInvoice_correct:
  assumes "isMockUser st \<or> reply e 0 = None"
  shows "fst (sendInvoice e id' st) = Inr () \<and>
    (if isMockUser st
     then list_all2 (\<lambda>a b. if inv_id a = id' then sent_from (origin e @ ''/invoice/'' @ id') a b else b = a)
            (invoices st) (invoices (snd (sendInvoice e id' st)))
     else list_all2 (\<lambda>a b. if inv_id a = id' \<and> own (user st) a
                           then sent_from (origin e @ ''/invoice/'' @ id') a b else b = a)
            (invoices_tbl (db st)) (invoices_tbl (db (snd (sendInvoice e id' st))))) \<and>
    (CHR ''/'' \<notin> set id' \<longrightarrow> final_segment (origin e @ ''/invoice/'' @ id') = id')"
proof (cases "isMockUser st")
  case True
  have "list_all2 (\<lambda>a b. if inv_id a = id' then sent_from (origin e @ ''/invoice/'' @ id') a b else b = a)
          (invoices st)
          (update_mock e 0 id' (no_update\<lparr>u_status := Some Sent,
              u_payment_link := Some (Some (origin e @ ''/invoice/'' @ id'))\<rparr>) (invoices st))"
    by (rule list_all2_mono [OF update_mock_rel]) (auto simp: sent_from_def apply_update_send)
  with True show ?thesis
    using final_segment_append [of id' "origin e @ ''/invoice''"]
    by (simp add: sendInvoice_def updateInvoice_def)
next
  case False
  with assms have r: "reply e 0 = None" by simp
  have "list_all2 (\<lambda>a b. if inv_id a = id' \<and> own (user st) a
                           then sent_from (origin e @ ''/invoice/'' @ id') a b else b = a)
          (invoices_tbl (db st))
          (invoices_tbl (update_invoices id' (user st) (no_update\<lparr>u_status := Some Sent,
              u_payment_link := Some (Some (origin e @ ''/invoice/'' @ id'))\<rparr>) (db_now e) (db st)))"
    by (rule list_all2_mono [OF update_invoices_rel]) (auto simp: sent_from_def apply_update_send)
  with False r show ?thesis
    using final_segment_append [of id' "origin e @ ''/invoice''"]
    by (simp add: sendInvoice_def updateInvoice_def fetchInvoices_db)
qed

lemma store_state_not_mock: "\<not> isMockUser store_state"
  by (simp add: isMockUser_def store_state_def)

lemma updateInvoice_store:
  "\<not> isMockUser st \<Longrightarrow> reply e 0 = None \<Longrightarrow>
   updateInvoice e id' p st =
     (Inr (), fetchInvoices e 1 (st\<lparr>db := update_invoices id' (user st) p (db_now e) (db st)\<rparr>))"
  by (simp add: updateInvoice_def)

lemma updateInvoice_store_db:
  "\<not> isMockUser st \<Longrightarrow> reply e 0 = None \<Longrightarrow>
   db (snd (updateInvoice e id' p st)) = update_invoices id' (user st) p (db_now e) (db st)"
  by (simp add: updateInvoice_store fetchInvoices_db)

lemma sendInvoice_store_state:
  "invoices_tbl (db (snd (sendInvoice env1 ''inv-a'' store_state))) =
     [store_row\<lparr>status := Some Sent, payment_link := Some ''https://invoicepro.app/invoice/inv-a'',
                updated_at := ''2026-11-03T10:00:00Z''\<rparr>,
      store_row\<lparr>inv_id := ''inv-b'', status := Some Draft\<rparr>]"
proof -
  have "db (snd (sendInvoice env1 ''inv-a'' store_state)) =
      update_invoices ''inv-a'' (Some ''u-1'')
        (no_update\<lparr>u_status := Some Sent,
           u_payment_link := Some (Some ''https://invoicepro.app/invoice/inv-a'')\<rparr>)
        ''2026-11-03T10:00:00Z'' store_db"
    unfolding sendInvoice_def Let_def
    by (subst updateInvoice_store_db [OF store_state_not_mock reply_env1])
       (simp add: env1_def store_state_def)
  then show ?thesis
    by (simp add: update_invoices_def apply_update_send store_db_def store_row_def own_def)
qed

theorem sendInvoice_correct_witness:
  "(isMockUser store_state \<or> reply env1 0 = None) \<and>
   status store_row = Some Paid \<and>
   fst (sendInvoice env1 ''inv-a'' store_state) = Inr () \<and>
   map status (invoices_tbl (db (snd (sendInvoice env1 ''inv-a'' store_state)))) =
     [Some Sent, Some Draft] \<and>
   CHR ''/'' \<notin> set ''inv-a'' \<and>
   final_segment (origin env1 @ ''/invoice/'' @ ''inv-a'') = ''inv-a''"
proof -
  have r: "isMockUser store_state \<or> reply env1 0 = None" by (simp add: env1_def)
  have s: "CHR ''/'' \<notin> set ''inv-a''" by simp
  from sendInvoice_correct [OF r, of "''inv-a''"] s
  have "fst (sendInvoice env1 ''inv-a'' store_state) = Inr ()"
    and "final_segment (origin env1 @ ''/invoice/'' @ ''inv-a'') = ''inv-a''"
    by blast+
  then show ?thesis
    using r s by (simp add: sendInvoice_store_state) (simp add: store_row_def)
qed

subsection \<open>Marking as paid\<close>

lemma patched_idem: "patched p (patched p x) = patched p x"
  by (simp add: patched_def split: option.splits)

lemma patched_opt_idem: "patched_opt p (patched_opt p x) = patched_opt p x"
  by (simp add: patched_opt_def split: option.splits)

lemma apply_update_twice:
  "(apply_update p ((apply_update p r)\<lparr>updated_at := t1\<rparr>))\<lparr>updated_at := t2\<rparr> =
   (apply_update p r)\<lparr>updated_at := t2\<rparr>"
  by (simp add: apply_update_def patched_idem patched_opt_idem)

lemma update_mock_twice:
  "update_mock e2 k2 id' p (update_mock e1 k1 id' p xs) = update_mock e2 k2 id' p xs"
  by (induction xs arbitrary: k1 k2) (simp_all add: inv_id_apply_update apply_update_twice)

lemma update_invoices_twice:
  "update_invoices id' u p t2 (update_invoices id' u p t1 d) = update_invoices id' u p t2 d"
  by (simp add: update_invoices_def o_def own_def inv_id_apply_update user_id_apply_update
      apply_update_twice cong: if_cong)

lemma updateInvoice_mock:
  "isMockUser st \<Longrightarrow>
   updateInvoice e id' p st = (Inr (), st\<lparr>invoices := update_mock e 0 id' p (invoices st)\<rparr>)"
  by (simp add: updateInvoice_def)

lemma isMockUser_cong: "user st' = user st \<Longrightarrow> isMockUser st' = isMockUser st"
  by (simp add: isMockUser_def)

lemma updateInvoice_user: "user (snd (updateInvoice e id' p st)) = user st"
  by (simp add: updateInvoice_def fetchInvoices_user split: option.splits)

lemma updateInvoice_isMockUser: "isMockUser (snd (updateInvoice e id' p st)) = isMockUser st"
  by (rule isMockUser_cong) (rule updateInvoice_user)

lemma fetchInvoices_store:
  "\<not> isMockUser st \<Longrightarrow> reply e k = None \<Longrightarrow>
   fetchInvoices e k st =
     (case user st of None \<Rightarrow> st\<lparr>loading := False\<rparr>
      | Some uid \<Rightarrow> st\<lparr>invoices := select_invoices uid (db st), loading := False\<rparr>)"
  by (simp add: fetchInvoices_def split: option.splits)

lemma updateInvoice_twice:
  assumes "isMockUser st \<or> (reply e1 0 = None \<and> reply e2 0 = None \<and> reply e2 1 = None)"
  shows "snd (updateInvoice e2 id' p (snd (updateInvoice e1 id' p st))) =
         snd (updateInvoice e2 id' p st)"
proof (cases "isMockUser st")
  case True
  then have "isMockUser (st\<lparr>invoices := update_mock e1 0 id' p (invoices st)\<rparr>)"
    by (simp add: isMockUser_def)
  with True show ?thesis
    by (simp add: updateInvoice_mock update_mock_twice)
next
  case False
  with assms have r: "reply e1 0 = None" "reply e2 0 = None" "reply e2 1 = None" by simp_all
  define st1 where "st1 = snd (updateInvoice e1 id' p st)"
  have l1: "st1 = fetchInvoices e1 1 (st\<lparr>db := update_invoices id' (user st) p (db_now e1) (db st)\<rparr>)"
    using False r(1) by (simp add: st1_def updateInvoice_store)
  have u1: "user st1 = user st" by (simp add: l1 fetchInvoices_user)
  have d1: "db st1 = update_invoices id' (user st) p (db_now e1) (db st)"
    by (simp add: l1 fetchInvoices_db)
  have m1: "\<not> isMockUser st1" using False u1 by (simp add: isMockUser_def)
  have not1: "\<not> isMockUser (st1\<lparr>db := update_invoices id' (user st) p (db_now e2) (db st)\<rparr>)"
    using m1 by (simp add: isMockUser_def)
  have not0: "\<not> isMockUser (st\<lparr>db := update_invoices id' (user st) p (db_now e2) (db st)\<rparr>)"
    using False by (simp add: isMockUser_def)
  have "snd (updateInvoice e2 id' p st1) =
        fetchInvoices e2 1 (st1\<lparr>db := update_invoices id' (user st) p (db_now e2) (db st)\<rparr>)"
    by (simp add: updateInvoice_store [OF m1 r(2)] u1 d1 update_invoices_twice)
  also have "\<dots> = fetchInvoices e2 1 (st\<lparr>db := update_invoices id' (user st) p (db_now e2) (db st)\<rparr>)"
    unfolding fetchInvoices_store [OF not1 r(3)] fetchInvoices_store [OF not0 r(3)]
    using False by (simp add: l1 fetchInvoices_def isMockUser_def split: option.splits)
  also have "\<dots> = snd (updateInvoice e2 id' p st)"
    by (simp add: updateInvoice_store [OF False r(2)])
  finally show ?thesis by (simp add: st1_def)
qed

lemma update_mock_status:
  "u_status p = Some s \<Longrightarrow>
   list_all (\<lambda>invoice. inv_id invoice = id' \<longrightarrow> status invoice = Some s) (update_mock e k id' p xs)"
  by (induction xs arbitrary: k)
     (simp_all add: inv_id_apply_update status_apply_update patched_opt_def)

lemma list_all2_imp_list_all: "list_all2 (\<lambda>a b. P b) xs ys \<Longrightarrow> list_all P ys"
  by (induction rule: list_all2_induct) simp_all

lemma update_invoices_status:
  assumes "u_status p = Some s"
  shows "list_all (\<lambda>r. inv_id r = id' \<and> own u r \<longrightarrow> status r = Some s)
     (invoices_tbl (update_invoices id' u p t d))"
proof -
  have "inv_id b = id' \<and> own u b \<longrightarrow> status b = Some s"
    if "if inv_id a = id' \<and> own u a then b = (apply_update p a)\<lparr>updated_at := t\<rparr> else b = a"
    for a b :: invoices_row
    using that assms
    by (cases "inv_id a = id' \<and> own u a")
       (auto simp: status_apply_update patched_opt_def)
  then have "list_all2 (\<lambda>a b. inv_id b = id' \<and> own u b \<longrightarrow> status b = Some s)
      (invoices_tbl d) (invoices_tbl (update_invoices id' u p t d))"
    by (rule list_all2_mono [OF update_invoices_rel])
  then show ?thesis by (rule list_all2_imp_list_all)
qed

lemma markAsPaid_paid_in:
  assumes "isMockUser st \<or> reply e 0 = None"
  shows "fst (markAsPaid e id' st) = Inr () \<and> paid_in id' (snd (markAsPaid e id' st))"
proof (cases "isMockUser st")
  case True
  then have "isMockUser (st\<lparr>invoices := xs\<rparr>)" for xs by (simp add: isMockUser_def)
  with True show ?thesis
    using update_mock_status [of "no_update\<lparr>u_status := Some Paid\<rparr>" Paid id' e 0 "invoices st"]
    by (simp add: markAsPaid_def updateInvoice_mock paid_in_def)
next
  case False
  with assms have r: "reply e 0 = None" by simp
  have "\<not> isMockUser (snd (markAsPaid e id' st))"
    using False by (simp add: markAsPaid_def updateInvoice_isMockUser)
  with False r show ?thesis
    using update_invoices_status [of "no_update\<lparr>u_status := Some Paid\<rparr>" Paid id' "user st"
        "db_now e" "db st"]
    by (simp add: markAsPaid_def updateInvoice_store fetchInvoices_db fetchInvoices_user paid_in_def)
qed

lemma demo_state_mock: "isMockUser demo_state"
  by (simp add: isMockUser_def demo_state_def)

lemma markAsPaid_demo_state:
  "invoices (snd (markAsPaid e ''mock-inv-1'' demo_state)) =
     map (\<lambda>invoice. invoice\<lparr>status := Some Paid, updated_at := toISOString e (now e 0)\<rparr>) mockInvoices"
  by (simp add: markAsPaid_def updateInvoice_mock demo_state_mock apply_update_status_only)
     (simp add: demo_state_def mockInvoices_def apply_update_status_only)

lemma stamps_differ: "toISOString env1 (now env1 0) \<noteq> toISOString env2 (now env2 0)"
  by (simp add: env1_def env2_def toString.simps digit_char_def)

text \<open>
  C7, as it is worded: two calls of markAsPaid leave the state that one call leaves.
  They do not: each call stamps the invoice with the time of the call, so after the
  second call the invoice carries a later \<open>updated_at\<close> than after the first.
\<close>

theorem markAsPaid_twice_counterexample:
  "snd (markAsPaid env2 ''mock-inv-1'' (snd (markAsPaid env1 ''mock-inv-1'' demo_state))) \<noteq>
   snd (markAsPaid env1 ''mock-inv-1'' demo_state)"
proof
  assume eq: "snd (markAsPaid env2 ''mock-inv-1'' (snd (markAsPaid env1 ''mock-inv-1'' demo_state))) =
    snd (markAsPaid env1 ''mock-inv-1'' demo_state)"
  have "snd (markAsPaid env2 ''mock-inv-1'' (snd (markAsPaid env1 ''mock-inv-1'' demo_state))) =
        snd (markAsPaid env2 ''mock-inv-1'' demo_state)"
    unfolding markAsPaid_def
    by (rule updateInvoice_twice) (simp add: demo_state_mock)
  with eq have "invoices (snd (markAsPaid env2 ''mock-inv-1'' demo_state)) =
      invoices (snd (markAsPaid env1 ''mock-inv-1'' demo_state))"
    by simp
  then have "toISOString env2 (now env2 0) = toISOString env1 (now env1 0)"
    by (simp add: markAsPaid_demo_state mockInvoices_def)
  with stamps_differ show False by simp
qed

lemma insort_key_map:
  "(\<And>x. f (g x) = f x) \<Longrightarrow> insort_key f (g x) (map g ys) = map g (insort_key f x ys)"
  by (induction ys) simp_all

lemma sort_key_map:
  "(\<And>x. f (g x) = f x) \<Longrightarrow> sort_key f (map g xs) = map g (sort_key f xs)"
  by (induction xs) (simp_all add: insort_key_map)

lemma update_invoices_again:
  "update_invoices id' u p t2 (update_invoices id' u p t1 d) =
   (update_invoices id' u p t1 d)\<lparr>invoices_tbl :=
      map (\<lambda>r. if inv_id r = id' \<and> own u r then r\<lparr>updated_at := t2\<rparr> else r)
        (invoices_tbl (update_invoices id' u p t1 d))\<rparr>"
proof -
  define g where
    "g = (\<lambda>r::invoices_row. if inv_id r = id' \<and> own u r then (apply_update p r)\<lparr>updated_at := t1\<rparr> else r)"
  have "(if inv_id (g r) = id' \<and> own u (g r) then (apply_update p (g r))\<lparr>updated_at := t2\<rparr> else g r) =
        (if inv_id (g r) = id' \<and> own u (g r) then (g r)\<lparr>updated_at := t2\<rparr> else g r)" for r
    by (cases "inv_id r = id' \<and> own u r")
       (auto simp: g_def own_def inv_id_apply_update user_id_apply_update apply_update_twice)
  then show ?thesis
    by (simp add: update_invoices_def o_def g_def [symmetric])
qed

lemma update_mock_again:
  "only_restamped (\<lambda>a. inv_id a = id') (update_mock e1 k1 id' p xs)
     (update_mock e2 k2 id' p (update_mock e1 k1 id' p xs))"
  unfolding only_restamped_def
proof (induction xs arbitrary: k1 k2)
  case Nil
  show ?case by simp
next
  case (Cons x xs)
  have "apply_update p ((apply_update p x)\<lparr>updated_at := t1\<rparr>)\<lparr>updated_at := t2\<rparr> =
        (apply_update p x)\<lparr>updated_at := t1, updated_at := t2\<rparr>" for t1 t2
    by (simp add: apply_update_twice)
  with Cons show ?case
    by (simp add: inv_id_apply_update restamped_def)
qed

lemma select_invoices_restamp:
  "select_invoices uid
     (d\<lparr>invoices_tbl :=
          map (\<lambda>r. if inv_id r = id' \<and> own (Some uid) r then r\<lparr>updated_at := t\<rparr> else r)
            (invoices_tbl d)\<rparr>) =
   map (\<lambda>a. if inv_id a = id' then a\<lparr>updated_at := t\<rparr> else a) (select_invoices uid d)"
proof -
  let ?h = "\<lambda>r::invoices_row. if inv_id r = id' \<and> own (Some uid) r then r\<lparr>updated_at := t\<rparr> else r"
  have own: "own (Some uid) (?h r) = own (Some uid) r" for r by (simp add: own_def)
  have key: "created_at (?h r) = created_at r" for r by simp
  have "filter (own (Some uid)) (map ?h (invoices_tbl d)) =
        map ?h (filter (own (Some uid)) (invoices_tbl d))"
    by (simp add: filter_map o_def own)
  moreover have "sort_key created_at (map ?h xs) = map ?h (sort_key created_at xs)" for xs
    by (rule sort_key_map) (rule key)
  ultimately show ?thesis
    by (simp add: select_invoices_def rev_map o_def own_def invoices_row.defs Invoice.defs
        cong: map_cong)
qed

text \<open>
  C7, amended. When the store accepts the updates (a demonstration user has none to be
  accepted), neither call of markAsPaid raises and the invoice is paid after each of
  them. The second call changes nothing but the stamp \<open>updated_at\<close> of the invoices with
  the id: in the list of a demonstration user, and for a user of the store in the
  store's table of invoices. The list of a user of the store is a copy that each call
  reloads when the store answers the reload: it too changes in that stamp only, unless
  the first reload was refused and the second answered, when it goes from what it was
  before the calls to the content of the store.
\<close>

theorem markAsPaid_idempotent:
  assumes "isMockUser st \<or> (reply e1 0 = None \<and> reply e2 0 = None)"
  shows "fst (markAsPaid e1 id' st) = Inr () \<and>
         fst (markAsPaid e2 id' (snd (markAsPaid e1 id' st))) = Inr () \<and>
         paid_in id' (snd (markAsPaid e1 id' st)) \<and>
         paid_in id' (snd (markAsPaid e2 id' (snd (markAsPaid e1 id' st)))) \<and>
         user (snd (markAsPaid e2 id' (snd (markAsPaid e1 id' st)))) =
           user (snd (markAsPaid e1 id' st)) \<and>
         loading (snd (markAsPaid e2 id' (snd (markAsPaid e1 id' st)))) =
           loading (snd (markAsPaid e1 id' st)) \<and>
         (if isMockUser st
          then only_restamped (\<lambda>a. inv_id a = id')
                 (invoices (snd (markAsPaid e1 id' st)))
                 (invoices (snd (markAsPaid e2 id' (snd (markAsPaid e1 id' st))))) \<and>
               db (snd (markAsPaid e2 id' (snd (markAsPaid e1 id' st)))) =
                 db (snd (markAsPaid e1 id' st))
          else only_restamped (\<lambda>r. inv_id r = id' \<and> own (user st) r)
                 (invoices_tbl (db (snd (markAsPaid e1 id' st))))
                 (invoices_tbl (db (snd (markAsPaid e2 id' (snd (markAsPaid e1 id' st)))))) \<and>
               invoice_items_tbl (db (snd (markAsPaid e2 id' (snd (markAsPaid e1 id' st))))) =
                 invoice_items_tbl (db (snd (markAsPaid e1 id' st))) \<and>
               clients_tbl (db (snd (markAsPaid e2 id' (snd (markAsPaid e1 id' st))))) =
                 clients_tbl (db (snd (markAsPaid e1 id' st))) \<and>
               (case user st of
                  None \<Rightarrow> invoices (snd (markAsPaid e2 id' (snd (markAsPaid e1 id' st)))) =
                            invoices (snd (markAsPaid e1 id' st))
                | Some uid \<Rightarrow>
                    if reply e2 1 \<noteq> None
                    then invoices (snd (markAsPaid e2 id' (snd (markAsPaid e1 id' st)))) =
                           invoices (snd (markAsPaid e1 id' st))
                    else if reply e1 1 = None
                    then only_restamped (\<lambda>a. inv_id a = id')
                           (invoices (snd (markAsPaid e1 id' st)))
                           (invoices (snd (markAsPaid e2 id' (snd (markAsPaid e1 id' st)))))
                    else invoices (snd (markAsPaid e2 id' (snd (markAsPaid e1 id' st)))) =
                           select_invoices uid
                             (db (snd (markAsPaid e2 id' (snd (markAsPaid e1 id' st)))))))"
proof -
  define p where "p = no_update\<lparr>u_status := Some Paid\<rparr>"
  define st1 where "st1 = snd (markAsPaid e1 id' st)"
  define st2 where "st2 = snd (markAsPaid e2 id' st1)"
  from assms have a1: "isMockUser st \<or> reply e1 0 = None" by auto
  have m1: "isMockUser st1 = isMockUser st"
    by (simp add: st1_def markAsPaid_def updateInvoice_isMockUser)
  with assms have a2: "isMockUser st1 \<or> reply e2 0 = None" by auto
  note ok1 = markAsPaid_paid_in [OF a1, of id', folded st1_def]
  note ok2 = markAsPaid_paid_in [OF a2, of id', folded st2_def]
  have u: "user st2 = user st1"
    by (simp add: st2_def markAsPaid_def updateInvoice_user)
  have rest: "loading st2 = loading st1 \<and>
    (if isMockUser st
     then only_restamped (\<lambda>a. inv_id a = id') (invoices st1) (invoices st2) \<and> db st2 = db st1
     else only_restamped (\<lambda>r. inv_id r = id' \<and> own (user st) r)
            (invoices_tbl (db st1)) (invoices_tbl (db st2)) \<and>
          invoice_items_tbl (db st2) = invoice_items_tbl (db st1) \<and>
          clients_tbl (db st2) = clients_tbl (db st1) \<and>
          (case user st of
             None \<Rightarrow> invoices st2 = invoices st1
           | Some uid \<Rightarrow>
               if reply e2 1 \<noteq> None then invoices st2 = invoices st1
               else if reply e1 1 = None
               then only_restamped (\<lambda>a. inv_id a = id') (invoices st1) (invoices st2)
               else invoices st2 = select_invoices uid (db st2)))"
  proof (cases "isMockUser st")
    case True
    have s1: "st1 = st\<lparr>invoices := update_mock e1 0 id' p (invoices st)\<rparr>"
      using True by (simp add: st1_def markAsPaid_def updateInvoice_mock p_def)
    have s2: "st2 = st1\<lparr>invoices := update_mock e2 0 id' p (invoices st1)\<rparr>"
      using True m1 by (simp add: st2_def markAsPaid_def updateInvoice_mock p_def)
    show ?thesis
      using True update_mock_again [of id' e1 0 p "invoices st" e2 0]
      by (simp add: s2) (simp add: s1)
  next
    case False
    with assms have r: "reply e1 0 = None" "reply e2 0 = None" by simp_all
    define d1 where "d1 = update_invoices id' (user st) p (db_now e1) (db st)"
    define d2 where "d2 = update_invoices id' (user st) p (db_now e2) d1"
    have s1: "st1 = fetchInvoices e1 1 (st\<lparr>db := d1\<rparr>)"
      using False r(1) by (simp add: st1_def markAsPaid_def updateInvoice_store p_def d1_def)
    have u1: "user st1 = user st" by (simp add: s1 fetchInvoices_user)
    have db1: "db st1 = d1" by (simp add: s1 fetchInvoices_db)
    have nm1: "\<not> isMockUser st1" using False m1 by simp
    have s2: "st2 = fetchInvoices e2 1 (st1\<lparr>db := d2\<rparr>)"
      using nm1 r(2)
      by (simp add: st2_def markAsPaid_def updateInvoice_store u1 db1 p_def [symmetric] d2_def)
    have db2: "db st2 = d2" by (simp add: s2 fetchInvoices_db)
    have d2: "d2 = d1\<lparr>invoices_tbl :=
        map (\<lambda>r. if inv_id r = id' \<and> own (user st) r then r\<lparr>updated_at := db_now e2\<rparr> else r)
          (invoices_tbl d1)\<rparr>"
      unfolding d2_def d1_def by (rule update_invoices_again)
    have tbl: "only_restamped (\<lambda>r. inv_id r = id' \<and> own (user st) r)
        (invoices_tbl d1) (invoices_tbl d2)"
      by (subst d2) (simp add: only_restamped_def list_all2_map2 list_all2_same restamped_def)
    have other: "invoice_items_tbl d2 = invoice_items_tbl d1" "clients_tbl d2 = clients_tbl d1"
      by (simp_all add: d2)
    have nm0: "\<not> isMockUser (st\<lparr>db := d1\<rparr>)" using False by (simp add: isMockUser_def)
    have nm2: "\<not> isMockUser (st1\<lparr>db := d2\<rparr>)" using nm1 by (simp add: isMockUser_def)
    have l1: "loading st1 = False"
      by (simp add: s1 fetchInvoices_def nm0 split: option.splits)
    have l2: "loading st2 = False"
      by (simp add: s2 fetchInvoices_def nm2 split: option.splits)
    have cache: "case user st of
         None \<Rightarrow> invoices st2 = invoices st1
       | Some uid \<Rightarrow>
           if reply e2 1 \<noteq> None then invoices st2 = invoices st1
           else if reply e1 1 = None
           then only_restamped (\<lambda>a. inv_id a = id') (invoices st1) (invoices st2)
           else invoices st2 = select_invoices uid (db st2)"
    proof (cases "user st")
      case None
      then show ?thesis
        using u1 by (simp add: s2 fetchInvoices_def nm2)
    next
      case (Some uid)
      show ?thesis
      proof (cases "reply e2 1")
        case (Some msg)
        with \<open>user st = Some uid\<close> show ?thesis
          using u1 by (simp add: s2 fetchInvoices_def nm2)
      next
        case None
        from None \<open>user st = Some uid\<close> u1
        have i2: "invoices st2 = select_invoices uid d2"
          by (simp add: s2 fetchInvoices_def nm2)
        show ?thesis
        proof (cases "reply e1 1")
          case (Some msg)
          with None \<open>user st = Some uid\<close> i2 db2 show ?thesis by simp
        next
          case None
          from None \<open>user st = Some uid\<close>
          have i1: "invoices st1 = select_invoices uid d1"
            by (simp add: s1 fetchInvoices_def nm0)
          have "invoices st2 =
              map (\<lambda>a. if inv_id a = id' then a\<lparr>updated_at := db_now e2\<rparr> else a) (invoices st1)"
            unfolding i1 i2
            by (subst d2) (simp add: \<open>user st = Some uid\<close> select_invoices_restamp)
          then have "only_restamped (\<lambda>a. inv_id a = id') (invoices st1) (invoices st2)"
            by (simp add: only_restamped_def list_all2_map2 list_all2_same restamped_def)
          with None \<open>reply e2 1 = None\<close> \<open>user st = Some uid\<close> show ?thesis by simp
        qed
      qed
    qed
    from False tbl other cache l1 l2 show ?thesis by (simp add: db1 db2)
  qed
  from ok1 ok2 u rest show ?thesis
    unfolding st2_def st1_def by simp
qed

lemma markAsPaid_store_state:
  "invoices_tbl (db (snd (markAsPaid e ''inv-b'' store_state))) =
     [store_row, store_row\<lparr>inv_id := ''inv-b'', status := Some Paid, updated_at := db_now e\<rparr>]"
  if "reply e 0 = None"
proof -
  have "db (snd (markAsPaid e ''inv-b'' store_state)) =
      update_invoices ''inv-b'' (Some ''u-1'') (no_update\<lparr>u_status := Some Paid\<rparr>) (db_now e) store_db"
    unfolding markAsPaid_def
    by (subst updateInvoice_store_db [OF store_state_not_mock that]) (simp add: store_state_def)
  then show ?thesis
    by (simp add: update_invoices_def apply_update_status_only store_db_def store_row_def own_def)
qed

theorem markAsPaid_idempotent_witness:
  "(isMockUser store_state \<or> (reply env1 0 = None \<and> reply env2 0 = None)) \<and>
   map status (invoices_tbl (db store_state)) = [Some Paid, Some Draft] \<and>
   fst (markAsPaid env1 ''inv-b'' store_state) = Inr () \<and>
   fst (markAsPaid env2 ''inv-b'' (snd (markAsPaid env1 ''inv-b'' store_state))) = Inr () \<and>
   map status (invoices_tbl (db (snd (markAsPaid env1 ''inv-b'' store_state)))) =
     [Some Paid, Some Paid] \<and>
   paid_in ''inv-b'' (snd (markAsPaid env2 ''inv-b'' (snd (markAsPaid env1 ''inv-b'' store_state)))) \<and>
   only_restamped (\<lambda>r. inv_id r = ''inv-b'' \<and> own (user store_state) r)
     (invoices_tbl (db (snd (markAsPaid env1 ''inv-b'' store_state))))
     (invoices_tbl (db (snd (markAsPaid env2 ''inv-b'' (snd (markAsPaid env1 ''inv-b'' store_state))))))"
proof -
  have a: "isMockUser store_state \<or> (reply env1 0 = None \<and> reply env2 0 = None)"
    by (simp add: env1_def env2_def)
  note t = markAsPaid_idempotent [OF a, of "''inv-b''"]
  have 0: "map status (invoices_tbl (db store_state)) = [Some Paid, Some Draft]"
    by (simp add: store_state_def store_db_def store_row_def)
  have 1: "map status (invoices_tbl (db (snd (markAsPaid env1 ''inv-b'' store_state)))) =
     [Some Paid, Some Paid]"
    by (simp add: markAsPaid_store_state reply_env1) (simp add: store_row_def)
  from t store_state_not_mock a 0 1 show ?thesis by simp
qed

subsection \<open>Status transitions\<close>

lemma not_back_to_draft_refl: "not_back_to_draft a a"
  by (simp add: not_back_to_draft_def)

lemma not_back_to_draft_trans:
  "not_back_to_draft a b \<Longrightarrow> not_back_to_draft b c \<Longrightarrow> not_back_to_draft a c"
  by (simp add: not_back_to_draft_def)

lemma not_back_to_draft_apply_update:
  "u_status p \<noteq> Some Draft \<Longrightarrow> not_back_to_draft a ((apply_update p a)\<lparr>updated_at := t\<rparr>)"
  by (cases "u_status p")
     (simp_all add: not_back_to_draft_def inv_id_apply_update status_apply_update patched_opt_def)

lemma updateInvoice_not_back_to_draft:
  assumes "u_status p \<noteq> Some Draft"
  shows "if isMockUser st
         then list_all2 not_back_to_draft (invoices st) (invoices (snd (updateInvoice e id' p st)))
         else list_all2 not_back_to_draft (invoices_tbl (db st))
                (invoices_tbl (db (snd (updateInvoice e id' p st))))"
proof (cases "isMockUser st")
  case True
  have "list_all2 not_back_to_draft (invoices st) (update_mock e 0 id' p (invoices st))"
    by (rule list_all2_mono [OF update_mock_rel])
       (auto simp: not_back_to_draft_refl not_back_to_draft_apply_update [OF assms] split: if_splits)
  with True show ?thesis by (simp add: updateInvoice_mock)
next
  case False
  show ?thesis
  proof (cases "reply e 0")
    case None
    have "list_all2 not_back_to_draft (invoices_tbl (db st))
            (invoices_tbl (update_invoices id' (user st) p (db_now e) (db st)))"
      by (rule list_all2_mono [OF update_invoices_rel])
         (auto simp: not_back_to_draft_refl not_back_to_draft_apply_update [OF assms] split: if_splits)
    with False None show ?thesis by (simp add: updateInvoice_store fetchInvoices_db)
  next
    case (Some msg)
    with False show ?thesis
      by (simp add: updateInvoice_def list_all2_same not_back_to_draft_refl)
  qed
qed

lemma u_status_markAsPaid: "u_status (no_update\<lparr>u_status := Some Paid\<rparr>) \<noteq> Some Draft"
  by simp

lemma u_status_sendInvoice:
  "u_status (no_update\<lparr>u_status := Some Sent, u_payment_link := Some (Some l)\<rparr>) \<noteq> Some Draft"
  by simp

lemma perform_not_back_to_draft:
  assumes "\<not> sets_draft op"
  shows "if isMockUser st
         then list_all2 not_back_to_draft (invoices st) (invoices (snd (perform e op st)))
         else list_all2 not_back_to_draft (invoices_tbl (db st))
                (invoices_tbl (db (snd (perform e op st))))"
proof (cases op)
  case (MarkAsPaid id')
  then show ?thesis
    using updateInvoice_not_back_to_draft [OF u_status_markAsPaid, of st e id']
    by (simp add: markAsPaid_def)
next
  case (SendInvoice id')
  then show ?thesis
    using updateInvoice_not_back_to_draft [OF u_status_sendInvoice, of st e id']
    by (simp add: sendInvoice_def)
next
  case (UpdateInvoice id' p)
  with assms have "u_status p \<noteq> Some Draft" by simp
  from updateInvoice_not_back_to_draft [OF this, of st e id'] UpdateInvoice
  show ?thesis by simp
qed

lemma perform_isMockUser: "isMockUser (snd (perform e op st)) = isMockUser st"
  by (cases op) (simp_all add: markAsPaid_def sendInvoice_def updateInvoice_isMockUser)

lemma list_all2_not_back_to_draft_trans:
  "list_all2 not_back_to_draft xs ys \<Longrightarrow> list_all2 not_back_to_draft ys zs \<Longrightarrow>
   list_all2 not_back_to_draft xs zs"
  by (rule list_all2_trans [of not_back_to_draft not_back_to_draft not_back_to_draft])
     (auto intro: not_back_to_draft_trans)

lemma markAsPaid_then_draft:
  "map status (invoices (run [(env1, MarkAsPaid ''mock-inv-1'')] demo_state)) = [Some Paid]"
  "map status (invoices (run [(env1, MarkAsPaid ''mock-inv-1''),
      (env2, UpdateInvoice ''mock-inv-1'' (no_update\<lparr>u_status := Some Draft\<rparr>))] demo_state)) =
   [Some Draft]"
proof -
  show 1: "map status (invoices (run [(env1, MarkAsPaid ''mock-inv-1'')] demo_state)) = [Some Paid]"
    by (simp add: markAsPaid_demo_state mockInvoices_def)
  have m: "isMockUser (snd (markAsPaid env1 ''mock-inv-1'' demo_state))"
    by (simp add: markAsPaid_def updateInvoice_isMockUser demo_state_mock)
  show "map status (invoices (run [(env1, MarkAsPaid ''mock-inv-1''),
      (env2, UpdateInvoice ''mock-inv-1'' (no_update\<lparr>u_status := Some Draft\<rparr>))] demo_state)) =
   [Some Draft]"
    by (simp add: updateInvoice_mock [OF m] markAsPaid_demo_state mockInvoices_def
        apply_update_status_only)
qed

text \<open>
  C6, as it is worded: after no sequence of markAsPaid, sendInvoice and updateInvoice
  calls is an invoice draft that was not draft before. It can be: updateInvoice writes
  whatever status its patch carries. Here the invoice is paid by the first call and
  draft after the second.
\<close>

theorem back_to_draft_counterexample:
  "map status (invoices (run [(env1, MarkAsPaid ''mock-inv-1'')] demo_state)) = [Some Paid] \<and>
   map status (invoices (run [(env2, UpdateInvoice ''mock-inv-1'' (no_update\<lparr>u_status := Some Draft\<rparr>))]
      (run [(env1, MarkAsPaid ''mock-inv-1'')] demo_state))) = [Some Draft] \<and>
   \<not> list_all2 not_back_to_draft
       (invoices (run [(env1, MarkAsPaid ''mock-inv-1'')] demo_state))
       (invoices (run [(env2, UpdateInvoice ''mock-inv-1'' (no_update\<lparr>u_status := Some Draft\<rparr>))]
          (run [(env1, MarkAsPaid ''mock-inv-1'')] demo_state)))"
proof -
  let ?st1 = "run [(env1, MarkAsPaid ''mock-inv-1'')] demo_state"
  let ?st2 = "run [(env2, UpdateInvoice ''mock-inv-1'' (no_update\<lparr>u_status := Some Draft\<rparr>))] ?st1"
  have 1: "map status (invoices ?st1) = [Some Paid]" by (rule markAsPaid_then_draft(1))
  have 2: "map status (invoices ?st2) = [Some Draft]"
    using markAsPaid_then_draft(2) by simp
  have "False" if "list_all2 not_back_to_draft (invoices ?st1) (invoices ?st2)"
  proof -
    from that have "list_all2 (\<lambda>a b. a \<noteq> Some Draft \<longrightarrow> b \<noteq> Some Draft)
        (map status (invoices ?st1)) (map status (invoices ?st2))"
      unfolding list_all2_map1 list_all2_map2
      by (rule list_all2_mono) (simp add: not_back_to_draft_def)
    then show False unfolding 1 2 by simp
  qed
  with 1 2 show ?thesis by blast
qed

text \<open>
  C6, amended. markAsPaid and sendInvoice never set the status draft, and updateInvoice
  sets it only when its patch carries the status draft: along every sequence of
  markAsPaid, sendInvoice and updateInvoice calls of which no patch carries the status
  draft, an invoice that is not draft stays not draft (in the list of a demonstration
  user, in the table of the store otherwise).
\<close>

theorem no_return_to_draft:
  assumes "list_all (\<lambda>(e, op). \<not> sets_draft op) ops"
  shows "if isMockUser st
         then list_all2 not_back_to_draft (invoices st) (invoices (run ops st))
         else list_all2 not_back_to_draft (invoices_tbl (db st)) (invoices_tbl (db (run ops st)))"
  using assms
proof (induction ops arbitrary: st)
  case Nil
  show ?case by (simp add: list_all2_same not_back_to_draft_refl)
next
  case (Cons x ops)
  obtain e op where x: "x = (e, op)" by (cases x)
  with Cons.prems have nd: "\<not> sets_draft op" and rest: "list_all (\<lambda>(e, op). \<not> sets_draft op) ops"
    by simp_all
  let ?st1 = "snd (perform e op st)"
  note step = perform_not_back_to_draft [OF nd, of st e]
  note ih = Cons.IH [OF rest, of ?st1]
  show ?case
  proof (cases "isMockUser st")
    case True
    with step ih show ?thesis
      by (simp add: x perform_isMockUser) (rule list_all2_not_back_to_draft_trans)
  next
    case False
    with step ih show ?thesis
      by (simp add: x perform_isMockUser) (rule list_all2_not_back_to_draft_trans)
  qed
qed

theorem no_return_to_draft_witness:
  "list_all (\<lambda>(e, op). \<not> sets_draft op)
     [(env1, SendInvoice ''mock-inv-1''), (env2, MarkAsPaid ''mock-inv-1'')] \<and>
   isMockUser demo_state \<and>
   map status (invoices demo_state) = [Some Sent] \<and>
   list_all2 not_back_to_draft (invoices demo_state)
     (invoices (run [(env1, SendInvoice ''mock-inv-1''), (env2, MarkAsPaid ''mock-inv-1'')] demo_state)) \<and>
   list_all (\<lambda>invoice. status invoice \<noteq> Some Draft)
     (invoices (run [(env1, SendInvoice ''mock-inv-1''), (env2, MarkAsPaid ''mock-inv-1'')] demo_state))"
proof -
  let ?ops = "[(env1, SendInvoice ''mock-inv-1''), (env2, MarkAsPaid ''mock-inv-1'')]"
  have a: "list_all (\<lambda>(e, op). \<not> sets_draft op) ?ops" by simp
  have s: "map status (invoices demo_state) = [Some Sent]"
    by (simp add: demo_state_def mockInvoices_def)
  from no_return_to_draft [OF a, of demo_state] demo_state_mock
  have r: "list_all2 not_back_to_draft (invoices demo_state) (invoices (run ?ops demo_state))"
    by simp
  then have "list_all2 (\<lambda>a b. a \<noteq> Some Draft \<longrightarrow> b \<noteq> Some Draft)
      (map status (invoices demo_state)) (map status (invoices (run ?ops demo_state)))"
    unfolding list_all2_map1 list_all2_map2
    by (rule list_all2_mono) (simp add: not_back_to_draft_def)
  then have "list_all (\<lambda>b. b \<noteq> Some Draft) (map status (invoices (run ?ops demo_state)))"
    unfolding s by (auto simp: list_all2_Cons1 list_all_iff)
  then have "list_all (\<lambda>invoice. status invoice \<noteq> Some Draft) (invoices (run ?ops demo_state))"
    by (simp add: list_all_iff)
  with a s r demo_state_mock show ?thesis by blast
qed

subsection \<open>Deleting invoices\<close>

lemma select_invoices_attached:
  "list_all (\<lambda>invoice. list_all (\<lambda>it. invoice_id it = inv_id invoice) (invoice_items invoice))
     (select_invoices uid d)"
  by (simp add: select_invoices_def list_all_iff invoices_row.defs Invoice.defs)

lemma delete_invoices_rows:
  assumes "distinct (map inv_id (invoices_tbl d))"
    and "list_ex (\<lambda>r. inv_id r = id' \<and> own u r) (invoices_tbl d)"
  shows "list_all (\<lambda>r. inv_id r \<noteq> id') (invoices_tbl (delete_invoices id' u d))"
    and "list_all (\<lambda>it. invoice_id it \<noteq> id') (invoice_items_tbl (delete_invoices id' u d))"
proof -
  from assms(2) obtain r where r: "r \<in> set (invoices_tbl d)" "inv_id r = id'" "own u r"
    by (auto simp: list_ex_iff)
  have "own u r'" if "r' \<in> set (invoices_tbl d)" "inv_id r' = id'" for r'
  proof -
    from assms(1) have "inj_on inv_id (set (invoices_tbl d))" by (simp add: distinct_map)
    with that r have "r' = r" by (auto dest: inj_onD)
    with r show ?thesis by simp
  qed
  then show "list_all (\<lambda>r. inv_id r \<noteq> id') (invoices_tbl (delete_invoices id' u d))"
    by (auto simp: delete_invoices_def Let_def list_all_iff)
  from r have "id' \<in> inv_id ` set (filter (\<lambda>r. inv_id r = id' \<and> own u r) (invoices_tbl d))"
    by force
  then show "list_all (\<lambda>it. invoice_id it \<noteq> id') (invoice_items_tbl (delete_invoices id' u d))"
    by (auto simp: delete_invoices_def Let_def list_all_iff)
qed

lemma find_None_iff_list_all: "find P xs = None \<longleftrightarrow> list_all (\<lambda>x. \<not> P x) xs"
  by (induction xs) simp_all

text \<open>
  What holds of deleteInvoice where the items of the list are attached to their own
  invoices. Let the state hold an invoice with the id for its user, with the ids of the
  store's invoices distinct (the primary key). After a deleteInvoice that succeeds, the
  list has no invoice with the id and none is found by it, no item in the list
  references the id, and for a user of the store the table of invoices has no row with
  the id and the table of items has no row that references it: the items went with
  their invoice.
\<close>

lemma deleteInvoice_attached:
  assumes "fst (deleteInvoice e id' st) = Inr ()"
    and "holds_invoice id' st"
    and "distinct (map inv_id (invoices_tbl (db st)))"
    and "items_attached st"
  shows "list_all (\<lambda>invoice. inv_id invoice \<noteq> id') (invoices (snd (deleteInvoice e id' st))) \<and>
         getInvoice id' (snd (deleteInvoice e id' st)) = None \<and>
         list_all (\<lambda>invoice. list_all (\<lambda>it. invoice_id it \<noteq> id') (invoice_items invoice))
           (invoices (snd (deleteInvoice e id' st))) \<and>
         (if isMockUser st then db (snd (deleteInvoice e id' st)) = db st
          else list_all (\<lambda>r. inv_id r \<noteq> id') (invoices_tbl (db (snd (deleteInvoice e id' st)))) \<and>
               list_all (\<lambda>it. invoice_id it \<noteq> id')
                 (invoice_items_tbl (db (snd (deleteInvoice e id' st)))))"
proof -
  let ?st' = "snd (deleteInvoice e id' st)"
  have inv: "invoices ?st' = filter (\<lambda>invoice. inv_id invoice \<noteq> id') (invoices st)"
    using assms(1) by (auto simp: deleteInvoice_def split: option.splits)
  have 1: "list_all (\<lambda>invoice. inv_id invoice \<noteq> id') (invoices ?st')"
    by (simp add: inv list_all_iff)
  then have 2: "getInvoice id' ?st' = None"
    by (simp add: getInvoice_def find_None_iff_list_all)
  have 3: "list_all (\<lambda>invoice. list_all (\<lambda>it. invoice_id it \<noteq> id') (invoice_items invoice))
      (invoices ?st')"
    using assms(4) by (auto simp: inv items_attached_def list_all_iff)
  have 4: "if isMockUser st then db ?st' = db st
     else list_all (\<lambda>r. inv_id r \<noteq> id') (invoices_tbl (db ?st')) \<and>
          list_all (\<lambda>it. invoice_id it \<noteq> id') (invoice_items_tbl (db ?st'))"
  proof (cases "isMockUser st")
    case True
    then show ?thesis by (simp add: deleteInvoice_def)
  next
    case False
    with assms(1) have "db ?st' = delete_invoices id' (user st) (db st)"
      by (auto simp: deleteInvoice_def split: option.splits)
    moreover from False assms(2)
    have "list_ex (\<lambda>r. inv_id r = id' \<and> own (user st) r) (invoices_tbl (db st))"
      by (simp add: holds_invoice_def)
    ultimately show ?thesis
      using False delete_invoices_rows [OF assms(3), of id' "user st"] by simp
  qed
  from 1 2 3 4 show ?thesis by simp
qed

lemma store_state_facts:
  "fst (deleteInvoice env1 ''inv-a'' store_state) = Inr ()"
  "holds_invoice ''inv-a'' store_state"
  "distinct (map inv_id (invoices_tbl (db store_state)))"
  "items_attached store_state"
proof -
  show "fst (deleteInvoice env1 ''inv-a'' store_state) = Inr ()"
    by (simp add: deleteInvoice_def store_state_not_mock reply_env1)
  show "holds_invoice ''inv-a'' store_state"
    by (simp add: holds_invoice_def store_state_not_mock)
       (simp add: store_state_def store_db_def store_row_def own_def)
  show "distinct (map inv_id (invoices_tbl (db store_state)))"
    by (simp add: store_state_def store_db_def store_row_def)
  show "items_attached store_state"
    by (simp add: items_attached_def store_state_def select_invoices_attached)
qed

lemma deleteInvoice_store_state:
  "db (snd (deleteInvoice env1 ''inv-a'' store_state)) =
     \<lparr>invoices_tbl = [store_row\<lparr>inv_id := ''inv-b'', status := Some Draft\<rparr>],
      invoice_items_tbl = [store_items ! 1], clients_tbl = []\<rparr>"
proof -
  have "db (snd (deleteInvoice env1 ''inv-a'' store_state)) =
        delete_invoices ''inv-a'' (Some ''u-1'') store_db"
    by (simp add: deleteInvoice_def store_state_not_mock reply_env1)
       (simp add: store_state_def)
  then show ?thesis
    by (simp add: delete_invoices_def store_db_def store_row_def store_items_def own_def)
qed

lemma deleteInvoice_store_state_example:
  "fst (deleteInvoice env1 ''inv-a'' store_state) = Inr () \<and>
   holds_invoice ''inv-a'' store_state \<and>
   distinct (map inv_id (invoices_tbl (db store_state))) \<and>
   items_attached store_state \<and>
   map invoice_id (invoice_items_tbl (db store_state)) = [''inv-a'', ''inv-b''] \<and>
   getInvoice ''inv-a'' (snd (deleteInvoice env1 ''inv-a'' store_state)) = None \<and>
   map inv_id (invoices_tbl (db (snd (deleteInvoice env1 ''inv-a'' store_state)))) = [''inv-b''] \<and>
   map invoice_id (invoice_items_tbl (db (snd (deleteInvoice env1 ''inv-a'' store_state)))) =
     [''inv-b'']"
proof -
  note f = store_state_facts
  from deleteInvoice_attached [OF f]
  have "getInvoice ''inv-a'' (snd (deleteInvoice env1 ''inv-a'' store_state)) = None"
    by blast
  moreover have "map invoice_id (invoice_items_tbl (db store_state)) = [''inv-a'', ''inv-b'']"
    by (simp add: store_state_def store_db_def store_items_def)
  moreover have "map inv_id (invoices_tbl (db (snd (deleteInvoice env1 ''inv-a'' store_state)))) =
      [''inv-b'']"
    by (simp add: deleteInvoice_store_state)
  moreover have "map invoice_id (invoice_items_tbl (db (snd (deleteInvoice env1 ''inv-a'' store_state)))) =
     [''inv-b'']"
    by (simp add: deleteInvoice_store_state store_items_def)
  ultimately show ?thesis using f by simp
qed

subsection \<open>Creating invoices\<close>

lemma createInvoice_mock:
  "user st = Some uid \<Longrightarrow> isMockUser st \<Longrightarrow>
   createInvoice e clientId items invoiceData st =
     (Inr (Some (mock_invoice e uid clientId (generateInvoiceNumber e st) items invoiceData)),
      st\<lparr>invoices := mock_invoice e uid clientId (generateInvoiceNumber e st) items invoiceData #
                     invoices st\<rparr>)"
  by (simp add: createInvoice_def Let_def)

lemma createInvoice_store_rows:
  assumes "user st = Some uid" and "\<not> isMockUser st" and "reply e 1 = None"
  shows "invoices_tbl (db (snd (createInvoice e clientId items invoiceData st))) =
         invoices_tbl (db st) @
           [new_invoices_row e uid clientId (generateInvoiceNumber e st) invoiceData]"
  using assms
  by (simp add: createInvoice_def Let_def fetchInvoices_db split: option.splits)

lemma length_mock_invoice_items: "length (mock_invoice_items e items) = length items"
  by (simp add: mock_invoice_items_def)

lemma invoice_items_mock_invoice:
  "invoice_items (mock_invoice e uid clientId invoiceNumber items invoiceData) =
   mock_invoice_items e items"
  by (simp add: mock_invoice_def)

text \<open>
  C5, as it is worded: createInvoice with no items fails and persists nothing. It does
  not fail: for the demonstration user the call returns the new invoice, which has no
  items, and the list has grown by it.
\<close>

theorem createInvoice_empty_counterexample:
  "\<not> isl (fst (createInvoice env1 ''mock-1'' [] sample_data demo_state)) \<and>
   length (invoices (snd (createInvoice env1 ''mock-1'' [] sample_data demo_state))) =
     Suc (length (invoices demo_state)) \<and>
   invoice_items (hd (invoices (snd (createInvoice env1 ''mock-1'' [] sample_data demo_state)))) = []"
proof -
  have u: "user demo_state = Some ''admin@invoicepro.com''" by (simp add: demo_state_def)
  show ?thesis
    by (simp add: createInvoice_mock [OF u demo_state_mock] invoice_items_mock_invoice
        mock_invoice_items_def)
qed

text \<open>
  C5, amended. createInvoice does not look at the number of items. For a logged-in
  demonstration user it succeeds with any list of items, the empty one too, and puts
  the new invoice, with as many items as it was given, in front of the list; for a user
  of the store the invoice row is in the table as soon as the store accepts its insert,
  whatever the items are. That an invoice has at least one item is what the schema of
  the form asks: a form without items does not pass invoiceSchema, and handleSubmit
  then leaves the state as it is.
\<close>

theorem createInvoice_no_items_check:
  assumes "user st = Some uid" and "isMockUser st \<or> reply e 1 = None"
  shows "(if isMockUser st
          then fst (createInvoice e clientId items invoiceData st) =
                 Inr (Some (mock_invoice e uid clientId (generateInvoiceNumber e st) items invoiceData)) \<and>
               invoices (snd (createInvoice e clientId items invoiceData st)) =
                 mock_invoice e uid clientId (generateInvoiceNumber e st) items invoiceData #
                 invoices st \<and>
               length (invoice_items
                 (mock_invoice e uid clientId (generateInvoiceNumber e st) items invoiceData)) =
                 length items
          else invoices_tbl (db (snd (createInvoice e clientId items invoiceData st))) =
                 invoices_tbl (db st) @
                 [new_invoices_row e uid clientId (generateInvoiceNumber e st) invoiceData]) \<and>
         (f_items data = [] \<longrightarrow>
            \<not> invoiceSchema data \<and> handleSubmit e data status' st = st)"
proof (cases "isMockUser st")
  case True
  then show ?thesis
    by (simp add: createInvoice_mock [OF assms(1) True] invoice_items_mock_invoice
        length_mock_invoice_items invoiceSchema_def handleSubmit_def)
next
  case False
  with assms(2) have r: "reply e 1 = None" by simp
  from False show ?thesis
    by (simp add: createInvoice_store_rows [OF assms(1) False r] invoiceSchema_def
        handleSubmit_def)
qed

theorem createInvoice_no_items_check_witness:
  "user demo_state = Some ''admin@invoicepro.com'' \<and>
   (isMockUser demo_state \<or> reply env1 1 = None) \<and>
   f_items empty_form = [] \<and>
   fst (createInvoice env1 ''mock-1'' [] sample_data demo_state) =
     Inr (Some (mock_invoice env1 ''admin@invoicepro.com'' ''mock-1''
                  (generateInvoiceNumber env1 demo_state) [] sample_data)) \<and>
   length (invoice_items (mock_invoice env1 ''admin@invoicepro.com'' ''mock-1''
                  (generateInvoiceNumber env1 demo_state) [] sample_data)) = 0 \<and>
   length (invoices (snd (createInvoice env1 ''mock-1'' [] sample_data demo_state))) = 2 \<and>
   \<not> invoiceSchema empty_form \<and>
   handleSubmit env1 empty_form Draft demo_state = demo_state"
proof -
  have u: "user demo_state = Some ''admin@invoicepro.com''" by (simp add: demo_state_def)
  have m: "isMockUser demo_state \<or> reply env1 1 = None" by (simp add: demo_state_mock)
  have f: "f_items empty_form = []" by (simp add: empty_form_def)
  have l: "length (invoices demo_state) = 1" by (simp add: demo_state_def mockInvoices_def)
  from createInvoice_no_items_check [OF u m, of "''mock-1''" "[]" sample_data empty_form Draft]
    demo_state_mock f l
  show ?thesis using u by simp
qed

subsection \<open>Where the items of the list come from\<close>

text \<open>
  The items of the list are attached to their own invoices in the demonstration data
  and after every fetch from the store; updating and deleting keep them so. An invoice
  that createInvoice builds for a demonstration user has its items attached when the
  clock stands still during the call: the id of the invoice and the \<open>invoice_id\<close> of
  each item come from clock readings of their own.
\<close>

lemma demo_state_items_attached: "items_attached demo_state"
  by (simp add: items_attached_def demo_state_def mockInvoices_def)

lemma fetchInvoices_items_attached:
  "\<not> isMockUser st \<Longrightarrow> user st = Some uid \<Longrightarrow> reply e k = None \<Longrightarrow>
   items_attached (fetchInvoices e k st)"
  by (simp add: fetchInvoices_store items_attached_def select_invoices_attached)

lemma update_mock_items_attached:
  "list_all (\<lambda>invoice. list_all (\<lambda>it. invoice_id it = inv_id invoice) (invoice_items invoice)) xs \<Longrightarrow>
   list_all (\<lambda>invoice. list_all (\<lambda>it. invoice_id it = inv_id invoice) (invoice_items invoice))
     (update_mock e k id' p xs)"
  by (induction xs arbitrary: k) (auto simp: apply_update_def)

lemma deleteInvoice_items_attached:
  "items_attached st \<Longrightarrow> items_attached (snd (deleteInvoice e id' st))"
  by (auto simp: deleteInvoice_def items_attached_def list_all_iff split: option.splits)

lemma mock_invoice_items_attached:
  assumes "\<forall>index < length items. now e (5 + 4 * index) = now e 1"
  shows "list_all (\<lambda>it. invoice_id it = inv_id (mock_invoice e uid clientId invoiceNumber items invoiceData))
           (invoice_items (mock_invoice e uid clientId invoiceNumber items invoiceData))"
proof -
  have "index < length items" if "(index, item) \<in> set (enumerate 0 items)" for index item
    using that by (simp add: in_set_enumerate_eq)
  with assms show ?thesis
    by (auto simp: mock_invoice_def mock_invoice_items_def list_all_iff)
qed

lemma mock_invoice_clock_advancing:
  "inv_id (mock_invoice env1 uid clientId invoiceNumber [sample_item] invoiceData) = ''mock-inv-1001'' \<and>
   map invoice_id (invoice_items (mock_invoice env1 uid clientId invoiceNumber [sample_item] invoiceData)) =
     [''mock-inv-1005'']"
  by (simp add: mock_invoice_def mock_invoice_items_def env1_def toString.simps digit_char_def)







end
